(* ===== verification/Prelude.thy ===== *)
theory Prelude imports Main "HOL-Library.Word" begin

text \<open>
  Shared vocabulary of the srunix86 development: the machine integer types, the faults a C
  program can commit, the outcome of a step that may fault, wait for the hardware, never
  return or run out of fuel, the combinators that sequence such steps in program order, and
  generic lemmas on lists and words the component theories share.
\<close>

unbundle bit_operations_syntax

type_synonym u8 = "8 word"
type_synonym u16 = "16 word"
type_synonym u32 = "32 word"
type_synonym u64 = "64 word"

section \<open>Faults and outcomes\<close>

text \<open>
  The C code relies on the absence of undefined behaviour. A fault is a point where the C
  standard gives the program no meaning: an access outside an array, a signed overflow, a
  read of an indeterminate object, a variadic argument that was not passed.
\<close>

datatype fault =
    OutOfBounds
  | SignedOverflow
  | Uninitialised
  | MissingArgument

text \<open>
  Why a run stops short of a result: a fault, the environment has supplied no further
  device input (\<open>Await\<close>), control provably never comes back (\<open>NoReturn\<close>, a halted CPU or an
  empty infinite loop), or the fuel of a recursive model is used up (\<open>OutOfFuel\<close>).
\<close>

datatype stop =
    Fault fault
  | Await
  | NoReturn
  | OutOfFuel

datatype ('s, 'a) outcome =
    Ret 'a 's
  | Stop stop 's

type_synonym ('s, 'a) cmd = "'s \<Rightarrow> ('s, 'a) outcome"

section \<open>Sequencing\<close>

text \<open>State transformers that cannot fail, run in program order.\<close>

primrec steps :: "('s \<Rightarrow> 's) list \<Rightarrow> 's \<Rightarrow> 's" where
  "steps [] s = s"
| "steps (f # fs) s = steps fs (f s)"

lemma steps_append [simp]: "steps (fs @ gs) s = steps gs (steps fs s)"
  by (induction fs arbitrary: s) simp_all

text \<open>Pure computations that may fault.\<close>

definition sbind :: "fault + 'a \<Rightarrow> ('a \<Rightarrow> fault + 'b) \<Rightarrow> fault + 'b" where
  "sbind x f = (case x of Inl e \<Rightarrow> Inl e | Inr a \<Rightarrow> f a)"

lemma sbind_simps [simp]: "sbind (Inl e) f = Inl e" "sbind (Inr a) f = f a"
  by (simp_all add: sbind_def)

lemma sbind_eq_Inr: "sbind x f = Inr b \<longleftrightarrow> (\<exists>a. x = Inr a \<and> f a = Inr b)"
  by (cases x) simp_all

text \<open>A counted loop whose body may fault.\<close>

primrec sfold :: "('i \<Rightarrow> 'a \<Rightarrow> fault + 'a) \<Rightarrow> 'i list \<Rightarrow> 'a \<Rightarrow> fault + 'a" where
  "sfold f [] a = Inr a"
| "sfold f (i # is) a = sbind (f i a) (sfold f is)"

lemma sfold_append: "sfold f (is @ js) a = sbind (sfold f is a) (sfold f js)"
proof (induction "is" arbitrary: a)
  case Nil
  show ?case by simp
next
  case (Cons i "is")
  then show ?case by (cases "f i a") simp_all
qed

text \<open>Commands: state transformers that may stop.\<close>

definition ret :: "'a \<Rightarrow> ('s, 'a) cmd" where
  "ret a s = Ret a s"

definition bindc :: "('s, 'a) cmd \<Rightarrow> ('a \<Rightarrow> ('s, 'b) cmd) \<Rightarrow> ('s, 'b) cmd" where
  "bindc m f s = (case m s of Ret a s' \<Rightarrow> f a s' | Stop e s' \<Rightarrow> Stop e s')"

definition andthen :: "('s, 'a) cmd \<Rightarrow> ('s, 'b) cmd \<Rightarrow> ('s, 'b) cmd" where
  "andthen m n = bindc m (\<lambda>_. n)"

definition act :: "('s \<Rightarrow> 's) \<Rightarrow> ('s, unit) cmd" where
  "act f s = Ret () (f s)"

definition query :: "('s \<Rightarrow> 'a) \<Rightarrow> ('s, 'a) cmd" where
  "query f s = Ret (f s) s"

definition halt :: "stop \<Rightarrow> ('s, 'a) cmd" where
  "halt e s = Stop e s"

text \<open>A pure computation inside a command: its fault stops the command.\<close>

definition lift_sum :: "fault + 'a \<Rightarrow> ('s, 'a) cmd" where
  "lift_sum x s = (case x of Inl e \<Rightarrow> Stop (Fault e) s | Inr a \<Rightarrow> Ret a s)"

text \<open>A command on a part of the state.\<close>

definition zoom :: "('t \<Rightarrow> 's) \<Rightarrow> ('s \<Rightarrow> 't \<Rightarrow> 't) \<Rightarrow> ('s, 'a) cmd \<Rightarrow> ('t, 'a) cmd" where
  "zoom sel upd m t = (case m (sel t) of Ret a s \<Rightarrow> Ret a (upd s t) | Stop e s \<Rightarrow> Stop e (upd s t))"

primrec cseq :: "('s, unit) cmd list \<Rightarrow> ('s, unit) cmd" where
  "cseq [] = ret ()"
| "cseq (m # ms) = andthen m (cseq ms)"

primrec for_each :: "('i \<Rightarrow> ('s, unit) cmd) \<Rightarrow> 'i list \<Rightarrow> ('s, unit) cmd" where
  "for_each f [] = ret ()"
| "for_each f (i # is) = andthen (f i) (for_each f is)"

named_theorems cmd_simps

lemma cmd_basic_simps [cmd_simps]:
  "ret a s = Ret a s"
  "act f s = Ret () (f s)"
  "query g s = Ret (g s) s"
  "halt e s = Stop e s"
  "lift_sum (Inl x) s = Stop (Fault x) s"
  "lift_sum (Inr b) s = Ret b s"
  by (simp_all add: ret_def act_def query_def halt_def lift_sum_def)

lemma bindc_simps [cmd_simps]:
  "m s = Ret a s' \<Longrightarrow> bindc m f s = f a s'"
  "m s = Stop e s' \<Longrightarrow> bindc m f s = Stop e s'"
  by (simp_all add: bindc_def)

lemma andthen_simps [cmd_simps]:
  "m s = Ret a s' \<Longrightarrow> andthen m n s = n s'"
  "m s = Stop e s' \<Longrightarrow> andthen m n s = Stop e s'"
  by (simp_all add: andthen_def bindc_def)

text \<open>The laws that make sequencing associative, so programs can be regrouped.\<close>

lemma bindc_ret_left: "bindc (ret a) f = f a"
  by (simp add: bindc_def ret_def fun_eq_iff)

lemma bindc_assoc: "bindc (bindc m f) g = bindc m (\<lambda>a. bindc (f a) g)"
  by (simp add: bindc_def fun_eq_iff split: outcome.splits)

lemma andthen_assoc: "andthen (andthen m n) p = andthen m (andthen n p)"
  by (simp add: andthen_def bindc_assoc)

section \<open>Lists\<close>

text \<open>A \<open>for\<close> loop that leaves at the first index satisfying a test.\<close>

definition first_index :: "(nat \<Rightarrow> bool) \<Rightarrow> nat \<Rightarrow> nat option" where
  "first_index p n = List.find p [0..<n]"

lemma first_index_Some:
  "first_index p n = Some i \<longleftrightarrow> i < n \<and> p i \<and> (\<forall>j<i. \<not> p j)"
proof -
  have "first_index p n = Some i \<longleftrightarrow>
      (\<exists>k<length [0..<n]. p ([0..<n] ! k) \<and> i = [0..<n] ! k \<and> (\<forall>j<k. \<not> p ([0..<n] ! j)))"
    by (auto simp: first_index_def find_Some_iff)
  also have "\<dots> \<longleftrightarrow> i < n \<and> p i \<and> (\<forall>j<i. \<not> p j)"
    by auto
  finally show ?thesis .
qed

lemma first_index_None: "first_index p n = None \<longleftrightarrow> (\<forall>i<n. \<not> p i)"
  by (auto simp: first_index_def find_None_iff)

lemma first_index_exists: "i < n \<Longrightarrow> p i \<Longrightarrow> \<exists>j. first_index p n = Some j"
  using first_index_None [of p n] by (cases "first_index p n") auto

lemma card_filter_upt_update:
  fixes n :: nat
  assumes "i < n" and "\<not> P i"
  shows "card {j. j < n \<and> (j = i \<or> P j)} = Suc (card {j. j < n \<and> P j})"
proof -
  have "{j. j < n \<and> (j = i \<or> P j)} = insert i {j. j < n \<and> P j}"
    using assms by auto
  moreover have "finite {j. j < n \<and> P j}" by simp
  ultimately show ?thesis using assms by (simp del: Collect_conj_eq)
qed

lemma card_filter_upt_remove:
  fixes n :: nat
  assumes "i < n" and "P i"
  shows "Suc (card {j. j < n \<and> j \<noteq> i \<and> P j}) = card {j. j < n \<and> P j}"
proof -
  have "{j. j < n \<and> P j} = insert i {j. j < n \<and> j \<noteq> i \<and> P j}"
    using assms by auto
  moreover have "finite {j. j < n \<and> j \<noteq> i \<and> P j}" by simp
  ultimately show ?thesis by simp
qed

lemma card_filter_upt_le: "card {j. j < (n::nat) \<and> P j} \<le> n"
proof -
  have "card {j. j < n \<and> P j} \<le> card {..<n}"
    by (rule card_mono) auto
  then show ?thesis by simp
qed

section \<open>Words\<close>

lemma unat_of_nat_u32 [simp]: "n < 4294967296 \<Longrightarrow> unat (of_nat n :: u32) = n"
  by (simp add: unat_of_nat take_bit_eq_mod)

lemma unat_1_of_nat_u32 [simp]: "n < 4294967295 \<Longrightarrow> unat (1 + of_nat n :: u32) = Suc n"
  using unat_of_nat_u32 [of "Suc n"] by simp

lemma of_nat_Suc_u32_neq_0 [simp]: "n < 4294967295 \<Longrightarrow> 1 + of_nat n \<noteq> (0 :: u32)"
  using unat_1_of_nat_u32 [of n] by (metis nat.distinct(1) unat_0)

lemma unat_of_nat_u64 [simp]: "n < 18446744073709551616 \<Longrightarrow> unat (of_nat n :: u64) = n"
  by (simp add: unat_of_nat take_bit_eq_mod)

lemma unat_lt_u32: "unat (w :: u32) < 4294967296"
  using unsigned_less [of w] by simp

lemma unat_lt_u64: "unat (w :: u64) < 18446744073709551616"
  using unsigned_less [of w] by simp

lemma unat_gt_0_u32: "w \<noteq> 0 \<Longrightarrow> 0 < unat (w :: u32)"
  by (simp add: unat_gt_0)

lemma unat_plus_one_u32: "unat (w :: u32) < 4294967295 \<Longrightarrow> unat (w + 1) = Suc (unat w)"
  by (simp add: unat_word_ariths)

lemma unat_minus_one_u32: "w \<noteq> 0 \<Longrightarrow> unat (w - 1 :: u32) = unat w - 1"
  by (metis unat_minus_one)

section \<open>Steps\<close>

text \<open>
  The contract of a component whose operations are the steps of a relation: each step keeps \<open>ok\<close>. What
  holds of every reachable state follows once for all components.
\<close>

locale stepping =
  fixes step :: "'s \<Rightarrow> 's \<Rightarrow> bool" and ok :: "'s \<Rightarrow> bool"
  assumes ok_step: "step s s' \<Longrightarrow> ok s \<Longrightarrow> ok s'"
begin

lemma ok_reachable: "step\<^sup>*\<^sup>* s s' \<Longrightarrow> ok s \<Longrightarrow> ok s'"
  by (induction rule: rtranclp_induct) (auto intro: ok_step)

end

end
