(* ===== verification/CString.thy ===== *)
theory CString imports Prelude begin

text \<open>
  The string and memory routines of src/lib/prdio.h, and the number formatting and name check
  built on them. A pointer to a NUL-terminated string that is only read is the list of its
  characters without the terminator; an array that is written is a list whose length is its
  capacity, and every write and read is checked against it. \<open>cstr\<close> reads an array as a string.
\<close>

type_synonym carray = "char list"

abbreviation NUL :: char where "NUL \<equiv> CHR 0x00"

definition cstr :: "carray \<Rightarrow> string" where
  "cstr a = takeWhile (\<lambda>c. c \<noteq> NUL) a"

text \<open>A C string holds no NUL.\<close>

definition is_cstr :: "string \<Rightarrow> bool" where
  "is_cstr s \<longleftrightarrow> NUL \<notin> set s"

text \<open>The two readings of a \<open>char\<close>: as \<open>unsigned char\<close> and as the signed \<open>char\<close> of x86.\<close>

definition uchar :: "char \<Rightarrow> int" where
  "uchar c = int (of_char c)"

definition schar :: "char \<Rightarrow> int" where
  "schar c = (if uchar c < 128 then uchar c else uchar c - 256)"

definition write_at :: "'a list \<Rightarrow> nat \<Rightarrow> 'a \<Rightarrow> fault + 'a list" where
  "write_at a i x = (if i < length a then Inr (a[i := x]) else Inl OutOfBounds)"

definition read_at :: "'a list \<Rightarrow> nat \<Rightarrow> fault + 'a" where
  "read_at a i = (if i < length a then Inr (a ! i) else Inl OutOfBounds)"

section \<open>Memory blocks\<close>

definition memcpy :: "'a list \<Rightarrow> nat \<Rightarrow> 'a list \<Rightarrow> nat \<Rightarrow> nat \<Rightarrow> fault + 'a list" where
  "memcpy dest d src s n =
     sfold (\<lambda>i a. sbind (read_at src (s + i)) (write_at a (d + i))) [0..<n] dest"

definition memset :: "'a list \<Rightarrow> 'a \<Rightarrow> nat \<Rightarrow> fault + 'a list" where
  "memset p c n = sfold (\<lambda>i a. write_at a i c) [0..<n] p"

fun memcmp :: "char list \<Rightarrow> char list \<Rightarrow> nat \<Rightarrow> fault + int" where
  "memcmp p1 p2 0 = Inr 0"
| "memcmp (a # p1) (b # p2) (Suc n) =
     (if a \<noteq> b then Inr (uchar a - uchar b) else memcmp p1 p2 n)"
| "memcmp _ _ (Suc n) = Inl OutOfBounds"

section \<open>Reading strings\<close>

text \<open>A returned pointer into a string is the suffix it points at; \<open>None\<close> is \<open>NULL\<close>.\<close>

fun strchr :: "string \<Rightarrow> char \<Rightarrow> string option" where
  "strchr [] c = None"
| "strchr (x # s) c = (if x = c then Some (x # s) else strchr s c)"

fun strpbrk :: "string \<Rightarrow> string \<Rightarrow> string option" where
  "strpbrk [] accept = None"
| "strpbrk (x # s) accept = (if x \<in> set accept then Some (x # s) else strpbrk s accept)"

fun strcmp :: "string \<Rightarrow> string \<Rightarrow> int" where
  "strcmp [] [] = 0"
| "strcmp [] (d # _) = 0 - uchar d"
| "strcmp (c # _) [] = uchar c - 0"
| "strcmp (c # s1) (d # s2) = (if c = d then strcmp s1 s2 else uchar c - uchar d)"

fun strncmp :: "string \<Rightarrow> string \<Rightarrow> nat \<Rightarrow> int" where
  "strncmp s1 s2 0 = 0"
| "strncmp [] [] (Suc n) = 0"
| "strncmp [] (d # _) (Suc n) = 0 - uchar d"
| "strncmp (c # _) [] (Suc n) = uchar c - 0"
| "strncmp (c # s1) (d # s2) (Suc n) = (if c = d then strncmp s1 s2 n else uchar c - uchar d)"

text \<open>The terminator of the haystack is in memory, so \<open>memcmp\<close> may read it.\<close>

fun strstr_from :: "string \<Rightarrow> string \<Rightarrow> fault + string option" where
  "strstr_from [] needle = Inr None"
| "strstr_from (x # h) needle =
     (if x = hd needle
      then sbind (memcmp ((x # h) @ [NUL]) needle (length needle))
             (\<lambda>r. if r = 0 then Inr (Some (x # h)) else strstr_from h needle)
      else strstr_from h needle)"

definition strstr :: "string \<Rightarrow> string \<Rightarrow> fault + string option" where
  "strstr haystack needle =
     (if length needle = 0 then Inr (Some haystack) else strstr_from haystack needle)"

text \<open>\<open>c += 32\<close> for a capital letter.\<close>

definition lower_char :: "char \<Rightarrow> char" where
  "lower_char c = (if schar c \<ge> 65 \<and> schar c \<le> 90 then char_of (of_char c + 32 :: nat) else c)"

fun strcmp_case_insensitive :: "string \<Rightarrow> string \<Rightarrow> int" where
  "strcmp_case_insensitive (a # s1) (b # s2) =
     (let c1 = lower_char a; c2 = lower_char b
      in if c1 \<noteq> c2 then schar c1 - schar c2 else strcmp_case_insensitive s1 s2)"
| "strcmp_case_insensitive [] [] = 0"
| "strcmp_case_insensitive [] (b # _) = 0 - uchar b"
| "strcmp_case_insensitive (a # _) [] = uchar a - 0"

abbreviation INT_MAX :: int where "INT_MAX \<equiv> 2147483647"
abbreviation INT_MIN :: int where "INT_MIN \<equiv> -2147483648"

fun atoi_loop :: "int \<Rightarrow> string \<Rightarrow> fault + int" where
  "atoi_loop res [] = Inr res"
| "atoi_loop res (c # s) =
     (if schar c \<ge> 48 \<and> schar c \<le> 57
      then (let r = res * 10 + (schar c - 48)
            in if r > INT_MAX then Inl SignedOverflow else atoi_loop r s)
      else Inr res)"

definition atoi :: "string \<Rightarrow> fault + int" where
  "atoi str = atoi_loop 0 str"

definition abs_int :: "int \<Rightarrow> fault + int" where
  "abs_int n = (if n < 0 then (if n = INT_MIN then Inl SignedOverflow else Inr (- n)) else Inr n)"

section \<open>Writing strings\<close>

fun strcpy_at :: "carray \<Rightarrow> nat \<Rightarrow> string \<Rightarrow> fault + carray" where
  "strcpy_at dest d [] = write_at dest d NUL"
| "strcpy_at dest d (c # src) = sbind (write_at dest d c) (\<lambda>a. strcpy_at a (Suc d) src)"

definition strcpy :: "carray \<Rightarrow> string \<Rightarrow> fault + carray" where
  "strcpy dest src = strcpy_at dest 0 src"

text \<open>\<open>while (*dest) dest++\<close>: the index of the terminator, or a read past the array.\<close>

fun find_nul :: "carray \<Rightarrow> fault + nat" where
  "find_nul [] = Inl OutOfBounds"
| "find_nul (c # a) = (if c = NUL then Inr 0 else sbind (find_nul a) (\<lambda>n. Inr (Suc n)))"

definition strcat :: "carray \<Rightarrow> string \<Rightarrow> fault + carray" where
  "strcat dest src = sbind (find_nul dest) (\<lambda>d. strcpy_at dest d src)"

text \<open>
  \<open>strncpy\<close> with its \<open>size_t\<close> counter: \<open>n--\<close> is evaluated also when the test fails, so the
  counter wraps to \<open>2^64 - 1\<close> when the first loop leaves with \<open>n = 0\<close>.
\<close>

fun strncpy_copy :: "u64 \<Rightarrow> carray \<Rightarrow> nat \<Rightarrow> string \<Rightarrow> fault + (u64 \<times> carray \<times> nat)" where
  "strncpy_copy n dest d [] =
     (if n = 0 then Inr (n - 1, dest, d)
      else sbind (write_at dest d NUL) (\<lambda>a. Inr (n - 1, a, Suc d)))"
| "strncpy_copy n dest d (c # src) =
     (if n = 0 then Inr (n - 1, dest, d)
      else sbind (write_at dest d c) (\<lambda>a. strncpy_copy (n - 1) a (Suc d) src))"

function strncpy_pad :: "u64 \<Rightarrow> carray \<Rightarrow> nat \<Rightarrow> fault + carray" where
  "strncpy_pad n dest d =
     (if n = 0 then Inr dest
      else if d < length dest then strncpy_pad (n - 1) (dest[d := NUL]) (Suc d)
      else Inl OutOfBounds)"
  by pat_completeness auto
termination
  by (relation "measure (\<lambda>(n, dest, d). length dest - d)") auto

declare strncpy_pad.simps [simp del]

definition strncpy :: "carray \<Rightarrow> string \<Rightarrow> u64 \<Rightarrow> fault + carray" where
  "strncpy dest src n =
     sbind (strncpy_copy n dest 0 src) (\<lambda>(m, a, d). strncpy_pad m a d)"

text \<open>
  \<open>strtok\<close> keeps the pointer \<open>saved_str\<close> between calls: it is an argument and part of the
  result here. Cutting the string in place is the token ending before the delimiter.
\<close>

definition strtok :: "string option \<Rightarrow> string \<Rightarrow> string option \<Rightarrow> string option \<times> string option" where
  "strtok str delim saved =
     (let saved1 = (case str of Some s \<Rightarrow> Some s | None \<Rightarrow> saved)
      in case saved1 of
           None \<Rightarrow> (None, saved1)
         | Some s \<Rightarrow>
             if s = [] then (None, saved1)
             else (case strpbrk s delim of
                     Some t \<Rightarrow> (Some (take (length s - length t) s), Some (tl t))
                   | None \<Rightarrow> (Some s, None)))"

section \<open>Numbers as text\<close>

function int_digits :: "nat \<Rightarrow> nat \<Rightarrow> carray \<Rightarrow> fault + (nat \<times> carray)" where
  "int_digits num i a =
     (if num = 0 then Inr (i, a)
      else sbind (write_at a i (char_of (num mod 10 + 48)))
             (\<lambda>a'. int_digits (num div 10) (Suc i) a'))"
  by pat_completeness auto
termination
  by (relation "measure (\<lambda>(num, i, a). num)") auto

declare int_digits.simps [simp del]

function swap_ends :: "carray \<Rightarrow> nat \<Rightarrow> nat \<Rightarrow> carray" where
  "swap_ends a start e =
     (if start < e
      then swap_ends (a[start := a ! e, e := a ! start]) (Suc start) (e - 1)
      else a)"
  by pat_completeness auto
termination
  by (relation "measure (\<lambda>(a, start, e). e)") auto

declare swap_ends.simps [simp del]

definition int_to_str :: "int \<Rightarrow> carray \<Rightarrow> fault + carray" where
  "int_to_str num str =
     (if num = INT_MIN then Inl SignedOverflow
      else sbind (if num = 0 then sbind (write_at str 0 (CHR ''0'')) (\<lambda>a. Inr (1, a))
                  else Inr (0, str)) (\<lambda>(i0, a0).
           sbind (int_digits (nat \<bar>num\<bar>) i0 a0) (\<lambda>(i1, a1).
           sbind (if num < 0 then sbind (write_at a1 i1 (CHR ''-'')) (\<lambda>a. Inr (Suc i1, a))
                  else Inr (i1, a1)) (\<lambda>(i, a2).
           sbind (write_at a2 i NUL) (\<lambda>a3.
           Inr (swap_ends a3 0 (i - 1)))))))"

definition bcd_to_bin :: "int \<Rightarrow> int" where
  "bcd_to_bin bcd = (bcd AND 0x0F) + drop_bit 4 bcd * 10"

section \<open>File names\<close>

definition invalid_chars :: string where
  "invalid_chars = ''&;|*?'' @ [CHR 0x27, CHR 0x22, CHR 0x60] @ ''[]()$<>{}^#'' @
     [CHR 0x5C] @ ''/%!''"

fun all_chars_valid :: "string \<Rightarrow> bool" where
  "all_chars_valid [] = True"
| "all_chars_valid (c # s) = (if strchr invalid_chars c \<noteq> None then False else all_chars_valid s)"

definition is_valid_filename :: "string \<Rightarrow> bool" where
  "is_valid_filename name = (if length name = 0 then False else all_chars_valid name)"

section \<open>Characters\<close>

lemma uchar_range: "0 \<le> uchar c" "uchar c < 256"
  using nat_of_char_less_256 [of c] by (simp_all add: uchar_def)

lemma uchar_inject [simp]: "uchar c = uchar d \<longleftrightarrow> c = d"
  by (simp add: uchar_def)

lemma uchar_zero [simp]: "uchar c = 0 \<longleftrightarrow> c = NUL" "0 = uchar c \<longleftrightarrow> c = NUL"
proof -
  have "uchar NUL = 0" by (simp add: uchar_def)
  then show "uchar c = 0 \<longleftrightarrow> c = NUL" "0 = uchar c \<longleftrightarrow> c = NUL"
    by (metis uchar_inject)+
qed

lemma schar_inject [simp]: "schar c = schar d \<longleftrightarrow> c = d"
  using uchar_range [of c] uchar_range [of d] uchar_inject [of c d]
  by (auto simp: schar_def simp del: uchar_inject split: if_splits)

lemma uchar_char_of: "n < 256 \<Longrightarrow> uchar (char_of (n :: nat)) = int n"
  by (simp add: uchar_def)

lemma char_of_nat_digit: "d < 10 \<Longrightarrow> schar (char_of (d + 48 :: nat)) = int d + 48"
  by (simp add: schar_def uchar_char_of)

lemma is_cstr_simps [simp]:
  "is_cstr []" "is_cstr (c # s) \<longleftrightarrow> c \<noteq> NUL \<and> is_cstr s"
  "is_cstr (s @ t) \<longleftrightarrow> is_cstr s \<and> is_cstr t"
  by (auto simp: is_cstr_def)

lemma is_cstr_cstr [simp]: "is_cstr (cstr a)"
  using set_takeWhileD by (fastforce simp: is_cstr_def cstr_def)

lemma cstr_terminated [simp]: "is_cstr s \<Longrightarrow> cstr (s @ NUL # r) = s"
  by (induction s) (auto simp: cstr_def)

lemma cstr_Cons: "cstr (c # a) = (if c = NUL then [] else c # cstr a)"
  by (simp add: cstr_def)

lemma cstr_Nil [simp]: "cstr [] = []"
  by (simp add: cstr_def)

lemma length_cstr_less: "NUL \<in> set l \<Longrightarrow> length (cstr l) < length l"
  by (induction l) (auto simp: cstr_def)

section \<open>Memory blocks: closed forms\<close>

lemma memcpy_step:
  assumes "d + n \<le> length dest" and "s + n \<le> length src"
  shows "memcpy dest d src s n = Inr (take d dest @ take n (drop s src) @ drop (d + n) dest)"
  using assms
proof (induction n)
  case 0
  then show ?case by (simp add: memcpy_def)
next
  case (Suc n)
  let ?mid = "take d dest @ take n (drop s src) @ drop (d + n) dest"
  have len: "length (take d dest @ take n (drop s src)) = d + n"
    using Suc.prems by simp
  have "memcpy dest d src s (Suc n) =
      sbind (memcpy dest d src s n) (\<lambda>a. sbind (read_at src (s + n)) (write_at a (d + n)))"
    by (cases "memcpy dest d src s n") (simp_all add: memcpy_def sfold_append sbind_def split: sum.splits)
  also have "\<dots> = write_at ?mid (d + n) (src ! (s + n))"
    using Suc by (simp add: read_at_def)
  also have "\<dots> = Inr (take d dest @ take (Suc n) (drop s src) @ drop (d + Suc n) dest)"
  proof -
    have "drop (d + n) dest = dest ! (d + n) # drop (d + Suc n) dest"
      using Suc.prems by (simp add: Cons_nth_drop_Suc)
    moreover have "take (Suc n) (drop s src) = take n (drop s src) @ [src ! (s + n)]"
      using Suc.prems by (simp add: take_Suc_conv_app_nth)
    moreover have "?mid[d + n := src ! (s + n)] =
        take d dest @ take n (drop s src) @ (drop (d + n) dest)[0 := src ! (s + n)]"
      using len list_update_append [of "take d dest @ take n (drop s src)" "drop (d + n) dest" "d + n"]
      by simp
    ultimately show ?thesis
      using Suc.prems by (simp add: write_at_def)
  qed
  finally show ?case .
qed

lemma memset_all: "n \<le> length p \<Longrightarrow> memset p c n = Inr (replicate n c @ drop n p)"
proof (induction n)
  case 0
  then show ?case by (simp add: memset_def)
next
  case (Suc n)
  have "memset p c (Suc n) = sbind (memset p c n) (\<lambda>a. write_at a n c)"
    by (cases "memset p c n") (simp_all add: memset_def sfold_append sbind_def split: sum.splits)
  also have "\<dots> = Inr ((replicate n c @ drop n p)[n := c])"
    using Suc by (simp add: write_at_def)
  also have "(replicate n c @ drop n p)[n := c] = replicate (Suc n) c @ drop (Suc n) p"
  proof -
    have "drop n p = p ! n # drop (Suc n) p"
      using Suc.prems by (simp add: Cons_nth_drop_Suc)
    then show ?thesis
      by (simp add: list_update_append replicate_append_same [symmetric])
  qed
  finally show ?case .
qed

lemma memcmp_zero:
  "n \<le> length p1 \<Longrightarrow> n \<le> length p2 \<Longrightarrow>
   \<exists>r. memcmp p1 p2 n = Inr r \<and> (r = 0 \<longleftrightarrow> take n p1 = take n p2)"
  by (induction p1 p2 n rule: memcmp.induct) auto

section \<open>Comparisons\<close>

lemma strcmp_zero: "is_cstr s \<Longrightarrow> is_cstr t \<Longrightarrow> strcmp s t = 0 \<longleftrightarrow> s = t"
  by (induction s t rule: strcmp.induct) auto

lemma strcmp_refl [simp]: "strcmp s s = 0"
  by (induction s) auto

lemma strcmp_case_insensitive_zero:
  "is_cstr s \<Longrightarrow> is_cstr t \<Longrightarrow>
   strcmp_case_insensitive s t = 0 \<longleftrightarrow> map lower_char s = map lower_char t"
proof (induction s t rule: strcmp_case_insensitive.induct)
  case (1 a s1 b s2)
  then show ?case
    by (cases "lower_char a = lower_char b") (auto simp: Let_def)
qed auto

lemma strncmp_zero:
  "is_cstr s \<Longrightarrow> is_cstr t \<Longrightarrow> strncmp s t n = 0 \<longleftrightarrow> take n s = take n t"
  by (induction s t n rule: strncmp.induct) auto

lemma strchr_None: "strchr s c = None \<longleftrightarrow> c \<notin> set s"
  by (induction s) auto

lemma strchr_Some: "strchr s c = Some t \<Longrightarrow> \<exists>p. s = p @ t \<and> c \<notin> set p \<and> t \<noteq> [] \<and> hd t = c"
proof (induction s)
  case (Cons x s)
  show ?case
  proof (cases "x = c")
    case True
    then show ?thesis using Cons.prems by (intro exI [of _ "[]"]) auto
  next
    case False
    then obtain p where "s = p @ t \<and> c \<notin> set p \<and> t \<noteq> [] \<and> hd t = c"
      using Cons by auto
    then show ?thesis using False by (intro exI [of _ "x # p"]) auto
  qed
qed simp

lemma strpbrk_Some:
  "strpbrk s d = Some t \<Longrightarrow> \<exists>p. s = p @ t \<and> set p \<inter> set d = {} \<and> t \<noteq> [] \<and> hd t \<in> set d"
proof (induction s)
  case (Cons x s)
  show ?case
  proof (cases "x \<in> set d")
    case True
    then show ?thesis using Cons.prems by (intro exI [of _ "[]"]) auto
  next
    case False
    then obtain p where "s = p @ t \<and> set p \<inter> set d = {} \<and> t \<noteq> [] \<and> hd t \<in> set d"
      using Cons by auto
    then show ?thesis using False by (intro exI [of _ "x # p"]) auto
  qed
qed simp

lemma strpbrk_None: "strpbrk s d = None \<longleftrightarrow> set s \<inter> set d = {}"
  by (induction s) auto

text \<open>Comparing with a terminated haystack never runs past it: the terminator differs.\<close>

lemma memcmp_terminated:
  "is_cstr n \<Longrightarrow> \<exists>r. memcmp (h @ [NUL]) n (length n) = Inr r \<and> (r = 0 \<longleftrightarrow> take (length n) h = n)"
proof (induction n arbitrary: h)
  case (Cons x n)
  show ?case
  proof (cases h)
    case Nil
    then show ?thesis using Cons.prems by auto
  next
    case (Cons y h')
    then show ?thesis using Cons.prems Cons.IH [of h'] by auto
  qed
qed simp

lemma strstr_from_correct:
  assumes "is_cstr needle" and "needle \<noteq> []"
  shows "\<exists>r. strstr_from h needle = Inr r \<and>
    (case r of
       None \<Rightarrow> (\<forall>i. take (length needle) (drop i h) \<noteq> needle)
     | Some t \<Rightarrow> (\<exists>i. t = drop i h \<and> take (length needle) t = needle \<and>
                   (\<forall>j<i. take (length needle) (drop j h) \<noteq> needle)))"
proof (induction h)
  case Nil
  then show ?case using assms by simp
next
  case (Cons x h)
  let ?here = "take (length needle) (x # h) = needle"
  have here: "strstr_from (x # h) needle =
      (if ?here then Inr (Some (x # h)) else strstr_from h needle)"
  proof (cases "x = hd needle")
    case True
    then show ?thesis using memcmp_terminated [OF assms(1), of "x # h"] by auto
  next
    case False
    then have "\<not> ?here" using assms(2) by (cases needle) auto
    then show ?thesis using False by simp
  qed
  obtain r where r: "strstr_from h needle = Inr r" and
    spec: "case r of
       None \<Rightarrow> (\<forall>i. take (length needle) (drop i h) \<noteq> needle)
     | Some t \<Rightarrow> (\<exists>i. t = drop i h \<and> take (length needle) t = needle \<and>
                   (\<forall>j<i. take (length needle) (drop j h) \<noteq> needle))"
    using Cons.IH by blast
  show ?case
  proof (cases ?here)
    case True
    then show ?thesis using here by (auto intro!: exI [of _ 0])
  next
    case False
    show ?thesis
    proof (cases r)
      case None
      have "take (length needle) (drop i (x # h)) \<noteq> needle" for i
        using False spec None by (cases i) auto
      then show ?thesis using here False r None by auto
    next
      case (Some t)
      then obtain i where i: "t = drop i h" "take (length needle) t = needle"
        "\<forall>j<i. take (length needle) (drop j h) \<noteq> needle"
        using spec by auto
      have "take (length needle) (drop j (x # h)) \<noteq> needle" if "j < Suc i" for j
        using that False i(3) by (cases j) auto
      then have "\<exists>i'. t = drop i' (x # h) \<and> take (length needle) t = needle \<and>
          (\<forall>j<i'. take (length needle) (drop j (x # h)) \<noteq> needle)"
        using i by (intro exI [of _ "Suc i"]) auto
      then show ?thesis using here False r Some by auto
    qed
  qed
qed

section \<open>Writing strings: closed forms\<close>

lemma strcpy_at_eq:
  "d \<le> length dest \<Longrightarrow>
   strcpy_at dest d src =
     (if d + length src < length dest
      then Inr (take d dest @ src @ NUL # drop (d + length src + 1) dest)
      else Inl OutOfBounds)"
proof (induction src arbitrary: dest d)
  case Nil
  then show ?case by (auto simp: write_at_def upd_conv_take_nth_drop)
next
  case (Cons c src)
  show ?case
  proof (cases "d < length dest")
    case True
    then have "take (Suc d) (dest[d := c]) = take d dest @ [c]"
      by (simp add: take_Suc_conv_app_nth)
    then show ?thesis using True Cons.IH [of "Suc d" "dest[d := c]"]
      by (simp add: write_at_def)
  next
    case False
    then show ?thesis by (simp add: write_at_def)
  qed
qed

lemma strcpy_eq:
  "strcpy dest src =
     (if length src < length dest then Inr (src @ NUL # drop (length src + 1) dest)
      else Inl OutOfBounds)"
  by (simp add: strcpy_def strcpy_at_eq)

lemma find_nul_terminated: "is_cstr s \<Longrightarrow> find_nul (s @ NUL # r) = Inr (length s)"
  by (induction s) auto

text \<open>Appending to a terminated string: the result is the concatenation, or a fault.\<close>

lemma strcat_eq:
  assumes "is_cstr s"
  shows "strcat (s @ NUL # r) t =
     (if length t \<le> length r then Inr (s @ t @ NUL # drop (length t) r) else Inl OutOfBounds)"
  using assms by (simp add: strcat_def find_nul_terminated strcpy_at_eq)

section \<open>strncpy\<close>

lemma unat_pred_u64: "n \<noteq> 0 \<Longrightarrow> unat (n - 1 :: u64) = unat n - 1"
  by (metis unat_minus_one)

lemma strncpy_copy_short:
  "length src < unat n \<Longrightarrow> d + length src < length dest \<Longrightarrow>
   strncpy_copy n dest d src =
     Inr (n - of_nat (length src + 1), take d dest @ src @ NUL # drop (d + length src + 1) dest,
          d + length src + 1)"
proof (induction src arbitrary: n dest d)
  case Nil
  then show ?case by (auto simp: write_at_def upd_conv_take_nth_drop)
next
  case (Cons c src)
  then have n: "n \<noteq> 0" by auto
  have "take (Suc d) (dest[d := c]) = take d dest @ [c]"
    using Cons.prems by (simp add: take_Suc_conv_app_nth)
  moreover have "length src < unat (n - 1)"
    using Cons.prems n by (simp add: unat_pred_u64)
  ultimately show ?case
    using Cons.IH [of "n - 1" "Suc d" "dest[d := c]"] Cons.prems n
    by (simp add: write_at_def algebra_simps)
qed

lemma strncpy_copy_long:
  "unat n \<le> length src \<Longrightarrow> d + unat n \<le> length dest \<Longrightarrow>
   \<exists>dest'. strncpy_copy n dest d src = Inr (-1, dest', d + unat n) \<and> length dest' = length dest"
proof (induction src arbitrary: n dest d)
  case Nil
  then have "n = 0" by (simp add: unat_eq_0)
  then show ?case by simp
next
  case (Cons c src)
  show ?case
  proof (cases "n = 0")
    case False
    then have "unat (n - 1) = unat n - 1" "0 < unat n"
      by (simp_all add: unat_pred_u64 unat_gt_0)
    then show ?thesis using Cons.IH [of "n - 1" "Suc d" "dest[d := c]"] Cons.prems False
      by (simp add: write_at_def)
  qed simp
qed

lemma strncpy_pad_eq:
  "d \<le> length dest \<Longrightarrow>
   strncpy_pad n dest d =
     (if unat n \<le> length dest - d
      then Inr (take d dest @ replicate (unat n) NUL @ drop (d + unat n) dest)
      else Inl OutOfBounds)"
proof (induction n dest d rule: strncpy_pad.induct)
  case (1 n dest d)
  show ?case
  proof (cases "n = 0 \<or> d = length dest")
    case True
    then show ?thesis using "1.prems"
      by (subst strncpy_pad.simps) (auto simp: unat_eq_0)
  next
    case False
    then have n: "n \<noteq> 0" and d: "d < length dest" using "1.prems" by auto
    have u: "unat n = Suc (unat (n - 1))"
      using n unat_gt_0 [of n] by (simp add: unat_pred_u64)
    have "strncpy_pad n dest d = strncpy_pad (n - 1) (dest[d := NUL]) (Suc d)"
      using n d by (subst strncpy_pad.simps) simp
    also have "\<dots> = (if unat n \<le> length dest - d
      then Inr (take d dest @ replicate (unat n) NUL @ drop (d + unat n) dest)
      else Inl OutOfBounds)"
    proof -
      have "take (Suc d) (dest[d := NUL]) = take d dest @ [NUL]"
        using d by (simp add: take_Suc_conv_app_nth)
      then show ?thesis using "1.IH" n d u by auto
    qed
    finally show ?thesis .
  qed
qed

lemma strncpy_ok:
  assumes "length src < unat n" and "unat n \<le> length dest"
  shows "strncpy dest src n = Inr (src @ replicate (unat n - length src) NUL @ drop (unat n) dest)"
proof -
  let ?k = "length src + 1"
  obtain m where m: "unat n = length src + Suc m"
    using assms(1) by (metis less_iff_Suc_add add_Suc_right)
  have k: "unat (n - of_nat ?k) = unat n - ?k"
  proof -
    have "?k \<le> unat n" using assms(1) by simp
    then have "unat (of_nat ?k :: u64) = ?k"
      using unat_lt_u64 [of n] by (intro unat_of_nat_u64) linarith
    then show ?thesis using \<open>?k \<le> unat n\<close> by (simp add: unat_sub word_le_nat_alt)
  qed
  have "strncpy dest src n =
      strncpy_pad (n - of_nat ?k) (src @ NUL # drop ?k dest) ?k"
    using strncpy_copy_short [of src n 0 dest] assms by (simp add: strncpy_def)
  also have "\<dots> = Inr (src @ NUL # replicate (unat n - ?k) NUL @ drop (unat n) dest)"
    using strncpy_pad_eq [of ?k "src @ NUL # drop ?k dest" "n - of_nat ?k"] k assms m
    by (auto simp: add.commute)
  also have "src @ NUL # replicate (unat n - ?k) NUL @ drop (unat n) dest =
      src @ replicate (unat n - length src) NUL @ drop (unat n) dest"
    using m by simp
  finally show ?thesis .
qed

text \<open>
  A source of at least \<open>n\<close> characters leaves the first loop with the counter at zero, which
  the test then decrements to \<open>2^64 - 1\<close>: the padding loop runs off any array.
\<close>

lemma strncpy_runaway:
  assumes "unat n \<le> length src" and "unat n \<le> length dest" and "length dest < 2 ^ 64 - 1"
  shows "strncpy dest src n = Inl OutOfBounds"
proof -
  obtain dest' where c: "strncpy_copy n dest 0 src = Inr (-1, dest', unat n)"
    and len: "length dest' = length dest"
    using strncpy_copy_long [of n src 0 dest] assms by auto
  have "unat (-1 :: u64) = 2 ^ 64 - 1" by (simp add: unsigned_minus_1_eq_mask mask_eq_exp_minus_1)
  then show ?thesis
    using strncpy_pad_eq [of "unat n" dest' "-1"] c len assms by (simp add: strncpy_def)
qed

section \<open>Numbers as text: closed forms\<close>

text \<open>The decimal numeral, most significant digit first.\<close>

definition digit_char :: "nat \<Rightarrow> char" where
  "digit_char d = char_of (d + 48)"

lemma digit_char_0: "digit_char 0 = CHR ''0''"
proof -
  have "of_char (char_of (48 :: nat)) = (of_char (CHR ''0'') :: nat)" by simp
  then show ?thesis unfolding digit_char_def by (simp only: of_char_eq_iff add_0)
qed

fun dec_nat :: "nat \<Rightarrow> string" where
  "dec_nat n = (if n < 10 then [digit_char n] else dec_nat (n div 10) @ [digit_char (n mod 10)])"

declare dec_nat.simps [simp del]

definition dec_int :: "int \<Rightarrow> string" where
  "dec_int n = (if n < 0 then ''-'' @ dec_nat (nat (- n)) else dec_nat (nat n))"

text \<open>The digits the loop produces: least significant first, none for zero.\<close>

fun rev_digits :: "nat \<Rightarrow> string" where
  "rev_digits n = (if n = 0 then [] else digit_char (n mod 10) # rev_digits (n div 10))"

declare rev_digits.simps [simp del]

lemma rev_digits_dec_nat: "n \<noteq> 0 \<Longrightarrow> rev (rev_digits n) = dec_nat n"
proof (induction n rule: rev_digits.induct)
  case (1 n)
  show ?case
  proof (cases "n < 10")
    case True
    then show ?thesis using "1.prems"
      by (simp add: rev_digits.simps [of n] rev_digits.simps [of 0] dec_nat.simps [of n])
  next
    case False
    then show ?thesis using "1.IH" "1.prems"
      by (simp add: rev_digits.simps [of n] dec_nat.simps [of n])
  qed
qed

lemma int_digits_eq:
  "i \<le> length a \<Longrightarrow>
   int_digits n i a =
     (if i + length (rev_digits n) \<le> length a
      then Inr (i + length (rev_digits n),
                take i a @ rev_digits n @ drop (i + length (rev_digits n)) a)
      else Inl OutOfBounds)"
proof (induction n i a rule: int_digits.induct)
  case (1 n i a)
  show ?case
  proof (cases "n = 0")
    case True
    then show ?thesis using "1.prems"
      by (simp add: int_digits.simps [of 0] rev_digits.simps [of 0])
  next
    case False
    note u = int_digits.simps [of n i a] rev_digits.simps [of n]
    show ?thesis
    proof (cases "i < length a")
      case True
      have "take (Suc i) (a[i := digit_char (n mod 10)]) = take i a @ [digit_char (n mod 10)]"
        using True by (simp add: take_Suc_conv_app_nth)
      then show ?thesis
        using "1.IH" [OF False, of "a[i := digit_char (n mod 10)]"] False True
        by (simp add: u write_at_def digit_char_def)
    next
      case False2: False
      then show ?thesis using False by (simp add: u write_at_def)
    qed
  qed
qed

lemma length_swap_ends [simp]: "length (swap_ends a start e) = length a"
proof (induction a start e rule: swap_ends.induct)
  case (1 a start e)
  then show ?case by (cases "start < e") (simp_all add: swap_ends.simps [of a start e])
qed

lemma nth_swap_ends:
  "e < length a \<Longrightarrow> i < length a \<Longrightarrow>
   swap_ends a start e ! i = (if start \<le> i \<and> i \<le> e then a ! (start + e - i) else a ! i)"
proof (induction a start e rule: swap_ends.induct)
  case (1 a start e)
  show ?case
  proof (cases "start < e")
    case True
    let ?b = "a[start := a ! e, e := a ! start]"
    have IH: "swap_ends ?b (Suc start) (e - 1) ! i =
        (if Suc start \<le> i \<and> i \<le> e - 1 then ?b ! (Suc start + (e - 1) - i) else ?b ! i)"
      using "1.IH" True "1.prems" by simp
    have "swap_ends a start e = swap_ends ?b (Suc start) (e - 1)"
      using True by (simp add: swap_ends.simps [of a start e])
    moreover have "Suc start + (e - 1) - i = start + e - i" using True by simp
    ultimately show ?thesis using IH True "1.prems"
      by (auto simp: nth_list_update)
  next
    case False
    have "start + e - i = i" if "start \<le> i" "i \<le> e" using that False by simp
    then show ?thesis using False by (simp add: swap_ends.simps [of a start e])
  qed
qed

lemma swap_ends_rev:
  assumes "t \<noteq> []"
  shows "swap_ends (t @ r) 0 (length t - 1) = rev t @ r"
proof (rule nth_equalityI)
  fix i assume i: "i < length (swap_ends (t @ r) 0 (length t - 1))"
  have t: "0 < length t" using assms by simp
  have "i \<le> length t - 1 \<longleftrightarrow> i < length t" using t by linarith
  then have "swap_ends (t @ r) 0 (length t - 1) ! i =
      (if i < length t then (t @ r) ! (length t - 1 - i) else (t @ r) ! i)"
    using t i nth_swap_ends [of "length t - 1" "t @ r" i 0] by simp
  also have "\<dots> = (rev t @ r) ! i"
    using t by (auto simp: nth_append rev_nth)
  finally show "swap_ends (t @ r) 0 (length t - 1) ! i = (rev t @ r) ! i" .
qed simp

lemma rev_digits_not_nil: "n \<noteq> 0 \<Longrightarrow> rev_digits n \<noteq> []"
  by (simp add: rev_digits.simps [of n])

lemma length_dec_nat: "n \<noteq> 0 \<Longrightarrow> length (dec_nat n) = length (rev_digits n)"
  using rev_digits_dec_nat [of n] by (metis length_rev)

text \<open>
  What \<open>int_to_str\<close> leaves in the array: the numeral and its terminator, or a fault when the
  array is too short for them.
\<close>

lemma int_to_str_eq:
  assumes "num \<noteq> INT_MIN"
  shows "int_to_str num a =
     (if length (dec_int num) < length a
      then Inr (dec_int num @ NUL # drop (length (dec_int num) + 1) a)
      else Inl OutOfBounds)"
proof (cases "num = 0")
  case True
  have d: "dec_int 0 = [CHR ''0'']"
    by (simp add: dec_int_def dec_nat.simps [of 0] digit_char_0)
  show ?thesis
  proof (cases "length a < 2")
    case True
    then have "a = [] \<or> length a = 1" by (cases a) auto
    then show ?thesis using \<open>num = 0\<close> d
      by (auto simp: int_to_str_def write_at_def int_digits.simps [of 0])
  next
    case False
    then obtain x y r where "a = x # y # r"
      by (cases a; cases "tl a") auto
    then show ?thesis using True d
      by (simp add: int_to_str_def write_at_def int_digits.simps [of 0] swap_ends.simps)
  qed
next
  case False
  define n where "n = nat \<bar>num\<bar>"
  define ds where "ds = rev_digits n"
  define sg where "sg = (if num < 0 then ''-'' else [])"
  have n0: "n \<noteq> 0" using False by (simp add: n_def)
  have n_abs: "num < 0 \<Longrightarrow> nat (- num) = n" "\<not> num < 0 \<Longrightarrow> nat num = n"
    by (simp_all add: n_def)
  have dec: "dec_int num = rev (ds @ sg)"
    using False rev_digits_dec_nat [OF n0] by (auto simp: dec_int_def ds_def sg_def n_def)
  have ds0: "ds \<noteq> []" using rev_digits_not_nil [OF n0] by (simp add: ds_def)
  show ?thesis
  proof (cases "length (dec_int num) < length a")
    case True
    then have len: "length ds + length sg < length a" by (simp add: dec)
    have "int_to_str num a =
        sbind (write_at ((ds @ sg) @ drop (length ds + length sg) a) (length ds + length sg) NUL)
          (\<lambda>a3. Inr (swap_ends a3 0 (length ds + length sg - 1)))"
    proof (cases "num < 0")
      case neg: True
      have "drop (length ds) a = a ! length ds # drop (Suc (length ds)) a"
        using len by (simp add: Cons_nth_drop_Suc)
      then have "(ds @ drop (length ds) a)[length ds := CHR ''-''] =
          ds @ CHR ''-'' # drop (Suc (length ds)) a"
        by simp
      then show ?thesis
        using False assms len neg int_digits_eq [of 0 a n]
        by (simp add: int_to_str_def n_def [symmetric] n_abs ds_def [symmetric] sg_def write_at_def)
    next
      case pos: False
      then show ?thesis
        using False assms len int_digits_eq [of 0 a n]
        by (simp add: int_to_str_def n_def [symmetric] n_abs ds_def [symmetric] sg_def)
    qed
    also have "\<dots> = Inr (swap_ends ((ds @ sg) @ NUL # drop (length ds + length sg + 1) a) 0
        (length (ds @ sg) - 1))"
    proof -
      have "drop (length ds + length sg) a =
          a ! (length ds + length sg) # drop (length ds + length sg + 1) a"
        using len by (simp add: Cons_nth_drop_Suc)
      then show ?thesis using len by (simp add: write_at_def list_update_append)
    qed
    also have "\<dots> = Inr (rev (ds @ sg) @ NUL # drop (length ds + length sg + 1) a)"
      using ds0 by (subst swap_ends_rev) simp_all
    finally show ?thesis using True by (simp add: dec add.commute)
  next
    case False2: False
    then have len: "length a \<le> length ds + length sg" by (simp add: dec)
    show ?thesis
    proof (cases "length ds \<le> length a")
      case True
      then show ?thesis
        using False False2 assms len int_digits_eq [of 0 a n]
        by (auto simp: int_to_str_def n_def [symmetric] n_abs ds_def [symmetric] sg_def write_at_def
            split: if_splits)
    next
      case False3: False
      then show ?thesis
        using False False2 assms int_digits_eq [of 0 a n]
        by (simp add: int_to_str_def n_def [symmetric] n_abs ds_def [symmetric])
    qed
  qed
qed

text \<open>Consequences: the string read back, and the exact capacity that is needed.\<close>

lemma is_cstr_digits: "is_cstr (dec_nat n)"
proof (induction n rule: dec_nat.induct)
  case (1 n)
  have nz: "digit_char d \<noteq> NUL" if "d < 10" for d
  proof -
    have "uchar (digit_char d) = int (d + 48)"
      using that by (simp add: digit_char_def uchar_char_of)
    then show ?thesis by (auto simp flip: uchar_zero)
  qed
  show ?case
    using 1 nz [of n] nz [of "n mod 10"] by (cases "n < 10") (simp_all add: dec_nat.simps [of n])
qed

lemma is_cstr_dec_int [simp]: "is_cstr (dec_int n)"
  by (simp add: dec_int_def is_cstr_digits)

lemma int_to_str_cstr:
  "num \<noteq> INT_MIN \<Longrightarrow> int_to_str num a = Inr b \<Longrightarrow> cstr b = dec_int num"
  by (auto simp: int_to_str_eq split: if_splits)

lemma length_dec_nat_le: "n < 10 ^ k \<Longrightarrow> 0 < k \<Longrightarrow> length (dec_nat n) \<le> k"
proof (induction k arbitrary: n)
  case (Suc k)
  show ?case
  proof (cases "n < 10")
    case True
    then show ?thesis by (simp add: dec_nat.simps [of n])
  next
    case False
    then have "0 < k" using Suc.prems by (cases k) auto
    moreover have "n div 10 < 10 ^ k" using Suc.prems by (simp add: less_mult_imp_div_less)
    ultimately have "length (dec_nat (n div 10)) \<le> k" using Suc.IH by simp
    then show ?thesis using False by (simp add: dec_nat.simps [of n])
  qed
qed simp

lemma length_dec_nat_ge: "10 ^ k \<le> n \<Longrightarrow> k < length (dec_nat n)"
proof (induction k arbitrary: n)
  case 0
  then show ?case by (simp add: dec_nat.simps [of n])
next
  case (Suc k)
  have "10 * 1 \<le> (10::nat) * 10 ^ k"
    by (intro mult_le_mono2 one_le_power) simp
  also have "\<dots> \<le> n" using Suc.prems by simp
  finally have "10 \<le> n" by simp
  moreover have "10 ^ k \<le> n div 10"
    using Suc.prems by (simp add: less_eq_div_iff_mult_less_eq)
  ultimately show ?case using Suc.IH [of "n div 10"] by (simp add: dec_nat.simps [of n])
qed

text \<open>Reading a numeral back.\<close>

lemma atoi_loop_append:
  assumes "\<forall>c \<in> set s. schar c \<ge> 48 \<and> schar c \<le> 57"
  shows "atoi_loop r (s @ t) = sbind (atoi_loop r s) (\<lambda>r'. atoi_loop r' t)"
  using assms by (induction s arbitrary: r) (auto simp: Let_def)

lemma dec_nat_digits: "\<forall>c \<in> set (dec_nat n). schar c \<ge> 48 \<and> schar c \<le> 57"
proof (induction n rule: dec_nat.induct)
  case (1 n)
  have "schar (digit_char d) = int d + 48" if "d < 10" for d
    using char_of_nat_digit [OF that] by (simp add: digit_char_def)
  then show ?case using 1 by (cases "n < 10") (auto simp: dec_nat.simps [of n])
qed

lemma atoi_dec_nat: "int n \<le> INT_MAX \<Longrightarrow> atoi (dec_nat n) = Inr (int n)"
proof (induction n rule: dec_nat.induct)
  case (1 n)
  have d: "schar (digit_char d) = int d + 48" if "d < 10" for d
    using char_of_nat_digit [OF that] by (simp add: digit_char_def)
  show ?case
  proof (cases "n < 10")
    case True
    then show ?thesis using "1.prems" d [of n] by (simp add: atoi_def dec_nat.simps [of n])
  next
    case False
    then have "atoi (dec_nat (n div 10)) = Inr (int (n div 10))"
      using 1 by (simp add: zdiv_int)
    moreover have "int (n div 10) * 10 + int (n mod 10) = int n"
      by presburger
    ultimately show ?thesis
      using False "1.prems" d [of "n mod 10"]
      by (simp add: atoi_def dec_nat.simps [of n] atoi_loop_append dec_nat_digits del: of_nat_mod of_nat_div)
  qed
qed

lemma bcd_to_bin_eq: "bcd_to_bin b = b mod 16 + b div 16 * 10"
proof -
  have "b AND 15 = take_bit 4 b" by (simp add: take_bit_eq_mask mask_eq_exp_minus_1)
  then show ?thesis by (simp add: bcd_to_bin_def drop_bit_eq_div take_bit_eq_mod)
qed

section \<open>File names: what is accepted\<close>

lemma all_chars_valid_iff: "all_chars_valid s \<longleftrightarrow> set s \<inter> set invalid_chars = {}"
  by (induction s) (auto simp: strchr_None)

lemma is_valid_filename_iff:
  "is_valid_filename name \<longleftrightarrow> name \<noteq> [] \<and> set name \<inter> set invalid_chars = {}"
  by (simp add: is_valid_filename_def all_chars_valid_iff)

end
