(* ===== verification/Config.thy ===== *)
theory Config imports CString begin

text \<open>
  The constants of src/lib/pring.h: screen geometry, colours, table sizes, key scan codes, file
  types, status codes and signal numbers. They are abbreviations, so proofs see the numerals.
\<close>

abbreviation SCREEN_WIDTH :: nat where "SCREEN_WIDTH \<equiv> 80"
abbreviation SCREEN_HEIGHT :: nat where "SCREEN_HEIGHT \<equiv> 25"

abbreviation COLOR_BLACK :: u8 where "COLOR_BLACK \<equiv> 0x0"
abbreviation COLOR_BLUE :: u8 where "COLOR_BLUE \<equiv> 0x1"
abbreviation COLOR_GREEN :: u8 where "COLOR_GREEN \<equiv> 0x2"
abbreviation COLOR_CYAN :: u8 where "COLOR_CYAN \<equiv> 0x3"
abbreviation COLOR_RED :: u8 where "COLOR_RED \<equiv> 0x4"
abbreviation COLOR_MAGENTA :: u8 where "COLOR_MAGENTA \<equiv> 0x5"
abbreviation COLOR_BROWN :: u8 where "COLOR_BROWN \<equiv> 0x6"
abbreviation COLOR_GRAY :: u8 where "COLOR_GRAY \<equiv> 0x7"
abbreviation COLOR_DARK_GRAY :: u8 where "COLOR_DARK_GRAY \<equiv> 0x8"
abbreviation COLOR_BRIGHT_BLUE :: u8 where "COLOR_BRIGHT_BLUE \<equiv> 0x9"
abbreviation COLOR_BRIGHT_GREEN :: u8 where "COLOR_BRIGHT_GREEN \<equiv> 0xA"
abbreviation COLOR_BRIGHT_CYAN :: u8 where "COLOR_BRIGHT_CYAN \<equiv> 0xB"
abbreviation COLOR_BRIGHT_RED :: u8 where "COLOR_BRIGHT_RED \<equiv> 0xC"
abbreviation COLOR_BRIGHT_MAGENTA :: u8 where "COLOR_BRIGHT_MAGENTA \<equiv> 0xD"
abbreviation COLOR_YELLOW :: u8 where "COLOR_YELLOW \<equiv> 0xE"
abbreviation COLOR_WHITE :: u8 where "COLOR_WHITE \<equiv> 0xF"

abbreviation MAX_CMD_LEN :: nat where "MAX_CMD_LEN \<equiv> 256"
abbreviation MAX_FILES :: nat where "MAX_FILES \<equiv> 128"
abbreviation MAX_PROCESSES :: nat where "MAX_PROCESSES \<equiv> 16"
abbreviation MAX_PATH_LEN :: nat where "MAX_PATH_LEN \<equiv> 256"
abbreviation TOTAL_MEMORY_KB :: u32 where "TOTAL_MEMORY_KB \<equiv> 640"
abbreviation MAX_BLOCKS :: nat where "MAX_BLOCKS \<equiv> 1024"
abbreviation MAX_INODES :: nat where "MAX_INODES \<equiv> 128"
abbreviation BLOCK_SIZE :: nat where "BLOCK_SIZE \<equiv> 1024"
abbreviation INODE_DIRECT_BLOCKS :: nat where "INODE_DIRECT_BLOCKS \<equiv> 12"
abbreviation MAX_TTYS :: nat where "MAX_TTYS \<equiv> 9"
abbreviation HISTORY_SIZE :: nat where "HISTORY_SIZE \<equiv> 100"
abbreviation MAX_FILE_SIZE :: nat where "MAX_FILE_SIZE \<equiv> 4096"

abbreviation PIT_FREQUENCY :: nat where "PIT_FREQUENCY \<equiv> 1193182"
abbreviation PIT_CHANNEL0 :: u16 where "PIT_CHANNEL0 \<equiv> 0x40"
abbreviation PIT_COMMAND :: u16 where "PIT_COMMAND \<equiv> 0x43"
abbreviation CMOS_ADDRESS :: u16 where "CMOS_ADDRESS \<equiv> 0x70"
abbreviation CMOS_DATA :: u16 where "CMOS_DATA \<equiv> 0x71"

abbreviation KEY_ENTER :: u8 where "KEY_ENTER \<equiv> 0x1C"
abbreviation KEY_BACKSPACE :: u8 where "KEY_BACKSPACE \<equiv> 0x0E"
abbreviation KEY_ESC :: u8 where "KEY_ESC \<equiv> 0x01"
abbreviation KEY_UP :: u8 where "KEY_UP \<equiv> 0x48"
abbreviation KEY_DOWN :: u8 where "KEY_DOWN \<equiv> 0x50"
abbreviation KEY_LEFT :: u8 where "KEY_LEFT \<equiv> 0x4B"
abbreviation KEY_RIGHT :: u8 where "KEY_RIGHT \<equiv> 0x4D"
abbreviation KEY_LSHIFT :: u8 where "KEY_LSHIFT \<equiv> 0x2A"
abbreviation KEY_RSHIFT :: u8 where "KEY_RSHIFT \<equiv> 0x36"
abbreviation KEY_CTRL :: u8 where "KEY_CTRL \<equiv> 0x1D"
abbreviation KEY_ALT :: u8 where "KEY_ALT \<equiv> 0x38"
abbreviation KEY_CAPSLOCK :: u8 where "KEY_CAPSLOCK \<equiv> 0x3A"
abbreviation KEY_SPACE :: u8 where "KEY_SPACE \<equiv> 0x39"
abbreviation KEY_F1 :: u8 where "KEY_F1 \<equiv> 0x3B"
abbreviation KEY_F10 :: u8 where "KEY_F10 \<equiv> 0x44"

abbreviation FILE_REGULAR :: u8 where "FILE_REGULAR \<equiv> 0"
abbreviation FILE_DIR :: u8 where "FILE_DIR \<equiv> 1"
abbreviation FILE_SYMLINK :: u8 where "FILE_SYMLINK \<equiv> 2"
abbreviation FS_SUCCESS :: int where "FS_SUCCESS \<equiv> 0"
abbreviation FS_ERROR :: int where "FS_ERROR \<equiv> 1"

abbreviation SIGINT :: u32 where "SIGINT \<equiv> 2"
abbreviation SIGKILL :: u32 where "SIGKILL \<equiv> 9"
abbreviation SIGSTOP :: u32 where "SIGSTOP \<equiv> 19"
abbreviation SIGCONT :: u32 where "SIGCONT \<equiv> 18"

end
