(* ===== verification/Pool.thy ===== *)
theory Pool imports Prelude begin

text \<open>
  The interface of a fixed pool of slots with a counter of the free ones, as bkFS keeps one for
  inodes and one for data blocks: allocation takes the lowest free slot, release gives one back.
  The laws are what the two providers promise; \<open>counted\<close>, the agreement of the counter with the
  slots, and its consequences are proved here once for both.
\<close>

definition counted :: "nat \<Rightarrow> ('s \<Rightarrow> nat \<Rightarrow> bool) \<Rightarrow> ('s \<Rightarrow> u32) \<Rightarrow> 's \<Rightarrow> bool" where
  "counted cap used avail s \<longleftrightarrow> unat (avail s) = card {i. i < cap \<and> \<not> used s i}"

locale pool =
  fixes cap :: nat
    and shape :: "'s \<Rightarrow> bool"
    and used :: "'s \<Rightarrow> nat \<Rightarrow> bool"
    and avail :: "'s \<Rightarrow> u32"
    and alloc :: "'s \<Rightarrow> int \<times> 's"
    and base :: int
    and release :: "nat \<Rightarrow> 's \<Rightarrow> 's"
  assumes cap_bound: "cap < 4294967295"
    and base_nonneg: "0 \<le> base"
    and alloc_fails: "shape s \<Longrightarrow> avail s = 0 \<or> (\<forall>i<cap. used s i) \<Longrightarrow> alloc s = (-1, s)"
    and alloc_takes: "shape s \<Longrightarrow> avail s \<noteq> 0 \<Longrightarrow> i < cap \<Longrightarrow> \<not> used s i \<Longrightarrow>
      \<forall>j<i. used s j \<Longrightarrow> \<exists>s'. alloc s = (base + int i, s') \<and> shape s' \<and>
        (\<forall>j<cap. used s' j \<longleftrightarrow> j = i \<or> used s j) \<and> avail s' = avail s - 1"
    and release_gives: "shape s \<Longrightarrow> i < cap \<Longrightarrow> shape (release i s) \<and>
        (\<forall>j<cap. used (release i s) j \<longleftrightarrow> j \<noteq> i \<and> used s j) \<and> avail (release i s) = avail s + 1"
begin

lemma alloc_cases:
  assumes "shape s"
  obtains (full) "alloc s = (-1, s)" "avail s = 0 \<or> (\<forall>i<cap. used s i)"
  | (took) i s' where "alloc s = (base + int i, s')" "i < cap" "\<not> used s i" "\<forall>j<i. used s j"
      "shape s'" "\<forall>j<cap. used s' j \<longleftrightarrow> j = i \<or> used s j" "avail s' = avail s - 1" "avail s \<noteq> 0"
proof (cases "avail s = 0 \<or> (\<forall>i<cap. used s i)")
  case True
  then show ?thesis using alloc_fails [OF assms] full by blast
next
  case False
  then obtain i0 where i0: "i0 < cap" "\<not> used s i0" and a: "avail s \<noteq> 0" by blast
  define i where "i = (LEAST i. \<not> used s i)"
  have i: "\<not> used s i" "i \<le> i0" 
    using LeastI [of "\<lambda>i. \<not> used s i", OF i0(2)] Least_le [of "\<lambda>i. \<not> used s i", OF i0(2)]
    by (simp_all add: i_def)
  have less: "\<forall>j<i. used s j" using not_less_Least by (auto simp: i_def)
  have "i < cap" using i(2) i0(1) by simp
  then show ?thesis using alloc_takes [OF assms a _ i(1) less] took i(1) less a by blast
qed

lemma alloc_counted:
  assumes "shape s" and "counted cap used avail s" and "alloc s = (n, s')"
  shows "counted cap used avail s'"
  using assms(1)
proof (cases rule: alloc_cases)
  case full
  then show ?thesis using assms by simp
next
  case (took i s2)
  have "{j. j < cap \<and> \<not> used s2 j} = {j. j < cap \<and> j \<noteq> i \<and> \<not> used s j}"
    using took by auto
  moreover have "Suc (card {j. j < cap \<and> j \<noteq> i \<and> \<not> used s j}) = card {j. j < cap \<and> \<not> used s j}"
    using took by (intro card_filter_upt_remove) auto
  ultimately show ?thesis
    using assms took by (simp add: counted_def unat_minus_one_u32)
qed

lemma release_counted:
  assumes "shape s" and "counted cap used avail s" and "i < cap" and "used s i"
  shows "counted cap used avail (release i s)"
proof -
  note r = release_gives [OF assms(1,3)]
  have "{j. j < cap \<and> \<not> used (release i s) j} = {j. j < cap \<and> (j = i \<or> \<not> used s j)}"
    using r assms(3) by auto
  moreover have "card {j. j < cap \<and> (j = i \<or> \<not> used s j)} = Suc (card {j. j < cap \<and> \<not> used s j})"
    using assms by (intro card_filter_upt_update) auto
  moreover have "unat (avail s) < 4294967295"
    using assms(2) card_filter_upt_le [of cap "\<lambda>j. \<not> used s j"] cap_bound
    by (simp add: counted_def)
  ultimately show ?thesis
    using r assms(2) by (simp add: counted_def unat_plus_one_u32)
qed

text \<open>With an exact counter, allocation fails only when every slot is taken.\<close>

lemma alloc_full_iff:
  assumes "shape s" and "counted cap used avail s"
  shows "fst (alloc s) = -1 \<longleftrightarrow> (\<forall>i<cap. used s i)"
  using assms(1)
proof (cases rule: alloc_cases)
  case full
  have "\<forall>i<cap. used s i" if "avail s = 0"
  proof -
    have "card {i. i < cap \<and> \<not> used s i} = 0"
      using assms(2) that by (simp add: counted_def)
    then show ?thesis by simp
  qed
  then show ?thesis using full by auto
next
  case (took i s')
  then show ?thesis using base_nonneg by auto
qed

text \<open>Releasing a slot twice makes the counter exceed the free slots: the pool trusts its callers.\<close>

lemma double_release_overcounts:
  assumes "shape s" and "counted cap used avail s" and "i < cap" and "\<not> used s i"
  shows "unat (avail (release i s)) = Suc (card {j. j < cap \<and> \<not> used (release i s) j})"
proof -
  note r = release_gives [OF assms(1,3)]
  have "{j. j < cap \<and> \<not> used (release i s) j} = {j. j < cap \<and> \<not> used s j}"
    using r assms(4) by auto
  moreover have "unat (avail s) < 4294967295"
    using assms(2) card_filter_upt_le [of cap "\<lambda>j. \<not> used s j"] cap_bound
    by (simp add: counted_def)
  ultimately show ?thesis using r assms(2) by (simp add: counted_def unat_plus_one_u32)
qed

end

end
