(* ===== verification/Bkfs.thy ===== *)
theory Bkfs imports Config Pool begin

text \<open>
  The in-memory file system bkFS (src/fs/bkfs.h) over its tables of src/lib/prdio.h: the flat
  table of directory entries, the inode table, the data blocks and their bitmap. The operations
  here touch these tables only; those that also print (\<open>fs_create_file\<close>, \<open>fs_delete_file\<close>) are
  composed from these parts on the whole machine, in the theory of the file commands.
\<close>

section \<open>State\<close>

record inode =
  i_mode :: u32
  i_uid :: u32
  i_gid :: u32
  i_size :: u32
  i_atime :: u32
  i_ctime :: u32
  i_mtime :: u32
  i_dtime :: u32
  i_blocks :: u32
  i_block :: "u32 list"

record file_entry =
  f_inode :: u32
  f_name :: carray
  f_parent_inode :: u32
  f_type :: u8
  f_size :: u32

text \<open>
  \<open>file_count\<close> is an \<open>int\<close> that counts up to \<open>MAX_FILES\<close>; \<open>blocks\<close> is indexed by block number,
  each block an array of \<open>BLOCK_SIZE\<close> bytes.
\<close>

record bkfs =
  files :: "file_entry list"
  file_count :: nat
  current_inode :: u32
  inodes :: "inode list"
  blocks :: "nat \<Rightarrow> char list"
  block_used :: "bool list"
  free_blocks :: u32
  free_inodes :: u32

definition zero_inode :: inode where
  "zero_inode = \<lparr>i_mode = 0, i_uid = 0, i_gid = 0, i_size = 0, i_atime = 0, i_ctime = 0,
     i_mtime = 0, i_dtime = 0, i_blocks = 0, i_block = replicate INODE_DIRECT_BLOCKS 0\<rparr>"

definition zero_file :: file_entry where
  "zero_file = \<lparr>f_inode = 0, f_name = replicate 32 NUL, f_parent_inode = 0, f_type = 0, f_size = 0\<rparr>"

text \<open>The tables as the program starts: static storage is zero, \<open>file_count\<close> is initialised to 5.\<close>

definition static_bkfs :: bkfs where
  "static_bkfs = \<lparr>files = replicate MAX_FILES zero_file, file_count = 5, current_inode = 1,
     inodes = replicate MAX_INODES zero_inode, blocks = (\<lambda>_. replicate BLOCK_SIZE NUL),
     block_used = replicate MAX_BLOCKS False, free_blocks = of_nat MAX_BLOCKS,
     free_inodes = of_nat MAX_INODES\<rparr>"

text \<open>\<open>&inodes[inode_num - 1]\<close>, after the callers' range check on the number.\<close>

definition ino_ix :: "u32 \<Rightarrow> nat" where
  "ino_ix n = unat n - 1"

definition valid_ino :: "u32 \<Rightarrow> bool" where
  "valid_ino n \<longleftrightarrow> \<not> (n = 0 \<or> n > of_nat MAX_INODES)"

definition get_inode :: "u32 \<Rightarrow> bkfs \<Rightarrow> inode" where
  "get_inode n s = inodes s ! ino_ix n"

definition upd_inode :: "u32 \<Rightarrow> (inode \<Rightarrow> inode) \<Rightarrow> bkfs \<Rightarrow> bkfs" where
  "upd_inode n f s = s\<lparr>inodes := (inodes s)[ino_ix n := f (get_inode n s)]\<rparr>"

section \<open>Allocation\<close>

definition fs_alloc_inode :: "bkfs \<Rightarrow> int \<times> bkfs" where
  "fs_alloc_inode s =
     (if free_inodes s = 0 then (-1, s)
      else case first_index (\<lambda>i. i_mode (inodes s ! i) = 0) MAX_INODES of
             Some i \<Rightarrow> (int i + 1,
               s\<lparr>inodes := (inodes s)[i := zero_inode\<lparr>i_mode := 1\<rparr>],
                 free_inodes := free_inodes s - 1\<rparr>)
           | None \<Rightarrow> (-1, s))"

definition fs_free_inode :: "u32 \<Rightarrow> bkfs \<Rightarrow> bkfs" where
  "fs_free_inode inode_num s =
     (if \<not> valid_ino inode_num then s
      else s\<lparr>inodes := (inodes s)[ino_ix inode_num := zero_inode],
             free_inodes := free_inodes s + 1\<rparr>)"

definition fs_alloc_block :: "bkfs \<Rightarrow> int \<times> bkfs" where
  "fs_alloc_block s =
     (if free_blocks s = 0 then (-1, s)
      else case first_index (\<lambda>i. \<not> block_used s ! i) MAX_BLOCKS of
             Some i \<Rightarrow> (int i,
               s\<lparr>block_used := (block_used s)[i := True], free_blocks := free_blocks s - 1\<rparr>)
           | None \<Rightarrow> (-1, s))"

definition fs_free_block :: "u32 \<Rightarrow> bkfs \<Rightarrow> bkfs" where
  "fs_free_block block_num s =
     (if block_num \<ge> of_nat MAX_BLOCKS then s
      else s\<lparr>block_used := (block_used s)[unat block_num := False],
             free_blocks := free_blocks s + 1\<rparr>)"

section \<open>Directory entries\<close>

text \<open>The entries in use, and the name of an entry as a string.\<close>

definition entries :: "bkfs \<Rightarrow> file_entry list" where
  "entries s = take (file_count s) (files s)"

definition entry_name :: "file_entry \<Rightarrow> string" where
  "entry_name f = cstr (f_name f)"

text \<open>The loop \<open>for (i = 0; i < file_count; i++) if (p(files[i]))\<close> that leaves at the first hit.\<close>

definition find_entry :: "(file_entry \<Rightarrow> bool) \<Rightarrow> bkfs \<Rightarrow> nat option" where
  "find_entry p s = first_index (\<lambda>i. p (files s ! i)) (file_count s)"

definition file_exists_in_current_dir :: "string \<Rightarrow> bkfs \<Rightarrow> bool" where
  "file_exists_in_current_dir name s =
     (case find_entry (\<lambda>f. f_parent_inode f = current_inode s \<and> strcmp (entry_name f) name = 0) s of
        Some i \<Rightarrow> True | None \<Rightarrow> False)"

text \<open>
  The part of \<open>fs_create_file\<close> after the name checks: the first argument is \<open>timer_ticks\<close>.
\<close>

definition create_entry :: "u32 \<Rightarrow> string \<Rightarrow> u32 \<Rightarrow> u8 \<Rightarrow> bkfs \<Rightarrow> fault + (int \<times> bkfs)" where
  "create_entry ticks name parent_inode type s =
     (if file_count s \<ge> MAX_FILES then Inr (FS_ERROR, s)
      else
        (let (inode_num, s1) = fs_alloc_inode s
         in if inode_num = -1 then Inr (FS_ERROR, s1)
            else
              (let fc = file_count s1; e = files s1 ! fc in
               sbind (strncpy (f_name e) name 31) (\<lambda>nm.
                 let n = word_of_int inode_num;
                     s2 = s1\<lparr>files := (files s1)[fc := e\<lparr>f_name := nm, f_inode := n,
                            f_parent_inode := parent_inode, f_type := type, f_size := 0\<rparr>]\<rparr>;
                     s3 = upd_inode n (\<lambda>ino. ino\<lparr>
                            i_mode := (if type = FILE_DIR then 0x4000 else 0x8000),
                            i_uid := 0, i_gid := 0, i_size := 0, i_atime := ticks,
                            i_ctime := ticks, i_mtime := ticks, i_blocks := 0\<rparr>) s2
                 in Inr (FS_SUCCESS, s3\<lparr>file_count := file_count s3 + 1\<rparr>)))))"

text \<open>
  The parts of \<open>fs_delete_file\<close>: the blocks go back to the pool, then the entry is shifted out.
\<close>

definition free_inode_blocks :: "u32 \<Rightarrow> bkfs \<Rightarrow> bkfs" where
  "free_inode_blocks inode_num s =
     (let ino = get_inode inode_num s
      in fold (\<lambda>i s. if i_block ino ! i \<noteq> 0 then fs_free_block (i_block ino ! i) s else s)
           [0..<min (unat (i_blocks ino)) INODE_DIRECT_BLOCKS] s)"

definition remove_entry :: "u32 \<Rightarrow> bkfs \<Rightarrow> bkfs" where
  "remove_entry inode_num s =
     (case find_entry (\<lambda>f. f_inode f = inode_num) s of
        None \<Rightarrow> s
      | Some i \<Rightarrow>
          s\<lparr>files := fold (\<lambda>j fs. fs[j := fs ! (j + 1)]) [i..<file_count s - 1] (files s),
            file_count := file_count s - 1\<rparr>)"

section \<open>Reading and writing\<close>

text \<open>
  The loop of \<open>fs_write_file\<close> that returns the old blocks. Unlike the one of \<open>fs_delete_file\<close> it
  is not bounded by \<open>INODE_DIRECT_BLOCKS\<close>, so it reads \<open>block[i]\<close> under a check.
\<close>

definition release_old_blocks :: "u32 \<Rightarrow> bkfs \<Rightarrow> fault + bkfs" where
  "release_old_blocks inode_num s =
     (let ino = get_inode inode_num s
      in sfold (\<lambda>i s. sbind (read_at (i_block ino) i)
                        (\<lambda>b. Inr (if b \<noteq> 0 then fs_free_block b s else s)))
           [0..<unat (i_blocks ino)] s)"

text \<open>
  The allocation loop: on failure the blocks obtained so far are freed, and nothing else is
  undone. The second argument lists the indices still to fill.
\<close>

fun alloc_blocks :: "u32 \<Rightarrow> nat list \<Rightarrow> bkfs \<Rightarrow> bool \<times> bkfs" where
  "alloc_blocks inode_num [] s = (True, s)"
| "alloc_blocks inode_num (i # is) s =
     (let (block_num, s1) = fs_alloc_block s
      in if block_num = -1
         then (False, fold (\<lambda>j s. fs_free_block (i_block (get_inode inode_num s) ! j) s) [0..<i] s1)
         else alloc_blocks inode_num is
                (upd_inode inode_num
                   (\<lambda>ino. ino\<lparr>i_block := (i_block ino)[i := word_of_int block_num]\<rparr>) s1))"

text \<open>One step of the copy loop; the state carries \<open>remaining\<close>.\<close>

definition copy_block_out :: "u32 \<Rightarrow> char list \<Rightarrow> nat \<Rightarrow> u32 \<times> bkfs \<Rightarrow> fault + (u32 \<times> bkfs)" where
  "copy_block_out inode_num data i st =
     (let (remaining, s) = st;
          to_copy = (if remaining > of_nat BLOCK_SIZE then of_nat BLOCK_SIZE else remaining)
      in sbind (read_at (i_block (get_inode inode_num s)) i) (\<lambda>b.
           if unat b < MAX_BLOCKS
           then sbind (memcpy (blocks s (unat b)) 0 data (i * BLOCK_SIZE) (unat to_copy)) (\<lambda>blk.
                  Inr (remaining - to_copy, s\<lparr>blocks := (blocks s)(unat b := blk)\<rparr>))
           else Inl OutOfBounds))"

definition fs_write_file :: "u32 \<Rightarrow> u32 \<Rightarrow> char list \<Rightarrow> u32 \<Rightarrow> bkfs \<Rightarrow> fault + (int \<times> bkfs)" where
  "fs_write_file ticks inode_num data sz s =
     (if \<not> valid_ino inode_num then Inr (FS_ERROR, s)
      else
        (let blocks_needed = (sz + of_nat BLOCK_SIZE - 1) div of_nat BLOCK_SIZE
         in if blocks_needed > of_nat INODE_DIRECT_BLOCKS then Inr (FS_ERROR, s)
            else
              sbind (release_old_blocks inode_num s) (\<lambda>s1.
                let (ok, s2) = alloc_blocks inode_num [0..<unat blocks_needed] s1
                in if \<not> ok then Inr (FS_ERROR, s2)
                   else
                     (let s3 = upd_inode inode_num (\<lambda>ino. ino\<lparr>i_blocks := blocks_needed,
                                  i_size := sz, i_mtime := ticks\<rparr>) s2
                      in sbind (sfold (copy_block_out inode_num data)
                                  [0..<unat blocks_needed] (sz, s3))
                           (\<lambda>(remaining, s4). Inr (FS_SUCCESS, s4))))))"

definition copy_block_in :: "inode \<Rightarrow> bkfs \<Rightarrow> nat \<Rightarrow> u32 \<times> carray \<Rightarrow> fault + (u32 \<times> carray)" where
  "copy_block_in ino s i st =
     (let (remaining, buffer) = st
      in if remaining = 0 then Inr st
         else
           (let to_copy = (if remaining > of_nat BLOCK_SIZE then of_nat BLOCK_SIZE else remaining)
            in sbind (read_at (i_block ino) i) (\<lambda>b.
                 if unat b < MAX_BLOCKS
                 then sbind (memcpy buffer (i * BLOCK_SIZE) (blocks s (unat b)) 0 (unat to_copy))
                        (\<lambda>buf. Inr (remaining - to_copy, buf))
                 else Inl OutOfBounds)))"

text \<open>
  The result is the return value, the buffer and the state: the return value is the number of
  bytes, or \<open>FS_ERROR\<close> (which is also the byte count 1) for an inode number out of range.
\<close>

definition fs_read_file :: "u32 \<Rightarrow> u32 \<Rightarrow> carray \<Rightarrow> u32 \<Rightarrow> bkfs \<Rightarrow> fault + (int \<times> carray \<times> bkfs)" where
  "fs_read_file ticks inode_num buffer sz s =
     (if \<not> valid_ino inode_num then Inr (FS_ERROR, buffer, s)
      else
        (let ino = get_inode inode_num s;
             size1 = (if sz > i_size ino then i_size ino else sz)
         in sbind (sfold (copy_block_in ino s) [0..<unat (i_blocks ino)] (size1, buffer))
              (\<lambda>(remaining, buf).
                Inr (sint size1, buf, upd_inode inode_num (\<lambda>ino. ino\<lparr>i_atime := ticks\<rparr>) s))))"

definition fs_change_dir :: "u32 \<Rightarrow> bkfs \<Rightarrow> int \<times> bkfs" where
  "fs_change_dir inode_num s =
     (case find_entry (\<lambda>f. f_inode f = inode_num \<and> f_type f = FILE_DIR) s of
        Some i \<Rightarrow> (FS_SUCCESS, s\<lparr>current_inode := inode_num\<rparr>)
      | None \<Rightarrow> (FS_ERROR, s))"

section \<open>Inode numbers and table access\<close>

lemma valid_ino_iff: "valid_ino n \<longleftrightarrow> n \<noteq> 0 \<and> ino_ix n < MAX_INODES"
proof -
  have "n \<le> 128 \<longleftrightarrow> unat n \<le> 128" by (simp add: word_le_nat_alt)
  then show ?thesis
    using unat_gt_0_u32 [of n] by (auto simp: valid_ino_def ino_ix_def not_less)
qed

lemma ino_ix_lt: "valid_ino n \<Longrightarrow> ino_ix n < MAX_INODES"
  by (simp add: valid_ino_iff)

lemma ino_ix_inject:
  assumes "valid_ino n" and "valid_ino m"
  shows "ino_ix n = ino_ix m \<longleftrightarrow> n = m"
proof
  assume "ino_ix n = ino_ix m"
  moreover have "0 < unat n" "0 < unat m"
    using assms by (simp_all add: valid_ino_iff unat_gt_0_u32)
  ultimately have "unat n = unat m" by (simp add: ino_ix_def)
  then show "n = m" by (rule unsigned_word_eqI)
qed simp

lemma ino_ix_of_slot [simp]: "i < MAX_INODES \<Longrightarrow> ino_ix (1 + of_nat i) = i"
  by (simp add: ino_ix_def)

lemma valid_ino_of_slot [simp]: "i < MAX_INODES \<Longrightarrow> valid_ino (1 + of_nat i)"
  by (simp add: valid_ino_iff)

lemma slot_of_ino: "valid_ino n \<Longrightarrow> 1 + of_nat (ino_ix n) = n"
  using unat_gt_0_u32 [of n] by (simp add: valid_ino_iff ino_ix_def)

section \<open>The two pools\<close>

definition inode_shape :: "bkfs \<Rightarrow> bool" where
  "inode_shape s \<longleftrightarrow> length (inodes s) = MAX_INODES"

definition block_shape :: "bkfs \<Rightarrow> bool" where
  "block_shape s \<longleftrightarrow> length (block_used s) = MAX_BLOCKS"

definition inode_taken :: "bkfs \<Rightarrow> nat \<Rightarrow> bool" where
  "inode_taken s i \<longleftrightarrow> i_mode (inodes s ! i) \<noteq> 0"

definition block_taken :: "bkfs \<Rightarrow> nat \<Rightarrow> bool" where
  "block_taken s i \<longleftrightarrow> block_used s ! i"

interpretation inode_pool: pool MAX_INODES inode_shape inode_taken free_inodes fs_alloc_inode 1
  "\<lambda>i. fs_free_inode (of_nat (Suc i))"
proof unfold_locales
  fix s assume "free_inodes s = 0 \<or> (\<forall>i<MAX_INODES. inode_taken s i)"
  then show "fs_alloc_inode s = (-1, s)"
    by (auto simp: fs_alloc_inode_def inode_taken_def first_index_Some split: option.split)
next
  fix s i assume s: "inode_shape s" "free_inodes s \<noteq> 0" "i < MAX_INODES" "\<not> inode_taken s i"
    "\<forall>j<i. inode_taken s j"
  then have "first_index (\<lambda>i. i_mode (inodes s ! i) = 0) MAX_INODES = Some i"
    by (simp add: first_index_Some inode_taken_def)
  then show "\<exists>s'. fs_alloc_inode s = (1 + int i, s') \<and> inode_shape s' \<and>
      (\<forall>j<MAX_INODES. inode_taken s' j \<longleftrightarrow> j = i \<or> inode_taken s j) \<and>
      free_inodes s' = free_inodes s - 1"
    using s by (auto simp: fs_alloc_inode_def inode_taken_def inode_shape_def nth_list_update)
next
  fix s i assume s: "inode_shape s" "i < MAX_INODES"
  then show "inode_shape (fs_free_inode (of_nat (Suc i)) s) \<and>
      (\<forall>j<MAX_INODES. inode_taken (fs_free_inode (of_nat (Suc i)) s) j \<longleftrightarrow> j \<noteq> i \<and> inode_taken s j) \<and>
      free_inodes (fs_free_inode (of_nat (Suc i)) s) = free_inodes s + 1"
    using s by (auto simp: fs_free_inode_def inode_taken_def inode_shape_def nth_list_update
        zero_inode_def)
qed simp_all

interpretation block_pool: pool MAX_BLOCKS block_shape block_taken free_blocks fs_alloc_block 0
  "\<lambda>i. fs_free_block (of_nat i)"
proof unfold_locales
  fix s assume "free_blocks s = 0 \<or> (\<forall>i<MAX_BLOCKS. block_taken s i)"
  then show "fs_alloc_block s = (-1, s)"
    by (auto simp: fs_alloc_block_def block_taken_def first_index_Some split: option.split)
next
  fix s i assume s: "block_shape s" "free_blocks s \<noteq> 0" "i < MAX_BLOCKS" "\<not> block_taken s i"
    "\<forall>j<i. block_taken s j"
  then have "first_index (\<lambda>i. \<not> block_used s ! i) MAX_BLOCKS = Some i"
    by (simp add: first_index_Some block_taken_def)
  then show "\<exists>s'. fs_alloc_block s = (0 + int i, s') \<and> block_shape s' \<and>
      (\<forall>j<MAX_BLOCKS. block_taken s' j \<longleftrightarrow> j = i \<or> block_taken s j) \<and>
      free_blocks s' = free_blocks s - 1"
    using s by (auto simp: fs_alloc_block_def block_taken_def block_shape_def nth_list_update)
next
  fix s i assume s: "block_shape s" "i < MAX_BLOCKS"
  then have "unat (of_nat i :: u32) = i" "\<not> (of_nat i :: u32) \<ge> 1024"
    by (simp_all add: word_le_nat_alt)
  then show "block_shape (fs_free_block (of_nat i) s) \<and>
      (\<forall>j<MAX_BLOCKS. block_taken (fs_free_block (of_nat i) s) j \<longleftrightarrow> j \<noteq> i \<and> block_taken s j) \<and>
      free_blocks (fs_free_block (of_nat i) s) = free_blocks s + 1"
    using s by (auto simp: fs_free_block_def block_taken_def block_shape_def nth_list_update)
qed simp_all

end
