(* ===== verification/Bkfs_Inv.thy ===== *)
theory Bkfs_Inv imports Bkfs begin

text \<open>
  The consistency invariant of bkFS and the abstract view of a file as its contents. The lemmas
  follow the parts of the operations: returning blocks to the pool, the allocation loop, the copy
  loops. The theory of the operations assembles them.
\<close>

section \<open>Ownership and contents\<close>

text \<open>Block list \<open>i\<close> of the inode in slot \<open>n\<close> is live, and the block it names.\<close>

definition owns :: "bkfs \<Rightarrow> nat \<Rightarrow> nat \<Rightarrow> bool" where
  "owns s n i \<longleftrightarrow> n < MAX_INODES \<and> i < unat (i_blocks (inodes s ! n))"

definition blk :: "bkfs \<Rightarrow> nat \<Rightarrow> nat \<Rightarrow> nat" where
  "blk s n i = unat (i_block (inodes s ! n) ! i)"

definition content :: "bkfs \<Rightarrow> nat \<Rightarrow> char list" where
  "content s n = take (unat (i_size (inodes s ! n)))
     (concat (map (\<lambda>i. blocks s (blk s n i)) [0..<unat (i_blocks (inodes s ! n))]))"

definition blocks_for :: "nat \<Rightarrow> nat" where
  "blocks_for n = (n + (BLOCK_SIZE - 1)) div BLOCK_SIZE"

section \<open>The invariant\<close>

definition fs_shape :: "bkfs \<Rightarrow> bool" where
  "fs_shape s \<longleftrightarrow> length (files s) = MAX_FILES \<and> file_count s \<le> MAX_FILES \<and>
     inode_shape s \<and> block_shape s \<and>
     (\<forall>n<MAX_INODES. length (i_block (inodes s ! n)) = INODE_DIRECT_BLOCKS) \<and>
     (\<forall>b<MAX_BLOCKS. length (blocks s b) = BLOCK_SIZE) \<and>
     (\<forall>i<MAX_FILES. length (f_name (files s ! i)) = 32)"

definition fs_owned :: "bkfs \<Rightarrow> bool" where
  "fs_owned s \<longleftrightarrow>
     (\<forall>n i. owns s n i \<longrightarrow> i < INODE_DIRECT_BLOCKS \<and> blk s n i < MAX_BLOCKS \<and>
        block_taken s (blk s n i)) \<and>
     (\<forall>n i m j. owns s n i \<longrightarrow> owns s m j \<longrightarrow> blk s n i = blk s m j \<longrightarrow> n = m \<and> i = j)"

definition fs_sized :: "bkfs \<Rightarrow> bool" where
  "fs_sized s \<longleftrightarrow> (\<forall>n<MAX_INODES.
     unat (i_blocks (inodes s ! n)) = blocks_for (unat (i_size (inodes s ! n))) \<and>
     (\<not> inode_taken s n \<longrightarrow> i_size (inodes s ! n) = 0))"

definition fs_counted :: "bkfs \<Rightarrow> bool" where
  "fs_counted s \<longleftrightarrow> counted MAX_INODES inode_taken free_inodes s \<and>
     counted MAX_BLOCKS block_taken free_blocks s"

text \<open>
  The directory table: the five static entries stay zero, every other entry names a
  taken inode, no inode is named twice, and every taken inode has an entry.
\<close>

definition fs_named :: "bkfs \<Rightarrow> bool" where
  "fs_named s \<longleftrightarrow> 5 \<le> file_count s \<and> (\<forall>i<5. files s ! i = zero_file) \<and>
     (\<forall>i. 5 \<le> i \<and> i < file_count s \<longrightarrow> valid_ino (f_inode (files s ! i)) \<and>
        inode_taken s (ino_ix (f_inode (files s ! i)))) \<and>
     (\<forall>i j. 5 \<le> i \<and> i < file_count s \<longrightarrow> 5 \<le> j \<and> j < file_count s \<longrightarrow>
        f_inode (files s ! i) = f_inode (files s ! j) \<longrightarrow> i = j) \<and>
     (\<forall>n<MAX_INODES. inode_taken s n \<longrightarrow>
        (\<exists>i. 5 \<le> i \<and> i < file_count s \<and> ino_ix (f_inode (files s ! i)) = n))"

definition fs_data_inv :: "bkfs \<Rightarrow> bool" where
  "fs_data_inv s \<longleftrightarrow> fs_shape s \<and> fs_owned s \<and> fs_sized s \<and> fs_counted s"

definition fs_inv :: "bkfs \<Rightarrow> bool" where
  "fs_inv s \<longleftrightarrow> fs_data_inv s \<and> fs_named s"

text \<open>The state the program starts from satisfies it.\<close>

lemma static_bkfs_inv: "fs_inv static_bkfs"
proof -
  have i: "{i. i < MAX_INODES \<and> \<not> inode_taken static_bkfs i} = {..<MAX_INODES}"
    by (auto simp: inode_taken_def static_bkfs_def zero_inode_def)
  have b: "{i. i < MAX_BLOCKS \<and> \<not> block_taken static_bkfs i} = {..<MAX_BLOCKS}"
    by (auto simp: block_taken_def static_bkfs_def)
  have "fs_counted static_bkfs"
    by (simp add: fs_counted_def counted_def i b) (simp add: static_bkfs_def)
  moreover have "fs_shape static_bkfs"
    by (simp add: fs_shape_def static_bkfs_def inode_shape_def block_shape_def zero_inode_def zero_file_def)
  moreover have "\<not> owns static_bkfs n i" for n i
    by (auto simp: owns_def static_bkfs_def zero_inode_def)
  then have "fs_owned static_bkfs"
    by (simp add: fs_owned_def)
  moreover have "fs_sized static_bkfs"
    by (simp add: fs_sized_def static_bkfs_def zero_inode_def blocks_for_def)
  moreover have "fs_named static_bkfs"
    by (simp add: fs_named_def static_bkfs_def zero_file_def inode_taken_def zero_inode_def)
  ultimately show ?thesis by (simp add: fs_inv_def fs_data_inv_def)
qed

section \<open>What the parts leave alone\<close>

lemma fs_free_block_frame [simp]:
  "files (fs_free_block b s) = files s" "file_count (fs_free_block b s) = file_count s"
  "current_inode (fs_free_block b s) = current_inode s" "inodes (fs_free_block b s) = inodes s"
  "blocks (fs_free_block b s) = blocks s" "free_inodes (fs_free_block b s) = free_inodes s"
  by (simp_all add: fs_free_block_def)

lemma upd_inode_frame [simp]:
  "files (upd_inode n f s) = files s" "file_count (upd_inode n f s) = file_count s"
  "current_inode (upd_inode n f s) = current_inode s" "blocks (upd_inode n f s) = blocks s"
  "block_used (upd_inode n f s) = block_used s" "free_blocks (upd_inode n f s) = free_blocks s"
  "free_inodes (upd_inode n f s) = free_inodes s"
  by (simp_all add: upd_inode_def)

lemma nth_upd_inode:
  "inode_shape s \<Longrightarrow> m < MAX_INODES \<Longrightarrow>
   inodes (upd_inode n f s) ! m = (if m = ino_ix n then f (inodes s ! m) else inodes s ! m)"
  by (auto simp: upd_inode_def get_inode_def inode_shape_def nth_list_update)

lemma inode_shape_upd [simp]: "inode_shape (upd_inode n f s) = inode_shape s"
  by (simp add: upd_inode_def inode_shape_def)

lemma fs_alloc_block_frame:
  "fs_alloc_block s = (b, s') \<Longrightarrow> files s' = files s \<and> file_count s' = file_count s \<and>
   current_inode s' = current_inode s \<and> inodes s' = inodes s \<and> blocks s' = blocks s \<and>
   free_inodes s' = free_inodes s"
  by (auto simp: fs_alloc_block_def split: if_splits option.splits)

section \<open>Returning blocks\<close>

definition free_list :: "u32 list \<Rightarrow> bkfs \<Rightarrow> bkfs" where
  "free_list bs s = fold (\<lambda>b s. if b \<noteq> 0 then fs_free_block b s else s) bs s"

lemma free_list_simps [simp]:
  "free_list [] s = s"
  "free_list (b # bs) s = free_list bs (if b \<noteq> 0 then fs_free_block b s else s)"
  by (simp_all add: free_list_def)

lemma free_list_frame [simp]:
  "files (free_list bs s) = files s" "file_count (free_list bs s) = file_count s"
  "current_inode (free_list bs s) = current_inode s" "inodes (free_list bs s) = inodes s"
  "blocks (free_list bs s) = blocks s" "free_inodes (free_list bs s) = free_inodes s"
  by (induction bs arbitrary: s) simp_all

lemma fold_index_take:
  "k \<le> length xs \<Longrightarrow> fold (\<lambda>i. f (xs ! i)) [0..<k] s = fold f (take k xs) s"
  by (induction k arbitrary: s) (simp_all add: take_Suc_conv_app_nth)

lemma free_inode_blocks_eq:
  "length (i_block (get_inode n s)) = INODE_DIRECT_BLOCKS \<Longrightarrow>
   free_inode_blocks n s =
     free_list (take (min (unat (i_blocks (get_inode n s))) INODE_DIRECT_BLOCKS)
       (i_block (get_inode n s))) s"
  using fold_index_take [of "min (unat (i_blocks (get_inode n s))) INODE_DIRECT_BLOCKS"
      "i_block (get_inode n s)" "\<lambda>b s. if b \<noteq> 0 then fs_free_block b s else s" s]
  by (simp add: free_inode_blocks_def free_list_def Let_def)

lemma sfold_read_free:
  "k \<le> length xs \<Longrightarrow>
   sfold (\<lambda>i s. sbind (read_at xs i) (\<lambda>b. Inr (if b \<noteq> 0 then fs_free_block b s else s))) [0..<k] s
   = Inr (free_list (take k xs) s)"
proof (induction k)
  case (Suc k)
  then show ?case
    by (simp add: sfold_append read_at_def take_Suc_conv_app_nth free_list_def)
qed simp

lemma release_old_blocks_eq:
  assumes "unat (i_blocks (get_inode n s)) \<le> length (i_block (get_inode n s))"
  shows "release_old_blocks n s =
     Inr (free_list (take (unat (i_blocks (get_inode n s))) (i_block (get_inode n s))) s)"
  using sfold_read_free [OF assms, of s] by (simp add: release_old_blocks_def Let_def)

text \<open>Freeing distinct taken blocks keeps the count exact and frees these and no others.\<close>

lemma free_list_spec:
  assumes "block_shape s" and "counted MAX_BLOCKS block_taken free_blocks s"
    and "distinct bs" and "\<forall>b \<in> set bs. unat b < MAX_BLOCKS \<and> block_taken s (unat b)"
  shows "block_shape (free_list bs s) \<and> counted MAX_BLOCKS block_taken free_blocks (free_list bs s) \<and>
     (\<forall>j<MAX_BLOCKS. block_taken (free_list bs s) j \<longleftrightarrow>
        block_taken s j \<and> \<not> (\<exists>b \<in> set bs. b \<noteq> 0 \<and> unat b = j))"
  using assms
proof (induction bs arbitrary: s)
  case Nil
  then show ?case by simp
next
  case (Cons b bs)
  show ?case
  proof (cases "b = 0")
    case True
    then show ?thesis using Cons by auto
  next
    case False
    let ?t = "fs_free_block b s"
    have b: "unat b < MAX_BLOCKS" "block_taken s (unat b)" "of_nat (unat b) = b"
      using Cons.prems by simp_all
    note r = block_pool.release_gives [OF Cons.prems(1) b(1)] and
      c = block_pool.release_counted [OF Cons.prems(1,2) b(1,2)]
    have taken: "\<forall>b' \<in> set bs. unat b' < MAX_BLOCKS \<and> block_taken ?t (unat b')"
    proof
      fix b' assume b': "b' \<in> set bs"
      then have "b' \<noteq> b" using Cons.prems(3) by auto
      then have "unat b' \<noteq> unat b" by (metis unsigned_word_eqI)
      then show "unat b' < MAX_BLOCKS \<and> block_taken ?t (unat b')"
        using r b' Cons.prems(4) by (auto simp: b(3))
    qed
    have sh: "block_shape ?t" and ct: "counted MAX_BLOCKS block_taken free_blocks ?t"
      and d: "distinct bs"
      using r c Cons.prems(3) by (simp_all add: b(3))
    from Cons.IH [OF sh ct d taken] show ?thesis using r False by (auto simp: b(3))
  qed
qed

section \<open>The allocation loop\<close>

text \<open>
  After a successful run the listed positions of the inode's block array name distinct blocks
  that were free before, these blocks are now taken, and nothing else has changed.
\<close>

definition alloc_result :: "u32 \<Rightarrow> nat list \<Rightarrow> bkfs \<Rightarrow> bkfs \<Rightarrow> bool" where
  "alloc_result n is s s' \<longleftrightarrow>
     files s' = files s \<and> file_count s' = file_count s \<and> current_inode s' = current_inode s \<and>
     blocks s' = blocks s \<and> free_inodes s' = free_inodes s \<and> inode_shape s' \<and> block_shape s' \<and>
     (\<forall>m<MAX_INODES. m \<noteq> ino_ix n \<longrightarrow> inodes s' ! m = inodes s ! m) \<and>
     (\<exists>bl. get_inode n s' = (get_inode n s)\<lparr>i_block := bl\<rparr> \<and>
        length bl = INODE_DIRECT_BLOCKS \<and>
        (\<forall>j<INODE_DIRECT_BLOCKS. j \<notin> set is \<longrightarrow> bl ! j = i_block (get_inode n s) ! j) \<and>
        (\<forall>j \<in> set is. unat (bl ! j) < MAX_BLOCKS \<and> \<not> block_taken s (unat (bl ! j))) \<and>
        (\<forall>j \<in> set is. \<forall>k \<in> set is. bl ! j = bl ! k \<longrightarrow> j = k) \<and>
        (\<forall>b<MAX_BLOCKS. block_taken s' b \<longleftrightarrow>
           block_taken s b \<or> (\<exists>j \<in> set is. unat (bl ! j) = b)))"

lemma alloc_resultI:
  assumes "files s' = files s" "file_count s' = file_count s" "current_inode s' = current_inode s"
    "blocks s' = blocks s" "free_inodes s' = free_inodes s" "inode_shape s'" "block_shape s'"
    "\<And>m. m < MAX_INODES \<Longrightarrow> m \<noteq> ino_ix n \<Longrightarrow> inodes s' ! m = inodes s ! m"
    "get_inode n s' = (get_inode n s)\<lparr>i_block := bl\<rparr>" "length bl = INODE_DIRECT_BLOCKS"
    "\<forall>j<INODE_DIRECT_BLOCKS. j \<notin> set is \<longrightarrow> bl ! j = i_block (get_inode n s) ! j"
    "\<forall>j \<in> set is. unat (bl ! j) < MAX_BLOCKS \<and> \<not> block_taken s (unat (bl ! j))"
    "\<forall>j \<in> set is. \<forall>k \<in> set is. bl ! j = bl ! k \<longrightarrow> j = k"
    "\<forall>b<MAX_BLOCKS. block_taken s' b \<longleftrightarrow> block_taken s b \<or> (\<exists>j \<in> set is. unat (bl ! j) = b)"
  shows "alloc_result n is s s'"
  unfolding alloc_result_def using assms by blast

lemma get_upd_inode:
  "inode_shape s \<Longrightarrow> ino_ix n < MAX_INODES \<Longrightarrow> get_inode n (upd_inode n f s) = f (get_inode n s)"
  using nth_upd_inode [of s "ino_ix n" n f] by (simp add: get_inode_def)

lemma block_taken_upd [simp]: "block_taken (upd_inode n f s) b = block_taken s b"
  by (simp add: block_taken_def)

lemma block_shape_upd [simp]: "block_shape (upd_inode n f s) = block_shape s"
  by (simp add: block_shape_def)

lemma counted_blocks_cong:
  "free_blocks s = free_blocks t \<Longrightarrow> block_used s = block_used t \<Longrightarrow>
   counted MAX_BLOCKS block_taken free_blocks s = counted MAX_BLOCKS block_taken free_blocks t"
  by (simp add: counted_def block_taken_def)

lemma alloc_block_took:
  assumes "block_shape s" and "fs_alloc_block s = (b, s1)" and "b \<noteq> -1"
  shows "\<exists>k. b = int k \<and> k < MAX_BLOCKS \<and> \<not> block_taken s k \<and> block_shape s1 \<and>
     (\<forall>j<MAX_BLOCKS. block_taken s1 j \<longleftrightarrow> j = k \<or> block_taken s j)"
  using assms(1)
proof (cases rule: block_pool.alloc_cases)
  case full
  then show ?thesis using assms by simp
next
  case (took k s2)
  then show ?thesis using assms by (intro exI [of _ k]) auto
qed

lemma alloc_blocks_spec:
  assumes "alloc_blocks n is s = (True, s')" and "valid_ino n" and "inode_shape s"
    and "block_shape s" and "counted MAX_BLOCKS block_taken free_blocks s"
    and "length (i_block (get_inode n s)) = INODE_DIRECT_BLOCKS"
    and "distinct is" and "\<forall>i \<in> set is. i < INODE_DIRECT_BLOCKS"
  shows "alloc_result n is s s' \<and> counted MAX_BLOCKS block_taken free_blocks s'"
  using assms
proof (induction "is" arbitrary: s)
  case Nil
  then have "s' = s" by simp
  then have "alloc_result n [] s s'"
    using Nil by (intro alloc_resultI [of _ _ _ "i_block (get_inode n s)"]) simp_all
  then show ?case using Nil \<open>s' = s\<close> by simp
next
  case (Cons i "is")
  obtain b s1 where a: "fs_alloc_block s = (b, s1)" by (cases "fs_alloc_block s")
  have b: "b \<noteq> -1" using Cons.prems(1) a by auto
  define w where "w = (word_of_int b :: u32)"
  define t where "t = upd_inode n (\<lambda>ino. ino\<lparr>i_block := (i_block ino)[i := w]\<rparr>) s1"
  have rest: "alloc_blocks n is t = (True, s')"
    using Cons.prems(1) a b by (simp add: t_def w_def)
  obtain k where k: "b = int k" "k < MAX_BLOCKS" "\<not> block_taken s k" "block_shape s1"
    "\<forall>j<MAX_BLOCKS. block_taken s1 j \<longleftrightarrow> j = k \<or> block_taken s j"
    using alloc_block_took [OF Cons.prems(4) a b] by blast
  note fr = fs_alloc_block_frame [OF a]
  have w: "unat w = k" using k by (simp add: w_def)
  have ix: "ino_ix n < MAX_INODES" using Cons.prems(2) by (rule ino_ix_lt)
  have sh1: "inode_shape s1" using Cons.prems(3) fr by (simp add: inode_shape_def)
  have gt: "get_inode n t = (get_inode n s)\<lparr>i_block := (i_block (get_inode n s))[i := w]\<rparr>"
    using get_upd_inode [OF sh1 ix] fr by (simp add: t_def get_inode_def)
  have ct: "counted MAX_BLOCKS block_taken free_blocks t"
    using block_pool.alloc_counted [OF Cons.prems(4,5) a] counted_blocks_cong [of t s1]
    by (simp add: t_def)
  have "inode_shape t" "block_shape t" "length (i_block (get_inode n t)) = INODE_DIRECT_BLOCKS"
    "distinct is" "\<forall>i \<in> set is. i < INODE_DIRECT_BLOCKS"
    using sh1 k(4) Cons.prems(6-8) by (simp_all add: gt) (simp_all add: t_def)
  from Cons.IH [OF rest Cons.prems(2) this(1,2) ct this(3-5)]
  have IH: "alloc_result n is t s' \<and> counted MAX_BLOCKS block_taken free_blocks s'" .
  then obtain bl where bl: "get_inode n s' = (get_inode n t)\<lparr>i_block := bl\<rparr>"
    "length bl = INODE_DIRECT_BLOCKS"
    "\<forall>j<INODE_DIRECT_BLOCKS. j \<notin> set is \<longrightarrow> bl ! j = i_block (get_inode n t) ! j"
    "\<forall>j \<in> set is. unat (bl ! j) < MAX_BLOCKS \<and> \<not> block_taken t (unat (bl ! j))"
    "\<forall>j \<in> set is. \<forall>k \<in> set is. bl ! j = bl ! k \<longrightarrow> j = k"
    "\<forall>b<MAX_BLOCKS. block_taken s' b \<longleftrightarrow> block_taken t b \<or> (\<exists>j \<in> set is. unat (bl ! j) = b)"
    unfolding alloc_result_def by blast
  have i: "i < INODE_DIRECT_BLOCKS" "i \<notin> set is" using Cons.prems(7,8) by auto
  have bli: "bl ! i = w" using bl(3) i gt Cons.prems(6) by simp
  have tt: "block_taken t j \<longleftrightarrow> j = k \<or> block_taken s j" if "j < MAX_BLOCKS" for j
    using k(5) that by (simp add: t_def)
  have fresh: "\<forall>j \<in> set is. bl ! j \<noteq> w"
    using bl(4) tt w by auto
  have "get_inode n s' = (get_inode n s)\<lparr>i_block := bl\<rparr>"
    using bl(1) gt by simp
  moreover have "\<forall>j<INODE_DIRECT_BLOCKS. j \<notin> set (i # is) \<longrightarrow> bl ! j = i_block (get_inode n s) ! j"
    using bl(3) gt by auto
  moreover have "\<forall>j \<in> set (i # is). unat (bl ! j) < MAX_BLOCKS \<and> \<not> block_taken s (unat (bl ! j))"
    using bl(4) bli w k tt by auto
  moreover have "\<forall>j \<in> set (i # is). \<forall>k \<in> set (i # is). bl ! j = bl ! k \<longrightarrow> j = k"
    using bl(5) bli fresh by auto
  moreover have "\<forall>b<MAX_BLOCKS. block_taken s' b \<longleftrightarrow>
      block_taken s b \<or> (\<exists>j \<in> set (i # is). unat (bl ! j) = b)"
    using bl(6) tt bli w by auto
  moreover have "inodes t ! m = inodes s ! m" if "m < MAX_INODES" "m \<noteq> ino_ix n" for m
    using nth_upd_inode [OF sh1] that fr by (simp add: t_def)
  moreover have "files t = files s" "file_count t = file_count s" "current_inode t = current_inode s"
    "blocks t = blocks s" "free_inodes t = free_inodes s"
    using fr by (simp_all add: t_def)
  moreover have "files s' = files t" "file_count s' = file_count t" "current_inode s' = current_inode t"
    "blocks s' = blocks t" "free_inodes s' = free_inodes t" "inode_shape s'" "block_shape s'"
    "\<And>m. m < MAX_INODES \<Longrightarrow> m \<noteq> ino_ix n \<Longrightarrow> inodes s' ! m = inodes t ! m"
    using IH by (simp_all add: alloc_result_def)
  ultimately have "alloc_result n (i # is) s s'"
    using bl(2) by (intro alloc_resultI [of _ _ _ bl]) simp_all
  then show ?case using IH by blast
qed

text \<open>The loop succeeds exactly when enough blocks are free.\<close>

definition n_free_blocks :: "bkfs \<Rightarrow> nat" where
  "n_free_blocks s = card {b. b < MAX_BLOCKS \<and> \<not> block_taken s b}"

lemma alloc_blocks_enough:
  "block_shape s \<Longrightarrow> counted MAX_BLOCKS block_taken free_blocks s \<Longrightarrow>
   fst (alloc_blocks n is s) \<longleftrightarrow> length is \<le> n_free_blocks s"
proof (induction "is" arbitrary: s)
  case (Cons i "is")
  obtain b s1 where a: "fs_alloc_block s = (b, s1)" by (cases "fs_alloc_block s")
  show ?case
    using Cons.prems(1)
  proof (cases rule: block_pool.alloc_cases)
    case full
    then have "\<forall>i<MAX_BLOCKS. block_taken s i"
      using block_pool.alloc_full_iff [OF Cons.prems] by simp
    then have "n_free_blocks s = 0" by (simp add: n_free_blocks_def)
    then show ?thesis using full by simp
  next
    case (took k s2)
    let ?t = "upd_inode n (\<lambda>ino. ino\<lparr>i_block := (i_block ino)[i := word_of_int (int k)]\<rparr>) s2"
    have c: "counted MAX_BLOCKS block_taken free_blocks ?t"
      using block_pool.alloc_counted [OF Cons.prems took(1)] counted_blocks_cong [of ?t s2] by simp
    have "{b. b < MAX_BLOCKS \<and> \<not> block_taken ?t b} = {b. b < MAX_BLOCKS \<and> b \<noteq> k \<and> \<not> block_taken s b}"
      using took by auto
    then have "Suc (n_free_blocks ?t) = n_free_blocks s"
      unfolding n_free_blocks_def using took by (simp only:) (intro card_filter_upt_remove, auto)
    moreover have "fst (alloc_blocks n is ?t) \<longleftrightarrow> length is \<le> n_free_blocks ?t"
      using took c by (intro Cons.IH) simp_all
    ultimately show ?thesis using took(1) by auto
  qed
qed simp

section \<open>The copy loops\<close>

lemma get_inode_frame [simp]:
  "get_inode n (s\<lparr>blocks := B\<rparr>) = get_inode n s"
  "get_inode n (s\<lparr>block_used := U\<rparr>) = get_inode n s"
  "get_inode n (s\<lparr>free_blocks := F\<rparr>) = get_inode n s"
  "get_inode n (s\<lparr>current_inode := c\<rparr>) = get_inode n s"
  by (simp_all add: get_inode_def)

text \<open>The amount the loops copy per step: a whole block, or what remains.\<close>

lemma unat_to_copy:
  "unat (if r > of_nat BLOCK_SIZE then of_nat BLOCK_SIZE else r :: u32) = min BLOCK_SIZE (unat r)"
  by (auto simp: word_less_nat_alt)

lemma unat_rest:
  "unat (r - (if r > of_nat BLOCK_SIZE then of_nat BLOCK_SIZE else r) :: u32) = unat r - min BLOCK_SIZE (unat r)"
  by (auto simp: unat_sub word_less_nat_alt word_le_nat_alt)

definition chunk_ok :: "nat \<Rightarrow> char list \<Rightarrow> nat \<Rightarrow> char list \<Rightarrow> bool" where
  "chunk_ok L data i nb \<longleftrightarrow>
     take (min BLOCK_SIZE (L - i * BLOCK_SIZE)) nb =
     take (min BLOCK_SIZE (L - i * BLOCK_SIZE)) (drop (i * BLOCK_SIZE) data)"

lemma copy_out_spec:
  assumes bl: "bl = i_block (get_inode n s)" "length bl = INODE_DIRECT_BLOCKS" "k \<le> INODE_DIRECT_BLOCKS"
    and small: "\<forall>i<k. unat (bl ! i) < MAX_BLOCKS"
    and inj: "\<forall>i<k. \<forall>j<k. bl ! i = bl ! j \<longrightarrow> i = j"
    and len: "\<forall>b<MAX_BLOCKS. length (blocks s b) = BLOCK_SIZE"
    and data: "unat sz \<le> length data" "\<forall>i<k. i * BLOCK_SIZE \<le> unat sz"
  shows "j \<le> k \<Longrightarrow> \<exists>r B. sfold (copy_block_out n data) [0..<j] (sz, s) = Inr (r, s\<lparr>blocks := B\<rparr>) \<and>
     unat r = unat sz - min (unat sz) (j * BLOCK_SIZE) \<and>
     (\<forall>b<MAX_BLOCKS. length (B b) = BLOCK_SIZE) \<and>
     (\<forall>b. (\<forall>i<j. unat (bl ! i) \<noteq> b) \<longrightarrow> B b = blocks s b) \<and>
     (\<forall>i<j. chunk_ok (unat sz) data i (B (unat (bl ! i))))"
proof (induction j)
  case 0
  have "s\<lparr>blocks := blocks s\<rparr> = s" by simp
  then show ?case using len by (intro exI [of _ sz] exI [of _ "blocks s"]) simp
next
  case (Suc j)
  then obtain r B where IH: "sfold (copy_block_out n data) [0..<j] (sz, s) = Inr (r, s\<lparr>blocks := B\<rparr>)"
    "unat r = unat sz - min (unat sz) (j * BLOCK_SIZE)"
    "\<forall>b<MAX_BLOCKS. length (B b) = BLOCK_SIZE"
    "\<forall>b. (\<forall>i<j. unat (bl ! i) \<noteq> b) \<longrightarrow> B b = blocks s b"
    "\<forall>i<j. chunk_ok (unat sz) data i (B (unat (bl ! i)))"
    by auto
  have j: "j < k" using Suc.prems by simp
  define b where "b = unat (bl ! j)"
  define c where "c = min BLOCK_SIZE (unat sz - j * BLOCK_SIZE)"
  have b: "b < MAX_BLOCKS" using small j by (simp add: b_def)
  have jsz: "j * BLOCK_SIZE \<le> unat sz" using data(2) j by blast
  have r: "unat r = unat sz - j * BLOCK_SIZE" using IH(2) jsz by simp
  let ?t = "if r > of_nat BLOCK_SIZE then of_nat BLOCK_SIZE else r"
  define nb where "nb = take c (drop (j * BLOCK_SIZE) data) @ drop c (B b)"
  have tc: "unat ?t = c" unfolding unat_to_copy c_def r ..
  have c: "c \<le> BLOCK_SIZE" "j * BLOCK_SIZE + c \<le> length data"
    using jsz data(1) by (auto simp: c_def)
  have cp: "memcpy (B b) 0 data (j * BLOCK_SIZE) c = Inr nb"
    using memcpy_step [of 0 c "B b" "j * BLOCK_SIZE" data] IH(3) b c by (simp add: nb_def)
  have step: "copy_block_out n data j (r, s\<lparr>blocks := B\<rparr>) =
      Inr (r - ?t, s\<lparr>blocks := B(b := nb)\<rparr>)"
    using j bl b cp tc by (simp add: copy_block_out_def read_at_def b_def Let_def)
  have "sfold (copy_block_out n data) [0..<Suc j] (sz, s) = Inr (r - ?t, s\<lparr>blocks := B(b := nb)\<rparr>)"
    using IH(1) step by (simp add: sfold_append)
  moreover have "unat (r - ?t) = unat sz - min (unat sz) (Suc j * BLOCK_SIZE)"
    unfolding unat_rest r by simp
  moreover have "\<forall>x<MAX_BLOCKS. length ((B(b := nb)) x) = BLOCK_SIZE"
    using IH(3) b c by (auto simp: nb_def)
  moreover have "\<forall>x. (\<forall>i<Suc j. unat (bl ! i) \<noteq> x) \<longrightarrow> (B(b := nb)) x = blocks s x"
    using IH(4) by (auto simp: b_def)
  moreover have "\<forall>i<Suc j. chunk_ok (unat sz) data i ((B(b := nb)) (unat (bl ! i)))"
  proof (intro allI impI)
    fix i assume i: "i < Suc j"
    show "chunk_ok (unat sz) data i ((B(b := nb)) (unat (bl ! i)))"
    proof (cases "i = j")
      case True
      then show ?thesis using c by (simp add: chunk_ok_def b_def nb_def c_def [symmetric])
    next
      case False
      then have "bl ! i \<noteq> bl ! j" using inj i j by auto
      then have "unat (bl ! i) \<noteq> b" unfolding b_def by (metis unsigned_word_eqI)
      then show ?thesis using IH(5) i False by simp
    qed
  qed
  ultimately show ?case by blast
qed

text \<open>Blocks that hold the chunks of some data, put together, begin with that data.\<close>

lemma concat_chunks:
  assumes "\<forall>i<k. length (f i) = BLOCK_SIZE" and "\<forall>i<k. chunk_ok L data i (f i)" and "L \<le> length data"
  shows "take (min L (k * BLOCK_SIZE)) (concat (map f [0..<k])) = take (min L (k * BLOCK_SIZE)) data"
  using assms(1,2)
proof (induction k)
  case 0
  then show ?case by simp
next
  case (Suc k)
  have IH: "take (min L (k * BLOCK_SIZE)) (concat (map f [0..<k])) = take (min L (k * BLOCK_SIZE)) data"
    using Suc by simp
  have len: "length (concat (map f [0..<k])) = k * BLOCK_SIZE"
    using Suc.prems(1) by (induction k) simp_all
  show ?case
  proof (cases "L \<le> k * BLOCK_SIZE")
    case True
    then show ?thesis using IH len by simp
  next
    case False
    then have lk: "k * BLOCK_SIZE < L" by simp
    define m where "m = min BLOCK_SIZE (L - k * BLOCK_SIZE)"
    have mm: "min L (Suc k * BLOCK_SIZE) = k * BLOCK_SIZE + m"
      using lk unfolding m_def mult_Suc by arith
    have "concat (map f [0..<k]) = take (k * BLOCK_SIZE) data"
      using IH lk len by simp
    moreover have "take m (f k) = take m (drop (k * BLOCK_SIZE) data)"
      using Suc.prems(2) by (simp add: chunk_ok_def m_def)
    moreover have "take (k * BLOCK_SIZE + m) (concat (map f [0..<Suc k])) =
        concat (map f [0..<k]) @ take m (f k)"
      using len by simp
    ultimately show ?thesis unfolding mm by (simp add: take_add)
  qed
qed

lemma copy_in_spec:
  assumes bl: "length (i_block ino) = INODE_DIRECT_BLOCKS" "k \<le> INODE_DIRECT_BLOCKS"
    and small: "\<forall>i<k. unat (i_block ino ! i) < MAX_BLOCKS"
    and len: "\<forall>b<MAX_BLOCKS. length (blocks s b) = BLOCK_SIZE"
    and buf: "unat sz \<le> length buf"
  defines "g \<equiv> (\<lambda>i. blocks s (unat (i_block ino ! i)))"
  shows "j \<le> k \<Longrightarrow> \<exists>r. sfold (copy_block_in ino s) [0..<j] (sz, buf) =
       Inr (r, take (min (unat sz) (j * BLOCK_SIZE)) (concat (map g [0..<j])) @
               drop (min (unat sz) (j * BLOCK_SIZE)) buf) \<and>
     unat r = unat sz - min (unat sz) (j * BLOCK_SIZE)"
proof (induction j)
  case 0
  then show ?case by simp
next
  case (Suc j)
  let ?m = "min (unat sz) (j * BLOCK_SIZE)"
  let ?C = "concat (map g [0..<j])"
  have j: "j < k" using Suc.prems by simp
  obtain r where IH: "sfold (copy_block_in ino s) [0..<j] (sz, buf) = Inr (r, take ?m ?C @ drop ?m buf)"
    "unat r = unat sz - ?m" using Suc by auto
  have b: "unat (i_block ino ! j) < MAX_BLOCKS" using small j by simp
  have lg: "\<forall>i<k. length (g i) = BLOCK_SIZE" using len small by (simp add: g_def)
  have "\<forall>i<j. length (g i) = BLOCK_SIZE" using lg j by simp
  then have lC: "length ?C = j * BLOCK_SIZE" by (induction j) simp_all
  show ?case
  proof (cases "r = 0")
    case True
    then have le: "unat sz \<le> j * BLOCK_SIZE" using IH(2) by simp
    have "sfold (copy_block_in ino s) [0..<Suc j] (sz, buf) = Inr (0, take ?m ?C @ drop ?m buf)"
      using IH(1) True by (simp add: sfold_append copy_block_in_def)
    then show ?thesis using le lC by auto
  next
    case False
    then have "unat r \<noteq> 0" by (simp add: unat_eq_0)
    then have lt: "j * BLOCK_SIZE < unat sz" using IH(2) by (auto simp: min_def split: if_splits)
    then have m: "?m = j * BLOCK_SIZE" and r: "unat r = unat sz - j * BLOCK_SIZE" using IH(2) by simp_all
    define c where "c = min BLOCK_SIZE (unat sz - j * BLOCK_SIZE)"
    let ?t = "if r > of_nat BLOCK_SIZE then of_nat BLOCK_SIZE else r"
    have tc: "unat ?t = c" unfolding unat_to_copy c_def r ..
    have mm: "min (unat sz) (Suc j * BLOCK_SIZE) = j * BLOCK_SIZE + c"
      using lt by (auto simp: c_def min_def)
    have cc: "c \<le> BLOCK_SIZE" "j * BLOCK_SIZE + c \<le> length buf" using buf lt by (auto simp: c_def)
    let ?b = "take ?m ?C @ drop ?m buf"
    have "memcpy ?b (j * BLOCK_SIZE) (g j) 0 c =
        Inr (?C @ take c (g j) @ drop (j * BLOCK_SIZE + c) buf)"
      using memcpy_step [of "j * BLOCK_SIZE" c ?b 0 "g j"] lg j cc m lC
      by (simp add: add.commute)
    then have "copy_block_in ino s j (r, ?b) = Inr (r - ?t, ?C @ take c (g j) @ drop (j * BLOCK_SIZE + c) buf)"
      using False j bl b tc by (simp add: copy_block_in_def read_at_def Let_def g_def)
    then have "sfold (copy_block_in ino s) [0..<Suc j] (sz, buf) =
        Inr (r - ?t, ?C @ take c (g j) @ drop (j * BLOCK_SIZE + c) buf)"
      using IH(1) by (simp add: sfold_append)
    moreover have "unat (r - ?t) = unat sz - min (unat sz) (Suc j * BLOCK_SIZE)"
      unfolding unat_rest r by simp
    moreover have "take (j * BLOCK_SIZE + c) (concat (map g [0..<Suc j])) = ?C @ take c (g j)"
      using lC by simp
    ultimately show ?thesis unfolding mm by simp
  qed
qed

end
