(* ===== verification/Bkfs_Ops.thy ===== *)
theory Bkfs_Ops imports Bkfs_Inv begin

text \<open>
  The operations of bkFS against the invariant and the contents of files: writing stores the
  data and touches no other file, reading returns it, creation and deletion keep the tables
  consistent. The failure behaviour of a write is characterised as well.
\<close>

section \<open>Consequences of the invariant\<close>

lemma fs_data_invD:
  assumes "fs_data_inv s"
  shows "inode_shape s" "block_shape s" "length (files s) = MAX_FILES" "file_count s \<le> MAX_FILES"
    "\<And>n. n < MAX_INODES \<Longrightarrow> length (i_block (inodes s ! n)) = INODE_DIRECT_BLOCKS"
    "\<And>b. b < MAX_BLOCKS \<Longrightarrow> length (blocks s b) = BLOCK_SIZE"
    "\<And>i. i < MAX_FILES \<Longrightarrow> length (f_name (files s ! i)) = 32"
    "\<And>n i. owns s n i \<Longrightarrow> i < INODE_DIRECT_BLOCKS \<and> blk s n i < MAX_BLOCKS \<and> block_taken s (blk s n i)"
    "\<And>n i m j. owns s n i \<Longrightarrow> owns s m j \<Longrightarrow> blk s n i = blk s m j \<Longrightarrow> n = m \<and> i = j"
    "\<And>n. n < MAX_INODES \<Longrightarrow>
       unat (i_blocks (inodes s ! n)) = blocks_for (unat (i_size (inodes s ! n)))"
    "\<And>n. n < MAX_INODES \<Longrightarrow> \<not> inode_taken s n \<Longrightarrow> i_size (inodes s ! n) = 0"
    "counted MAX_INODES inode_taken free_inodes s" "counted MAX_BLOCKS block_taken free_blocks s"
  using assms by (auto simp: fs_data_inv_def fs_shape_def fs_owned_def fs_sized_def fs_counted_def)

lemma live_blocks_le:
  assumes "fs_data_inv s" and "n < MAX_INODES"
  shows "unat (i_blocks (inodes s ! n)) \<le> INODE_DIRECT_BLOCKS"
proof (rule ccontr)
  assume "\<not> ?thesis"
  then have "owns s n INODE_DIRECT_BLOCKS" using assms(2) by (simp add: owns_def)
  then show False using fs_data_invD(8) [OF assms(1)] by blast
qed

text \<open>The live blocks of an inode are distinct and taken.\<close>

lemma live_blocks:
  assumes "fs_data_inv s" and "n < MAX_INODES"
  defines "bs \<equiv> take (unat (i_blocks (inodes s ! n))) (i_block (inodes s ! n))"
  shows "distinct bs" "\<forall>b \<in> set bs. unat b < MAX_BLOCKS \<and> block_taken s (unat b)"
    "\<forall>b \<in> set bs. \<exists>i. owns s n i \<and> unat b = blk s n i"
proof -
  note D = fs_data_invD [OF assms(1)]
  have len: "length bs = unat (i_blocks (inodes s ! n))"
    using live_blocks_le [OF assms(1,2)] D(5) [OF assms(2)] by (simp add: bs_def)
  have nth: "unat (bs ! i) = blk s n i \<and> owns s n i" if "i < length bs" for i
    using that assms(2) len by (simp add: bs_def blk_def owns_def)
  show "\<forall>b \<in> set bs. \<exists>i. owns s n i \<and> unat b = blk s n i"
    using nth by (metis in_set_conv_nth)
  then show "\<forall>b \<in> set bs. unat b < MAX_BLOCKS \<and> block_taken s (unat b)"
    using D(8) by metis
  show "distinct bs"
    unfolding distinct_conv_nth using nth D(9) by metis
qed

text \<open>Returning the live blocks of an inode leaves those of every other inode taken.\<close>

lemma release_spec:
  assumes "fs_data_inv s" and "n < MAX_INODES"
  defines "s1 \<equiv> free_list (take (unat (i_blocks (inodes s ! n))) (i_block (inodes s ! n))) s"
  shows "block_shape s1" "counted MAX_BLOCKS block_taken free_blocks s1"
    "\<And>m i. owns s m i \<Longrightarrow> m \<noteq> n \<Longrightarrow> block_taken s1 (blk s m i)"
    "\<And>j. j < MAX_BLOCKS \<Longrightarrow> block_taken s1 j \<longleftrightarrow>
       block_taken s j \<and> \<not> (j \<noteq> 0 \<and> (\<exists>i. owns s n i \<and> blk s n i = j))"
proof -
  note D = fs_data_invD [OF assms(1)]
  note L = live_blocks [OF assms(1,2)]
  let ?bs = "take (unat (i_blocks (inodes s ! n))) (i_block (inodes s ! n))"
  note F = free_list_spec [OF D(2,13) L(1,2), folded s1_def]
  show "block_shape s1" "counted MAX_BLOCKS block_taken free_blocks s1" using F by blast+
  have mem: "(\<exists>b \<in> set ?bs. b \<noteq> 0 \<and> unat b = j) \<longleftrightarrow> j \<noteq> 0 \<and> (\<exists>i. owns s n i \<and> blk s n i = j)" for j
  proof
    assume "\<exists>b \<in> set ?bs. b \<noteq> 0 \<and> unat b = j"
    then show "j \<noteq> 0 \<and> (\<exists>i. owns s n i \<and> blk s n i = j)" using L(3) by (metis unat_eq_0)
  next
    assume j: "j \<noteq> 0 \<and> (\<exists>i. owns s n i \<and> blk s n i = j)"
    then obtain i where i: "owns s n i" "blk s n i = j" by blast
    have "i_block (inodes s ! n) ! i \<in> set ?bs"
      using i(1) D(5) [OF assms(2)] live_blocks_le [OF assms(1,2)]
      by (auto simp: owns_def in_set_conv_nth intro!: exI [of _ i])
    then show "\<exists>b \<in> set ?bs. b \<noteq> 0 \<and> unat b = j"
      using i(2) j by (auto simp: blk_def intro!: bexI [of _ "i_block (inodes s ! n) ! i"])
  qed
  show T: "block_taken s1 j \<longleftrightarrow> block_taken s j \<and> \<not> (j \<noteq> 0 \<and> (\<exists>i. owns s n i \<and> blk s n i = j))"
    if "j < MAX_BLOCKS" for j
    using F that mem by blast
  show "block_taken s1 (blk s m i)" if "owns s m i" "m \<noteq> n" for m i
  proof -
    have "\<not> (\<exists>j. owns s n j \<and> blk s n j = blk s m i)"
      using D(9) [OF that(1)] that(2) by metis
    then show ?thesis using T D(8) [OF that(1)] by metis
  qed
qed

lemma release_old_blocks_inv:
  assumes "fs_data_inv s" and "valid_ino n"
  shows "release_old_blocks n s =
     Inr (free_list (take (unat (i_blocks (get_inode n s))) (i_block (get_inode n s))) s)"
  using live_blocks_le [OF assms(1) ino_ix_lt [OF assms(2)]]
    fs_data_invD(5) [OF assms(1) ino_ix_lt [OF assms(2)]]
  by (intro release_old_blocks_eq) (simp add: get_inode_def)

section \<open>Writing\<close>

text \<open>The block count of the code and its wrap-around.\<close>

lemma blocks_needed_eq:
  assumes "unat sz + 1023 < 4294967296"
  shows "unat ((sz + of_nat BLOCK_SIZE - 1) div of_nat BLOCK_SIZE :: u32) = blocks_for (unat sz)"
proof -
  have "unat (sz + 1023) = unat sz + 1023"
    using assms by (simp add: unat_word_ariths)
  moreover have "(sz + of_nat BLOCK_SIZE - 1) div of_nat BLOCK_SIZE = (sz + 1023) div (1024 :: u32)"
    by (simp add: add.commute)
  moreover have "unat ((sz + 1023) div 1024) = unat (sz + 1023) div unat (1024 :: u32)"
    by (rule unat_div)
  moreover have "unat (1024 :: u32) = 1024" by simp
  ultimately show ?thesis by (simp only: blocks_for_def)
qed

lemma blocks_for_le: "blocks_for n \<le> k \<longleftrightarrow> n \<le> k * BLOCK_SIZE"
  unfolding blocks_for_def by arith

lemma blocks_for_covers: "n \<le> blocks_for n * BLOCK_SIZE"
  using blocks_for_le [of n "blocks_for n"] by simp

lemma blocks_for_start: "i < blocks_for n \<Longrightarrow> i * BLOCK_SIZE \<le> n"
  using blocks_for_le [of n i] by simp

text \<open>
  What a successful write of the data \<open>d\<close> to the inode in slot \<open>x\<close> achieves: the file holds the
  data, every other inode and its contents are as before, the directory is untouched.
\<close>

definition stored :: "bkfs \<Rightarrow> nat \<Rightarrow> char list \<Rightarrow> bkfs \<Rightarrow> bool" where
  "stored s x d s' \<longleftrightarrow> fs_data_inv s' \<and> content s' x = d \<and>
     unat (i_size (inodes s' ! x)) = length d \<and>
     (\<forall>m<MAX_INODES. m \<noteq> x \<longrightarrow> inodes s' ! m = inodes s ! m \<and> content s' m = content s m) \<and>
     files s' = files s \<and> file_count s' = file_count s \<and> current_inode s' = current_inode s \<and>
     (\<forall>m<MAX_INODES. inode_taken s' m = inode_taken s m)"

lemma fs_data_invI:
  assumes "inode_shape s" "block_shape s" "length (files s) = MAX_FILES" "file_count s \<le> MAX_FILES"
    "\<And>n. n < MAX_INODES \<Longrightarrow> length (i_block (inodes s ! n)) = INODE_DIRECT_BLOCKS"
    "\<And>b. b < MAX_BLOCKS \<Longrightarrow> length (blocks s b) = BLOCK_SIZE"
    "\<And>i. i < MAX_FILES \<Longrightarrow> length (f_name (files s ! i)) = 32"
    "\<And>n i. owns s n i \<Longrightarrow> i < INODE_DIRECT_BLOCKS \<and> blk s n i < MAX_BLOCKS \<and> block_taken s (blk s n i)"
    "\<And>n i m j. owns s n i \<Longrightarrow> owns s m j \<Longrightarrow> blk s n i = blk s m j \<Longrightarrow> n = m \<and> i = j"
    "\<And>n. n < MAX_INODES \<Longrightarrow>
       unat (i_blocks (inodes s ! n)) = blocks_for (unat (i_size (inodes s ! n)))"
    "\<And>n. n < MAX_INODES \<Longrightarrow> \<not> inode_taken s n \<Longrightarrow> i_size (inodes s ! n) = 0"
    "counted MAX_INODES inode_taken free_inodes s" "counted MAX_BLOCKS block_taken free_blocks s"
  shows "fs_data_inv s"
  unfolding fs_data_inv_def fs_shape_def fs_owned_def fs_sized_def fs_counted_def
  using assms by blast

text \<open>Only the sizes, the block arrays and the modes of the inodes enter the invariant.\<close>

lemma inode_counted_cong:
  assumes "\<forall>m<MAX_INODES. inode_taken s' m = inode_taken s m" and "free_inodes s' = free_inodes s"
  shows "counted MAX_INODES inode_taken free_inodes s' = counted MAX_INODES inode_taken free_inodes s"
proof -
  have "{i. i < MAX_INODES \<and> \<not> inode_taken s' i} = {i. i < MAX_INODES \<and> \<not> inode_taken s i}"
    using assms(1) by auto
  then show ?thesis using assms(2) by (simp add: counted_def)
qed

lemma content_cong:
  assumes "inodes s' ! m = inodes s ! m"
    and "\<And>i. i < unat (i_blocks (inodes s ! m)) \<Longrightarrow> blocks s' (blk s m i) = blocks s (blk s m i)"
  shows "content s' m = content s m"
proof -
  have "map (\<lambda>i. blocks s' (blk s' m i)) [0..<unat (i_blocks (inodes s ! m))] =
      map (\<lambda>i. blocks s (blk s m i)) [0..<unat (i_blocks (inodes s ! m))]"
    using assms by (intro map_cong) (simp_all add: blk_def)
  then show ?thesis unfolding content_def assms(1) by (rule arg_cong)
qed

text \<open>
  The state after the copy loop, described by the new block list \<open>bl\<close> of the inode in slot \<open>x\<close>
  and the new block contents \<open>B\<close>.
\<close>

definition rewritten :: "bkfs \<Rightarrow> bkfs \<Rightarrow> nat \<Rightarrow> char list \<Rightarrow> u32 list \<Rightarrow> bkfs \<Rightarrow> bool" where
  "rewritten s s1 x d bl t \<longleftrightarrow>
     inode_shape t \<and> block_shape t \<and> files t = files s \<and> file_count t = file_count s \<and>
     current_inode t = current_inode s \<and> free_inodes t = free_inodes s \<and>
     counted MAX_BLOCKS block_taken free_blocks t \<and>
     (\<forall>m<MAX_INODES. m \<noteq> x \<longrightarrow> inodes t ! m = inodes s ! m) \<and>
     i_mode (inodes t ! x) = i_mode (inodes s ! x) \<and>
     i_block (inodes t ! x) = bl \<and> length bl = INODE_DIRECT_BLOCKS \<and>
     unat (i_size (inodes t ! x)) = length d \<and>
     unat (i_blocks (inodes t ! x)) = blocks_for (length d) \<and>
     (\<forall>j<blocks_for (length d). unat (bl ! j) < MAX_BLOCKS \<and> \<not> block_taken s1 (unat (bl ! j))) \<and>
     (\<forall>i<blocks_for (length d). \<forall>j<blocks_for (length d). bl ! i = bl ! j \<longrightarrow> i = j) \<and>
     (\<forall>b<MAX_BLOCKS. block_taken t b \<longleftrightarrow>
        block_taken s1 b \<or> (\<exists>j<blocks_for (length d). unat (bl ! j) = b)) \<and>
     (\<forall>b<MAX_BLOCKS. length (blocks t b) = BLOCK_SIZE) \<and>
     (\<forall>b. (\<forall>i<blocks_for (length d). unat (bl ! i) \<noteq> b) \<longrightarrow> blocks t b = blocks s b) \<and>
     (\<forall>i<blocks_for (length d). chunk_ok (length d) d i (blocks t (unat (bl ! i))))"

lemma rewrittenD:
  assumes "rewritten s s1 x d bl t"
  shows "inode_shape t" "block_shape t" "files t = files s" "file_count t = file_count s"
    "current_inode t = current_inode s" "free_inodes t = free_inodes s"
    "counted MAX_BLOCKS block_taken free_blocks t"
    "\<And>m. m < MAX_INODES \<Longrightarrow> m \<noteq> x \<Longrightarrow> inodes t ! m = inodes s ! m"
    "i_mode (inodes t ! x) = i_mode (inodes s ! x)"
    "i_block (inodes t ! x) = bl" "length bl = INODE_DIRECT_BLOCKS"
    "unat (i_size (inodes t ! x)) = length d" "unat (i_blocks (inodes t ! x)) = blocks_for (length d)"
    "\<And>j. j < blocks_for (length d) \<Longrightarrow> unat (bl ! j) < MAX_BLOCKS \<and> \<not> block_taken s1 (unat (bl ! j))"
    "\<And>i j. i < blocks_for (length d) \<Longrightarrow> j < blocks_for (length d) \<Longrightarrow> bl ! i = bl ! j \<Longrightarrow> i = j"
    "\<And>b. b < MAX_BLOCKS \<Longrightarrow> block_taken t b \<longleftrightarrow>
        block_taken s1 b \<or> (\<exists>j<blocks_for (length d). unat (bl ! j) = b)"
    "\<And>b. b < MAX_BLOCKS \<Longrightarrow> length (blocks t b) = BLOCK_SIZE"
    "\<And>b. (\<And>i. i < blocks_for (length d) \<Longrightarrow> unat (bl ! i) \<noteq> b) \<Longrightarrow> blocks t b = blocks s b"
    "\<And>i. i < blocks_for (length d) \<Longrightarrow> chunk_ok (length d) d i (blocks t (unat (bl ! i)))"
  using assms unfolding rewritten_def by simp_all

lemma rewritten_content:
  assumes "rewritten s s1 x d bl t"
  shows "content t x = d"
proof -
  let ?k = "blocks_for (length d)"
  let ?f = "\<lambda>i. blocks t (unat (bl ! i))"
  have "take (min (length d) (?k * BLOCK_SIZE)) (concat (map ?f [0..<?k])) =
      take (min (length d) (?k * BLOCK_SIZE)) d"
    using assms by (intro concat_chunks) (auto simp: rewritten_def)
  moreover have "min (length d) (?k * BLOCK_SIZE) = length d"
    using blocks_for_covers [of "length d"] by simp
  ultimately show ?thesis using assms by (simp add: content_def blk_def rewritten_def)
qed

lemma rewritten_stored:
  assumes inv: "fs_data_inv s" and x: "x < MAX_INODES" and tk: "inode_taken s x"
    and others: "\<And>m i. owns s m i \<Longrightarrow> m \<noteq> x \<Longrightarrow> block_taken s1 (blk s m i)"
    and k: "blocks_for (length d) \<le> INODE_DIRECT_BLOCKS" and R: "rewritten s s1 x d bl t"
  shows "stored s x d t"
proof -
  note D = fs_data_invD [OF inv] and r = rewrittenD [OF R]
  have taken: "\<forall>m<MAX_INODES. inode_taken t m = inode_taken s m"
    using r(8,9) unfolding inode_taken_def by metis
  have old: "owns t m i \<longleftrightarrow> owns s m i" "blk t m i = blk s m i" if "m < MAX_INODES" "m \<noteq> x" for m i
    using r(8) [OF that] by (simp_all add: owns_def blk_def)
  have new: "owns t x i \<longleftrightarrow> i < blocks_for (length d)" "blk t x i = unat (bl ! i)" for i
    using r(10,13) x by (simp_all add: owns_def blk_def)
  have fresh: "unat (bl ! j) \<noteq> blk s m i" if "owns s m i" "m \<noteq> x" "j < blocks_for (length d)" for m i j
    using others [OF that(1,2)] r(14) [OF that(3)] by metis
  have lt: "\<And>m i. owns t m i \<Longrightarrow> m < MAX_INODES" by (simp add: owns_def)
  have o: "i < INODE_DIRECT_BLOCKS \<and> blk t m i < MAX_BLOCKS \<and> block_taken t (blk t m i)"
    if a: "owns t m i" for m i
  proof (cases "m = x")
    case True
    then have "i < blocks_for (length d)" using a new by simp
    then show ?thesis using k True new(2) r(14) [of i] r(16) [of "unat (bl ! i)"] by auto
  next
    case False
    note f = old [OF lt [OF a] False]
    then have "owns s m i" using a by simp
    then show ?thesis using f D(8) [of m i] others [OF _ False] r(16) by simp
  qed
  have inj: "m = m' \<and> i = i'" if a: "owns t m i" "owns t m' i'" "blk t m i = blk t m' i'" for m i m' i'
  proof -
    note l = lt [OF a(1)] lt [OF a(2)]
    consider "m = x" "m' = x" | "m = x" "m' \<noteq> x" | "m \<noteq> x" "m' = x" | "m \<noteq> x" "m' \<noteq> x" by blast
    then show ?thesis
    proof cases
      case 1
      then have "bl ! i = bl ! i'" using a(3) new(2) by (metis unsigned_word_eqI)
      then show ?thesis using 1 a(1,2) new(1) r(15) by simp
    next
      case 2
      then show ?thesis using a old [OF l(2)] new fresh [of m' i' i] by simp
    next
      case 3
      then show ?thesis using a old [OF l(1)] new fresh [of m i i'] by simp
    next
      case 4
      then show ?thesis using a old [OF l(1)] old [OF l(2)] D(9) [of m i m' i'] by simp
    qed
  qed
  have "fs_data_inv t"
  proof (rule fs_data_invI)
    show "counted MAX_INODES inode_taken free_inodes t"
      using inode_counted_cong [OF taken r(6)] D(12) by simp
    show "unat (i_blocks (inodes t ! n)) = blocks_for (unat (i_size (inodes t ! n)))"
      if "n < MAX_INODES" for n
      using that r(8,12,13) D(10) by (cases "n = x") simp_all
    show "length (i_block (inodes t ! n)) = INODE_DIRECT_BLOCKS" if "n < MAX_INODES" for n
      using that r(8,10,11) D(5) by (cases "n = x") simp_all
    show "i_size (inodes t ! n) = 0" if "n < MAX_INODES" "\<not> inode_taken t n" for n
      using that taken tk r(8) D(11) by (cases "n = x") auto
  qed (use r(1-7,17) D o inj in simp_all)
  moreover have "content t m = content s m" if "m < MAX_INODES" "m \<noteq> x" for m
  proof (rule content_cong [OF r(8) [OF that]])
    fix i assume "i < unat (i_blocks (inodes s ! m))"
    then have "owns s m i" using that by (simp add: owns_def)
    then show "blocks t (blk s m i) = blocks s (blk s m i)"
      using fresh [OF _ that(2)] by (intro r(18)) simp
  qed
  ultimately show ?thesis
    using r(3-5,8,12) taken rewritten_content [OF R] by (simp add: stored_def)
qed

text \<open>From a successful allocation to the end of the copy loop.\<close>

lemma chunk_ok_take: "chunk_ok L data i nb \<Longrightarrow> L \<le> length data \<Longrightarrow> chunk_ok L (take L data) i nb"
  by (simp add: chunk_ok_def take_drop min_def)

lemma write_copy:
  fixes ticks :: u32
  assumes inv: "fs_data_inv s" and v: "valid_ino n" and data: "unat sz \<le> length data"
    and k: "blocks_for (unat sz) \<le> INODE_DIRECT_BLOCKS" and nd: "unat needed = blocks_for (unat sz)"
    and fr: "inodes s1 = inodes s" "blocks s1 = blocks s" "files s1 = files s"
      "file_count s1 = file_count s" "current_inode s1 = current_inode s" "free_inodes s1 = free_inodes s"
    and al: "alloc_result n [0..<blocks_for (unat sz)] s1 s2"
      "counted MAX_BLOCKS block_taken free_blocks s2"
  defines "s3 \<equiv> upd_inode n (\<lambda>ino. ino\<lparr>i_blocks := needed, i_size := sz, i_mtime := ticks\<rparr>) s2"
  shows "\<exists>r t bl. sfold (copy_block_out n data) [0..<blocks_for (unat sz)] (sz, s3) = Inr (r, t) \<and>
     rewritten s s1 (ino_ix n) (take (unat sz) data) bl t"
proof -
  note D = fs_data_invD [OF inv] and x = ino_ix_lt [OF v]
  have A: "files s2 = files s" "file_count s2 = file_count s" "current_inode s2 = current_inode s"
    "blocks s2 = blocks s" "free_inodes s2 = free_inodes s" "inode_shape s2" "block_shape s2"
    "\<And>m. m < MAX_INODES \<Longrightarrow> m \<noteq> ino_ix n \<Longrightarrow> inodes s2 ! m = inodes s ! m"
    using al(1) fr by (simp_all add: alloc_result_def)
  obtain bl where bl: "get_inode n s2 = (get_inode n s1)\<lparr>i_block := bl\<rparr>" "length bl = INODE_DIRECT_BLOCKS"
    "\<forall>j<blocks_for (unat sz). unat (bl ! j) < MAX_BLOCKS \<and> \<not> block_taken s1 (unat (bl ! j))"
    "\<forall>i<blocks_for (unat sz). \<forall>j<blocks_for (unat sz). bl ! i = bl ! j \<longrightarrow> i = j"
    "\<forall>b<MAX_BLOCKS. block_taken s2 b \<longleftrightarrow>
       block_taken s1 b \<or> (\<exists>j<blocks_for (unat sz). unat (bl ! j) = b)"
    using al(1) by (auto simp: alloc_result_def Ball_def Bex_def)
  have g3: "get_inode n s3 = (get_inode n s)\<lparr>i_block := bl, i_blocks := needed, i_size := sz, i_mtime := ticks\<rparr>"
    using get_upd_inode [OF A(6) x] bl(1) fr(1) by (simp add: s3_def get_inode_def)
  obtain r B where C: "sfold (copy_block_out n data) [0..<blocks_for (unat sz)] (sz, s3) = Inr (r, s3\<lparr>blocks := B\<rparr>)"
    "\<forall>b<MAX_BLOCKS. length (B b) = BLOCK_SIZE"
    "\<forall>b. (\<forall>i<blocks_for (unat sz). unat (bl ! i) \<noteq> b) \<longrightarrow> B b = blocks s b"
    "\<forall>i<blocks_for (unat sz). chunk_ok (unat sz) data i (B (unat (bl ! i)))"
    using copy_out_spec [of bl n s3 "blocks_for (unat sz)" sz data "blocks_for (unat sz)"]
      g3 bl k data D(6) A(4) blocks_for_start [of _ "unat sz"] by (auto simp: s3_def)
  let ?t = "s3\<lparr>blocks := B\<rparr>"
  have ix: "inodes ?t ! ino_ix n = get_inode n s3" by (simp add: get_inode_def)
  have io: "inodes ?t ! m = inodes s ! m" if "m < MAX_INODES" "m \<noteq> ino_ix n" for m
    using nth_upd_inode [OF A(6) that(1)] A(8) [OF that] that(2) by (simp add: s3_def)
  have bt: "block_taken ?t b = block_taken s2 b" for b by (simp add: block_taken_def s3_def)
  have ct: "counted MAX_BLOCKS block_taken free_blocks ?t"
    using al(2) counted_blocks_cong [of ?t s2] by (simp add: s3_def)
  have sh: "inode_shape ?t" "block_shape ?t"
    using A(6,7) by (simp_all add: s3_def inode_shape_def block_shape_def upd_inode_def)
  have len: "length (take (unat sz) data) = unat sz" using data by simp
  have "rewritten s s1 (ino_ix n) (take (unat sz) data) bl ?t"
    unfolding rewritten_def len
    using sh ct A(1-5) io ix g3 bl nd C(2-4) data bt
    by (simp add: s3_def get_inode_def [of n s] chunk_ok_take)
  then show ?thesis using C(1) by blast
qed

text \<open>The blocks a file can be rewritten with: the free ones and its own, except block 0.\<close>

definition room :: "bkfs \<Rightarrow> nat \<Rightarrow> nat" where
  "room s x = card {b. b < MAX_BLOCKS \<and> (\<not> block_taken s b \<or> b \<noteq> 0 \<and> (\<exists>i. owns s x i \<and> blk s x i = b))}"

lemma fs_write_file_outcome:
  assumes inv: "fs_data_inv s" and v: "valid_ino n" and tk: "inode_taken s (ino_ix n)"
    and data: "unat sz \<le> length data" and fits: "unat sz \<le> INODE_DIRECT_BLOCKS * BLOCK_SIZE"
  shows "\<exists>s'. fs_write_file ticks n data sz s =
       Inr (if blocks_for (unat sz) \<le> room s (ino_ix n) then FS_SUCCESS else FS_ERROR, s') \<and>
     (blocks_for (unat sz) \<le> room s (ino_ix n) \<longrightarrow> stored s (ino_ix n) (take (unat sz) data) s')"
proof -
  define needed where "needed = ((sz + of_nat BLOCK_SIZE - 1) div of_nat BLOCK_SIZE :: u32)"
  define k where "k = blocks_for (unat sz)"
  note D = fs_data_invD [OF inv] and x = ino_ix_lt [OF v]
  define s1 where "s1 = free_list (take (unat (i_blocks (get_inode n s))) (i_block (get_inode n s))) s"
  have s1: "s1 = free_list (take (unat (i_blocks (inodes s ! ino_ix n))) (i_block (inodes s ! ino_ix n))) s"
    by (simp add: s1_def get_inode_def)
  note rel = release_spec [OF inv x, folded s1]
  have nd: "unat needed = k" using blocks_needed_eq [of sz] fits by (simp add: needed_def k_def)
  have k: "k \<le> INODE_DIRECT_BLOCKS" using fits by (simp add: k_def blocks_for_le)
  then have small: "\<not> needed > of_nat INODE_DIRECT_BLOCKS" using nd by (simp add: word_less_nat_alt)
  have room: "n_free_blocks s1 = room s (ino_ix n)"
    unfolding n_free_blocks_def room_def
  proof (intro arg_cong [where f = card] Collect_cong conj_cong refl)
    fix b assume "b < MAX_BLOCKS"
    from rel(4) [OF this]
    show "(\<not> block_taken s1 b) =
        (\<not> block_taken s b \<or> b \<noteq> 0 \<and> (\<exists>i. owns s (ino_ix n) i \<and> blk s (ino_ix n) i = b))"
      by argo
  qed
  have W: "fs_write_file ticks n data sz s =
      (let (ok, s2) = alloc_blocks n [0..<k] s1
       in if \<not> ok then Inr (FS_ERROR, s2)
          else sbind (sfold (copy_block_out n data) [0..<k] (sz, upd_inode n (\<lambda>ino. ino\<lparr>i_blocks := needed,
                  i_size := sz, i_mtime := ticks\<rparr>) s2)) (\<lambda>(remaining, s4). Inr (FS_SUCCESS, s4)))"
    using v small release_old_blocks_inv [OF inv v] nd
    by (simp add: fs_write_file_def Let_def s1_def needed_def [symmetric] split: prod.split del: of_nat_numeral)
  obtain ok s2 where al: "alloc_blocks n [0..<k] s1 = (ok, s2)" by (cases "alloc_blocks n [0..<k] s1")
  have ok: "ok \<longleftrightarrow> k \<le> room s (ino_ix n)"
    using alloc_blocks_enough [OF rel(1,2), of n "[0..<k]"] al room by simp
  show ?thesis
  proof (cases ok)
    case False
    then show ?thesis using W al ok by (auto simp: k_def)
  next
    case True
    have "alloc_result n [0..<k] s1 s2 \<and> counted MAX_BLOCKS block_taken free_blocks s2"
      using True al rel(1,2) v D(1,5) x k
      by (intro alloc_blocks_spec) (auto simp: s1_def inode_shape_def get_inode_def)
    then obtain r t bl where t: "sfold (copy_block_out n data) [0..<k] (sz, upd_inode n (\<lambda>ino. ino\<lparr>i_blocks := needed,
          i_size := sz, i_mtime := ticks\<rparr>) s2) = Inr (r, t)"
      "rewritten s s1 (ino_ix n) (take (unat sz) data) bl t"
      using write_copy [OF inv v data, of needed s1 s2 ticks] k nd by (auto simp: k_def s1_def)
    have "stored s (ino_ix n) (take (unat sz) data) t"
      using rewritten_stored [OF inv x tk rel(3) _ t(2)] k data by (simp add: k_def min_def)
    then show ?thesis using W al True t(1) ok by (auto simp: k_def)
  qed
qed

lemma fs_write_file_too_large:
  assumes "valid_ino n" and "INODE_DIRECT_BLOCKS * BLOCK_SIZE < unat sz" and "unat sz + 1023 < 4294967296"
  shows "fs_write_file ticks n data sz s = Inr (FS_ERROR, s)"
proof -
  have "\<not> blocks_for (unat sz) \<le> INODE_DIRECT_BLOCKS" using assms(2) by (simp add: blocks_for_le)
  then have "(sz + of_nat BLOCK_SIZE - 1) div of_nat BLOCK_SIZE > (of_nat INODE_DIRECT_BLOCKS :: u32)"
    unfolding word_less_nat_alt blocks_needed_eq [OF assms(3)] by simp
  then show ?thesis using assms(1) by (simp add: fs_write_file_def Let_def del: of_nat_numeral)
qed


section \<open>Reading\<close>

lemma length_content:
  assumes "fs_data_inv s" and "x < MAX_INODES"
  shows "length (content s x) = unat (i_size (inodes s ! x))"
proof -
  note D = fs_data_invD [OF assms(1)]
  let ?k = "unat (i_blocks (inodes s ! x))"
  have "length (concat (map (\<lambda>i. blocks s (blk s x i)) [0..<j])) = j * BLOCK_SIZE" if "j \<le> ?k" for j
    using that
  proof (induction j)
    case (Suc j)
    then have "owns s x j" using assms(2) by (simp add: owns_def)
    then show ?case using Suc D(6,8) by simp
  qed simp
  then show ?thesis
    using D(10) [OF assms(2)] blocks_for_covers [of "unat (i_size (inodes s ! x))"]
    by (simp add: content_def)
qed

lemma size_le:
  assumes "fs_data_inv s" and "x < MAX_INODES"
  shows "unat (i_size (inodes s ! x)) \<le> INODE_DIRECT_BLOCKS * BLOCK_SIZE"
  using live_blocks_le [OF assms] fs_data_invD(10) [OF assms] by (simp add: blocks_for_le)

lemma sint_small: "unat (w :: u32) < 2147483648 \<Longrightarrow> sint w = int (unat w)"
proof -
  assume "unat w < 2147483648"
  then have "int (unat w) < 2147483648" by linarith
  then have "uint w < 2147483648" by simp
  moreover have "- 2147483648 \<le> uint w" by (rule order_trans [of _ 0]) simp_all
  ultimately have "signed_take_bit 31 (uint w) = uint w" by (intro signed_take_bit_int_eq_self) simp_all
  then show ?thesis by (simp add: sint_uint)
qed

text \<open>
  Reading fills the buffer with the first bytes of the file, up to the size asked for or the end
  of the file, leaves the rest of the buffer alone and stamps the access time.
\<close>

lemma fs_read_file_content:
  assumes inv: "fs_data_inv s" and v: "valid_ino n" and buf: "unat sz \<le> length buf"
  defines "m \<equiv> min (unat sz) (length (content s (ino_ix n)))"
  shows "fs_read_file ticks n buf sz s =
    Inr (int m, take m (content s (ino_ix n)) @ drop m buf, upd_inode n (\<lambda>ino. ino\<lparr>i_atime := ticks\<rparr>) s)"
proof -
  note D = fs_data_invD [OF inv] and x = ino_ix_lt [OF v]
  let ?x = "ino_ix n"
  let ?ino = "inodes s ! ?x"
  let ?k = "unat (i_blocks ?ino)"
  define sz1 where "sz1 = (if sz > i_size ?ino then i_size ?ino else sz)"
  have L: "length (content s ?x) = unat (i_size ?ino)" using length_content [OF inv x] .
  have m: "unat sz1 = m" by (auto simp: sz1_def m_def L word_less_nat_alt)
  have k: "?k \<le> INODE_DIRECT_BLOCKS" using live_blocks_le [OF inv x] .
  have small: "\<forall>i<?k. unat (i_block ?ino ! i) < MAX_BLOCKS"
    using D(8) x by (auto simp: owns_def blk_def)
  have mk: "min m (?k * BLOCK_SIZE) = m"
    using blocks_for_covers [of "unat (i_size ?ino)"] D(10) [OF x] by (simp add: m_def L)
  obtain r where r: "sfold (copy_block_in ?ino s) [0..<?k] (sz1, buf) =
      Inr (r, take m (concat (map (\<lambda>i. blocks s (blk s ?x i)) [0..<?k])) @ drop m buf)"
  proof -
    have len: "\<forall>b<MAX_BLOCKS. length (blocks s b) = BLOCK_SIZE" and b1: "unat sz1 \<le> length buf"
      using D(6) m buf by (simp_all add: m_def)
    show thesis
      using copy_in_spec [OF D(5) [OF x] k small len b1 order_refl] that
      unfolding m mk blk_def by blast
  qed
  have "take m (concat (map (\<lambda>i. blocks s (blk s ?x i)) [0..<?k])) = take m (content s ?x)"
    by (simp add: content_def m_def L min_def)
  moreover have "sint sz1 = int m"
    using size_le [OF inv x] m L by (intro trans [OF sint_small]) (auto simp: m_def)
  ultimately show ?thesis
    using v r by (simp add: fs_read_file_def Let_def get_inode_def sz1_def [symmetric])
qed

text \<open>Updating the time stamps of an inode keeps the invariant and every file.\<close>

lemma atime_frame:
  assumes inv: "fs_data_inv s" and x: "ino_ix n < MAX_INODES"
  shows "fs_data_inv (upd_inode n (\<lambda>ino. ino\<lparr>i_atime := ticks\<rparr>) s)"
    and "\<And>m. m < MAX_INODES \<Longrightarrow> content (upd_inode n (\<lambda>ino. ino\<lparr>i_atime := ticks\<rparr>) s) m = content s m"
    and "\<And>m. m < MAX_INODES \<Longrightarrow> inode_taken (upd_inode n (\<lambda>ino. ino\<lparr>i_atime := ticks\<rparr>) s) m = inode_taken s m"
proof -
  note D = fs_data_invD [OF inv]
  let ?t = "upd_inode n (\<lambda>ino. ino\<lparr>i_atime := ticks\<rparr>) s"
  have I: "i_blocks (inodes ?t ! m) = i_blocks (inodes s ! m)" "i_block (inodes ?t ! m) = i_block (inodes s ! m)"
    "i_size (inodes ?t ! m) = i_size (inodes s ! m)" "i_mode (inodes ?t ! m) = i_mode (inodes s ! m)"
    if "m < MAX_INODES" for m
    using nth_upd_inode [OF D(1) that, of n] by simp_all
  show tk: "inode_taken ?t m = inode_taken s m" if "m < MAX_INODES" for m
    using I [OF that] by (simp add: inode_taken_def)
  have ow: "owns ?t = owns s" using I by (auto simp: owns_def fun_eq_iff)
  have bl: "blk ?t m i = blk s m i" if "m < MAX_INODES" for m i
    using I [OF that] by (simp add: blk_def)
  have lt: "owns s m i \<Longrightarrow> m < MAX_INODES" for m i by (simp add: owns_def)
  show "fs_data_inv ?t"
  proof (rule fs_data_invI)
    show "counted MAX_INODES inode_taken free_inodes ?t"
      using inode_counted_cong [of ?t s] tk D(12) by simp
    show "counted MAX_BLOCKS block_taken free_blocks ?t"
      using counted_blocks_cong [of ?t s] D(13) by simp
    show "m = m' \<and> i = i'" if "owns ?t m i" "owns ?t m' i'" "blk ?t m i = blk ?t m' i'" for m i m' i'
      using that ow bl lt D(9) by metis
    show "i < INODE_DIRECT_BLOCKS \<and> blk ?t m i < MAX_BLOCKS \<and> block_taken ?t (blk ?t m i)"
      if "owns ?t m i" for m i
      using that ow bl [OF lt] D(8) by auto
  qed (use D I tk in simp_all)
  show "content ?t m = content s m" if "m < MAX_INODES" for m
    using I [OF that] bl [OF that] by (simp add: content_def)
qed

end
