(* ===== verification/Bkfs_Dir.thy ===== *)
theory Bkfs_Dir imports Bkfs_Ops begin

text \<open>
  The directory table against the invariant: creating an entry and deleting one. Creation never
  runs out of inodes before it runs out of entries, and a name that does not fit the 32 byte
  field makes \<open>strncpy\<close> run off the tables.
\<close>

section \<open>Replacing an inode by an empty one\<close>

lemma blank_inode:
  assumes inv: "fs_data_inv s" and i: "i < MAX_INODES" and t: "inodes t = (inodes s)[i := ino]"
    and ino: "i_blocks ino = 0" "i_size ino = 0" "length (i_block ino) = INODE_DIRECT_BLOCKS"
    and bl: "blocks t = blocks s" "block_shape t"
    and fl: "length (files t) = MAX_FILES" "file_count t \<le> MAX_FILES"
      "\<forall>k<MAX_FILES. length (f_name (files t ! k)) = 32"
    and ct: "counted MAX_INODES inode_taken free_inodes t" "counted MAX_BLOCKS block_taken free_blocks t"
    and keep: "\<And>m j. owns s m j \<Longrightarrow> m \<noteq> i \<Longrightarrow> block_taken t (blk s m j)"
  shows "fs_data_inv t" and "content t i = []"
    and "\<And>m. m < MAX_INODES \<Longrightarrow> m \<noteq> i \<Longrightarrow> inodes t ! m = inodes s ! m \<and> content t m = content s m"
proof -
  note D = fs_data_invD [OF inv]
  have len: "length (inodes s) = MAX_INODES" using D(1) by (simp add: inode_shape_def)
  have I: "inodes t ! m = (if m = i then ino else inodes s ! m)" if "m < MAX_INODES" for m
    using that t len by (simp add: nth_list_update)
  have ow: "owns t m j \<longleftrightarrow> owns s m j \<and> m \<noteq> i" for m j
    using I ino by (cases "m = i") (auto simp: owns_def)
  have bk: "blk t m j = blk s m j" if "owns s m j" "m \<noteq> i" for m j
    using I [of m] that by (simp add: blk_def owns_def)
  show "fs_data_inv t"
  proof (rule fs_data_invI)
    show "inode_shape t" using t len by (simp add: inode_shape_def)
    show "m = m' \<and> j = j'" if "owns t m j" "owns t m' j'" "blk t m j = blk t m' j'" for m j m' j'
      using that ow bk D(9) by metis
    show "j < INODE_DIRECT_BLOCKS \<and> blk t m j < MAX_BLOCKS \<and> block_taken t (blk t m j)"
      if "owns t m j" for m j
      using that ow bk keep D(8) by metis
  qed (use D I ino bl fl ct in \<open>auto simp: blocks_for_def inode_taken_def\<close>)
  show "content t i = []" using I [OF i] ino by (simp add: content_def)
  show "inodes t ! m = inodes s ! m \<and> content t m = content s m" if "m < MAX_INODES" "m \<noteq> i" for m
    using I [OF that(1)] that(2) bl(1) by (simp add: content_def blk_def)
qed

section \<open>Names\<close>

lemma fs_invD:
  assumes "fs_inv s"
  shows "fs_data_inv s" "5 \<le> file_count s" "\<And>i. i < 5 \<Longrightarrow> files s ! i = zero_file"
    "\<And>i. 5 \<le> i \<Longrightarrow> i < file_count s \<Longrightarrow> valid_ino (f_inode (files s ! i))"
    "\<And>i. 5 \<le> i \<Longrightarrow> i < file_count s \<Longrightarrow> inode_taken s (ino_ix (f_inode (files s ! i)))"
    "\<And>i j. 5 \<le> i \<Longrightarrow> i < file_count s \<Longrightarrow> 5 \<le> j \<Longrightarrow> j < file_count s \<Longrightarrow>
       f_inode (files s ! i) = f_inode (files s ! j) \<Longrightarrow> i = j"
    "\<And>n. n < MAX_INODES \<Longrightarrow> inode_taken s n \<Longrightarrow>
       \<exists>i. 5 \<le> i \<and> i < file_count s \<and> ino_ix (f_inode (files s ! i)) = n"
  using assms unfolding fs_inv_def fs_named_def by blast+

text \<open>Every inode in use has an entry of its own, so there is a free inode while there is room for an entry.\<close>

lemma free_slot_exists:
  assumes "fs_inv s" and "file_count s < MAX_FILES"
  shows "\<exists>i<MAX_INODES. \<not> inode_taken s i"
proof (rule ccontr)
  assume "\<not> ?thesis"
  then have "{..<MAX_INODES} \<subseteq> (\<lambda>i. ino_ix (f_inode (files s ! i))) ` {5..<file_count s}"
    using fs_invD(7) [OF assms(1)] by (fastforce simp: image_iff)
  then have "card {..<MAX_INODES} \<le> card {5..<file_count s}"
    by (rule surj_card_le [rotated]) simp
  then show False using assms(2) by simp
qed

lemma alloc_inode_ok:
  assumes "fs_inv s" and "file_count s < MAX_FILES"
  shows "\<exists>i. i < MAX_INODES \<and> \<not> inode_taken s i \<and>
    fs_alloc_inode s = (int i + 1, s\<lparr>inodes := (inodes s)[i := zero_inode\<lparr>i_mode := 1\<rparr>],
                                     free_inodes := free_inodes s - 1\<rparr>)"
proof -
  obtain j where j: "j < MAX_INODES" "\<not> inode_taken s j" using free_slot_exists [OF assms] by blast
  have "{i. i < MAX_INODES \<and> \<not> inode_taken s i} \<noteq> {}" using j by blast
  then have "unat (free_inodes s) \<noteq> 0"
    using fs_data_invD(12) [OF fs_invD(1) [OF assms(1)]] by (simp add: counted_def)
  then have "free_inodes s \<noteq> 0" by auto
  moreover obtain i where i: "first_index (\<lambda>i. i_mode (inodes s ! i) = 0) MAX_INODES = Some i"
    using first_index_exists [OF j(1), of "\<lambda>i. i_mode (inodes s ! i) = 0"] j(2) that
    by (auto simp: inode_taken_def)
  ultimately show ?thesis
    using i [unfolded first_index_Some] by (intro exI [of _ i]) (simp add: fs_alloc_inode_def inode_taken_def)
qed

section \<open>Creation\<close>

text \<open>
  What creating the entry \<open>e\<close> achieves: it is appended, its inode was free and is now an empty
  file, every other file and its contents are as before.
\<close>

definition created :: "bkfs \<Rightarrow> file_entry \<Rightarrow> bkfs \<Rightarrow> bool" where
  "created s e s' \<longleftrightarrow> fs_inv s' \<and> entries s' = entries s @ [e] \<and>
     valid_ino (f_inode e) \<and> \<not> inode_taken s (ino_ix (f_inode e)) \<and>
     inode_taken s' (ino_ix (f_inode e)) \<and> content s' (ino_ix (f_inode e)) = [] \<and>
     (\<forall>m<MAX_INODES. m \<noteq> ino_ix (f_inode e) \<longrightarrow>
        inodes s' ! m = inodes s ! m \<and> content s' m = content s m) \<and>
     current_inode s' = current_inode s \<and> free_blocks s' = free_blocks s"

lemma created_state:
  assumes inv: "fs_inv s" and fc: "file_count s < MAX_FILES" and i: "i < MAX_INODES" "\<not> inode_taken s i"
    and e: "f_inode e = 1 + of_nat i" "length (f_name e) = 32"
    and ino: "i_blocks ino = 0" "i_size ino = 0" "length (i_block ino) = INODE_DIRECT_BLOCKS" "i_mode ino \<noteq> 0"
  defines "t \<equiv> s\<lparr>free_inodes := free_inodes s - 1, files := (files s)[file_count s := e],
      inodes := (inodes s)[i := ino], file_count := file_count s + 1\<rparr>"
  shows "created s e t"
proof -
  note F = fs_invD [OF inv]
  note D = fs_data_invD [OF F(1)]
  have x: "valid_ino (f_inode e)" "ino_ix (f_inode e) = i"
    using i(1) e(1) by simp_all
  have len: "length (inodes s) = MAX_INODES" using D(1) by (simp add: inode_shape_def)
  have tk: "inode_taken t m \<longleftrightarrow> m = i \<or> inode_taken s m" if "m < MAX_INODES" for m
    using that len ino(4) i(1) by (auto simp: inode_taken_def t_def nth_list_update)
  have fi: "files t ! k = (if k = file_count s then e else files s ! k)" if "k < file_count t" for k
    using that fc D(3) by (simp add: t_def nth_list_update)
  have c: "counted MAX_INODES inode_taken free_inodes t"
  proof -
    have "{m. m < MAX_INODES \<and> \<not> inode_taken t m} = {m. m < MAX_INODES \<and> m \<noteq> i \<and> \<not> inode_taken s m}"
      using tk by blast
    moreover have "Suc (card {m. m < MAX_INODES \<and> m \<noteq> i \<and> \<not> inode_taken s m}) =
        card {m. m < MAX_INODES \<and> \<not> inode_taken s m}"
      using i by (intro card_filter_upt_remove) auto
    moreover have "free_inodes t = free_inodes s - 1" by (simp add: t_def)
    moreover have "free_inodes s \<noteq> 0"
    proof
      assume "free_inodes s = 0"
      then have "card {m. m < MAX_INODES \<and> \<not> inode_taken s m} = 0"
        using D(12) by (simp add: counted_def)
      then show False using i by auto
    qed
    ultimately show ?thesis using D(12) by (simp add: counted_def unat_minus_one_u32)
  qed
  have sh: "block_shape t" "counted MAX_BLOCKS block_taken free_blocks t"
    using D(2,13) by (simp_all add: t_def block_shape_def counted_def block_taken_def)
  have nm: "\<forall>k<MAX_FILES. length (f_name (files t ! k)) = 32" "length (files t) = MAX_FILES"
    "file_count t \<le> MAX_FILES"
    using D(3,7) e(2) fc by (simp_all add: t_def nth_list_update)
  have it: "inodes t = (inodes s)[i := ino]" and bt: "blocks t = blocks s" by (simp_all add: t_def)
  have keep: "block_taken t (blk s m j)" if "owns s m j" "m \<noteq> i" for m j
    using D(8) [OF that(1)] by (simp add: t_def block_taken_def)
  note B = blank_inode [OF F(1) i(1) it ino(1-3) bt sh(1) nm(2,3,1) c sh(2) keep]
  have "fs_named t"
    unfolding fs_named_def
  proof (intro conjI allI impI)
    have fc': "file_count t = Suc (file_count s)" by (simp add: t_def)
    show "5 \<le> file_count t" using F(2) fc' by simp
    show "files t ! k = zero_file" if "k < 5" for k
      using fi [of k] that F(2,3) fc' by simp
    fix k assume k: "5 \<le> k \<and> k < file_count t"
    show "valid_ino (f_inode (files t ! k))"
      using fi [of k] k x(1) F(4) fc' by simp
    show "inode_taken t (ino_ix (f_inode (files t ! k)))"
      using fi [of k] k x F(4,5) fc' tk i(1) by (simp add: ino_ix_lt)
    fix l assume l: "5 \<le> l \<and> l < file_count t" and eq: "f_inode (files t ! k) = f_inode (files t ! l)"
    have other: "f_inode (files s ! m) \<noteq> f_inode e" if "5 \<le> m" "m < file_count s" for m
      using F(5) [OF that] x(2) i(2) by auto
    show "k = l"
    proof (cases "k = file_count s \<or> l = file_count s")
      case True
      then show ?thesis
        using fi [of k] fi [of l] k l eq fc' other [of k] other [of l] by (cases "k = l") auto
    next
      case False
      then show ?thesis using fi [of k] fi [of l] k l eq fc' F(6) [of k l] by simp
    qed
  next
    fix n assume n: "n < MAX_INODES" "inode_taken t n"
    show "\<exists>k. 5 \<le> k \<and> k < file_count t \<and> ino_ix (f_inode (files t ! k)) = n"
    proof (cases "n = i")
      case True
      then show ?thesis using fi [of "file_count s"] x F(2)
        by (intro exI [of _ "file_count s"]) (simp add: t_def)
    next
      case False
      then obtain k where "5 \<le> k" "k < file_count s" "ino_ix (f_inode (files s ! k)) = n"
        using F(7) [OF n(1)] n tk by blast
      then show ?thesis using fi [of k] by (intro exI [of _ k]) (simp add: t_def)
    qed
  qed
  moreover have "entries t = entries s @ [e]"
    using fc D(3) by (simp add: entries_def t_def take_Suc_conv_app_nth)
  ultimately show ?thesis
    using B x i tk [OF i(1)] by (simp add: created_def fs_inv_def t_def)
qed

lemma create_entry_full: "file_count s \<ge> MAX_FILES \<Longrightarrow> create_entry ticks name parent type s = Inr (FS_ERROR, s)"
  by (simp add: create_entry_def)

lemma create_entry_ok:
  assumes inv: "fs_inv s" and fc: "file_count s < MAX_FILES" and name: "is_cstr name" "length name \<le> 30"
  shows "\<exists>e s'. create_entry ticks name parent type s = Inr (FS_SUCCESS, s') \<and> created s e s' \<and>
     entry_name e = name \<and> f_parent_inode e = parent \<and> f_type e = type \<and> f_size e = 0"
proof -
  note D = fs_data_invD [OF fs_invD(1) [OF inv]]
  obtain i where i: "i < MAX_INODES" "\<not> inode_taken s i"
    "fs_alloc_inode s = (int i + 1, s\<lparr>inodes := (inodes s)[i := zero_inode\<lparr>i_mode := 1\<rparr>],
                                     free_inodes := free_inodes s - 1\<rparr>)"
    using alloc_inode_ok [OF inv fc] by blast
  let ?fc = "file_count s"
  define nm where "nm = name @ replicate (31 - length name) NUL @ drop 31 (f_name (files s ! ?fc))"
  have l: "length (f_name (files s ! ?fc)) = 32" using D(7) fc by simp
  have cp: "strncpy (f_name (files s ! ?fc)) name 31 = Inr nm"
    using strncpy_ok [of name 31 "f_name (files s ! ?fc)"] name(2) l by (simp add: nm_def)
  define e where "e = (files s ! ?fc)\<lparr>f_name := nm, f_inode := 1 + of_nat i, f_parent_inode := parent,
      f_type := type, f_size := 0\<rparr>"
  define ino where "ino = zero_inode\<lparr>i_mode := (if type = FILE_DIR then 0x4000 else 0x8000), i_uid := 0,
      i_gid := 0, i_size := 0, i_atime := ticks, i_ctime := ticks, i_mtime := ticks, i_blocks := 0\<rparr>"
  define t where "t = s\<lparr>free_inodes := free_inodes s - 1, files := (files s)[?fc := e],
      inodes := (inodes s)[i := ino], file_count := ?fc + 1\<rparr>"
  have len: "length (inodes s) = MAX_INODES" using D(1) by (simp add: inode_shape_def)
  have w: "word_of_int (int i + 1) = (1 + of_nat i :: u32)" by simp
  have "create_entry ticks name parent type s = Inr (FS_SUCCESS, t)"
    using fc cp i(1) len
    by (simp add: create_entry_def i(3) Let_def w upd_inode_def get_inode_def ino_def e_def t_def add.commute)
  moreover have "created s e t"
    unfolding t_def
  proof (rule created_state [OF inv fc i(1,2)])
    show "length (f_name e) = 32" using name(2) l by (simp add: e_def nm_def)
    show "i_mode ino \<noteq> 0" by (simp add: ino_def)
  qed (simp_all add: e_def ino_def zero_inode_def)
  moreover have "entry_name e = name"
  proof -
    obtain k where "31 - length name = Suc k" using name(2) by (cases "31 - length name") auto
    then show ?thesis using name(1) by (simp add: entry_name_def e_def nm_def)
  qed
  ultimately show ?thesis by (intro exI [of _ e] exI [of _ t]) (simp add: e_def)
qed

text \<open>A name of 31 or more characters: the counter of \<open>strncpy\<close> wraps and the copy leaves the array.\<close>

lemma create_entry_long_name:
  assumes inv: "fs_inv s" and fc: "file_count s < MAX_FILES" and name: "31 \<le> length name"
  shows "create_entry ticks name parent type s = Inl OutOfBounds"
proof -
  note D = fs_data_invD [OF fs_invD(1) [OF inv]]
  obtain i where i: "i < MAX_INODES" "\<not> inode_taken s i"
    "fs_alloc_inode s = (int i + 1, s\<lparr>inodes := (inodes s)[i := zero_inode\<lparr>i_mode := 1\<rparr>],
                                     free_inodes := free_inodes s - 1\<rparr>)"
    using alloc_inode_ok [OF inv fc] by blast
  have "length (f_name (files s ! file_count s)) = 32" using D(7) fc by simp
  then have "strncpy (f_name (files s ! file_count s)) name 31 = Inl OutOfBounds"
    using name by (intro strncpy_runaway) simp_all
  then show ?thesis using fc i(1) by (simp add: create_entry_def i(3) Let_def)
qed

section \<open>Deletion\<close>

text \<open>The state part of \<open>fs_delete_file\<close> for a valid inode number.\<close>

definition drop_file :: "u32 \<Rightarrow> bkfs \<Rightarrow> bkfs" where
  "drop_file n s = fs_free_inode n (remove_entry n (free_inode_blocks n s))"

text \<open>The shifting loop moves every later element one place down.\<close>

lemma shift_down:
  "i \<le> k \<Longrightarrow> k < length xs \<Longrightarrow>
   fold (\<lambda>j xs. xs[j := xs ! (j + 1)]) [i..<k] xs =
     take i xs @ take (k - i) (drop (Suc i) xs) @ drop k xs"
proof (induction k)
  case (Suc k)
  show ?case
  proof (cases "i = Suc k")
    case True
    then show ?thesis by simp
  next
    case False
    then have ik: "i \<le> k" using Suc.prems by simp
    let ?ys = "take i xs @ take (k - i) (drop (Suc i) xs) @ drop k xs"
    have IH: "fold (\<lambda>j xs. xs[j := xs ! (j + 1)]) [i..<k] xs = ?ys"
      using Suc.IH [OF ik] Suc.prems by simp
    have l: "length (take i xs @ take (k - i) (drop (Suc i) xs)) = k"
      using ik Suc.prems by simp
    have d: "drop k xs = xs ! k # drop (Suc k) xs" "drop (Suc k) xs \<noteq> []"
      using Suc.prems by (simp_all add: Cons_nth_drop_Suc)
    have n: "?ys ! Suc k = xs ! Suc k"
      using l Suc.prems by (simp add: nth_append d(1) flip: append_assoc)
    have "?ys[k := xs ! Suc k] = (take i xs @ take (k - i) (drop (Suc i) xs)) @ (xs ! Suc k) # drop (Suc k) xs"
      using list_update_length [of "take i xs @ take (k - i) (drop (Suc i) xs)" "xs ! k" "drop (Suc k) xs" "xs ! Suc k"]
      unfolding l d(1) by simp
    also have "\<dots> = take i xs @ take (Suc k - i) (drop (Suc i) xs) @ drop (Suc k) xs"
      using ik Suc.prems by (simp add: Suc_diff_le take_Suc_conv_app_nth)
    finally show ?thesis using IH ik n by simp
  qed
qed simp

lemma remove_entry_at:
  assumes "file_count s \<le> length (files s)" and "find_entry (\<lambda>f. f_inode f = n) s = Some i"
  defines "t \<equiv> remove_entry n s"
  shows "entries t = take i (entries s) @ drop (Suc i) (entries s)"
    and "file_count t = file_count s - 1" and "length (files t) = length (files s)"
    and "set (files t) \<subseteq> set (files s)"
    and "inodes t = inodes s" "blocks t = blocks s" "block_used t = block_used s"
      "free_blocks t = free_blocks s" "free_inodes t = free_inodes s" "current_inode t = current_inode s"
proof -
  have i: "i < file_count s" using assms(2) by (simp add: find_entry_def first_index_Some)
  let ?k = "file_count s - 1"
  have f: "files t = take i (files s) @ take (?k - i) (drop (Suc i) (files s)) @ drop ?k (files s)"
    using shift_down [of i ?k "files s"] i assms(1,2) by (simp add: t_def remove_entry_def)
  show fc: "file_count t = ?k" using assms(2) by (simp add: t_def remove_entry_def)
  show "length (files t) = length (files s)" using f i assms(1) by simp
  have "take ?k (files t) = take i (files s) @ take (?k - i) (drop (Suc i) (files s))"
    using f i assms(1) by simp
  then show "entries t = take i (entries s) @ drop (Suc i) (entries s)"
    using fc i by (simp add: entries_def drop_take)
  show "set (files t) \<subseteq> set (files s)"
    unfolding f using set_take_subset [of i "files s"] set_drop_subset [of "Suc i" "files s"]
      set_drop_subset [of ?k "files s"] set_take_subset [of "?k - i" "drop (Suc i) (files s)"] by auto
qed (use assms(2) in \<open>simp_all add: t_def remove_entry_def\<close>)

text \<open>
  What deleting the inode \<open>n\<close> achieves: its entry is cut out of the table, the inode is free,
  its blocks other than block 0 are free, every other file and its contents are as before.
\<close>

definition deleted :: "bkfs \<Rightarrow> u32 \<Rightarrow> bkfs \<Rightarrow> bool" where
  "deleted s n s' \<longleftrightarrow> fs_inv s' \<and>
     (\<exists>i. 5 \<le> i \<and> i < file_count s \<and> f_inode (files s ! i) = n \<and>
        entries s' = take i (entries s) @ drop (Suc i) (entries s)) \<and>
     \<not> inode_taken s' (ino_ix n) \<and>
     (\<forall>b<MAX_BLOCKS. block_taken s' b \<longleftrightarrow>
        block_taken s b \<and> \<not> (b \<noteq> 0 \<and> (\<exists>i. owns s (ino_ix n) i \<and> blk s (ino_ix n) i = b))) \<and>
     (\<forall>m<MAX_INODES. m \<noteq> ino_ix n \<longrightarrow> inodes s' ! m = inodes s ! m \<and> content s' m = content s m) \<and>
     current_inode s' = current_inode s"

lemma entries_named:
  assumes "fs_inv s"
  shows "find_entry (\<lambda>f. f_inode f = n) s = Some i \<Longrightarrow> n \<noteq> 0 \<Longrightarrow>
    5 \<le> i \<and> i < file_count s \<and> f_inode (files s ! i) = n \<and>
    (\<forall>j<file_count s. j \<noteq> i \<longrightarrow> f_inode (files s ! j) \<noteq> n)"
proof -
  assume f: "find_entry (\<lambda>f. f_inode f = n) s = Some i" and n: "n \<noteq> 0"
  have i: "i < file_count s" "f_inode (files s ! i) = n"
    using f by (simp_all add: find_entry_def first_index_Some)
  have five: "5 \<le> j" if "f_inode (files s ! j) = n" for j
    using fs_invD(3) [OF assms, of j] that n by (cases "j < 5") (auto simp: zero_file_def)
  show ?thesis
    using i five five [OF i(2)] fs_invD(6) [OF assms] by metis
qed

lemma drop_file_ok:
  assumes inv: "fs_inv s" and v: "valid_ino n" and tk: "inode_taken s (ino_ix n)"
  shows "deleted s n (drop_file n s)"
proof -
  note F = fs_invD [OF inv]
  note D = fs_data_invD [OF F(1)] and x = ino_ix_lt [OF v]
  let ?x = "ino_ix n"
  have n0: "n \<noteq> 0" using v by (simp add: valid_ino_iff)
  define s1 where "s1 = free_list (take (unat (i_blocks (inodes s ! ?x))) (i_block (inodes s ! ?x))) s"
  note rel = release_spec [OF F(1) x, folded s1_def]
  have "length (i_block (get_inode n s)) = INODE_DIRECT_BLOCKS" using D(5) [OF x] by (simp add: get_inode_def)
  then have s1: "free_inode_blocks n s = s1"
    using live_blocks_le [OF F(1) x] by (simp add: free_inode_blocks_eq s1_def get_inode_def min_absorb1)
  obtain i0 where i0: "5 \<le> i0" "i0 < file_count s" "ino_ix (f_inode (files s ! i0)) = ?x"
    using F(7) [OF x tk] by blast
  have "f_inode (files s ! i0) = n" using ino_ix_inject [OF F(4) [OF i0(1,2)] v] i0(3) by simp
  then obtain i where i: "find_entry (\<lambda>f. f_inode f = n) s = Some i"
    using first_index_exists [OF i0(2), of "\<lambda>i. f_inode (files s ! i) = n"] by (auto simp: find_entry_def)
  then have i1: "find_entry (\<lambda>f. f_inode f = n) s1 = Some i" by (simp add: find_entry_def s1_def)
  note at = entries_named [OF inv i n0]
  define s2 where "s2 = remove_entry n s1"
  have le: "file_count s1 \<le> length (files s1)" using D(3,4) by (simp add: s1_def)
  note R = remove_entry_at [OF le i1, folded s2_def]
  define t where "t = fs_free_inode n s2"
  have t: "drop_file n s = t" by (simp add: drop_file_def s1 s2_def t_def)
  have fr: "files t = files s2" "file_count t = file_count s2" "current_inode t = current_inode s"
    "blocks t = blocks s" "block_used t = block_used s1" "free_blocks t = free_blocks s1"
    "inodes t = (inodes s)[?x := zero_inode]" "free_inodes t = free_inodes s + 1"
    using v R(5-10) by (simp_all add: t_def fs_free_inode_def) (simp_all add: s1_def)
  have bt: "block_taken t b = block_taken s1 b" for b using fr(5) by (simp add: block_taken_def)
  have len: "length (inodes s) = MAX_INODES" using D(1) by (simp add: inode_shape_def)
  have ti: "inode_taken t m \<longleftrightarrow> m \<noteq> ?x \<and> inode_taken s m" if "m < MAX_INODES" for m
    using that len x by (auto simp: inode_taken_def fr(7) nth_list_update zero_inode_def)
  have ct: "counted MAX_INODES inode_taken free_inodes t"
  proof -
    have "{m. m < MAX_INODES \<and> \<not> inode_taken t m} = {m. m < MAX_INODES \<and> (m = ?x \<or> \<not> inode_taken s m)}"
      using ti x by blast
    moreover have "card {m. m < MAX_INODES \<and> (m = ?x \<or> \<not> inode_taken s m)} =
        Suc (card {m. m < MAX_INODES \<and> \<not> inode_taken s m})"
      using tk x by (intro card_filter_upt_update) auto
    moreover have "unat (free_inodes s) < 4294967295"
      using D(12) card_filter_upt_le [of MAX_INODES "\<lambda>m. \<not> inode_taken s m"] by (simp add: counted_def)
    ultimately show ?thesis using D(12) fr(8) by (simp add: counted_def unat_plus_one_u32)
  qed
  have sh: "block_shape t" "counted MAX_BLOCKS block_taken free_blocks t"
    using rel(1,2) fr(5,6) by (simp_all add: block_shape_def counted_def block_taken_def)
  have sub: "set (files t) \<subseteq> set (files s)" using R(4) fr(1) by (simp add: s1_def)
  have lf: "length (files t) = MAX_FILES" "file_count t \<le> MAX_FILES"
    using R(2,3) fr(1,2) D(3,4) by (simp_all add: s1_def)
  have nm: "\<forall>k<MAX_FILES. length (f_name (files t ! k)) = 32"
  proof (intro allI impI)
    fix k assume "k < MAX_FILES"
    then have "files t ! k \<in> set (files s)" using lf(1) sub by (metis nth_mem subsetD)
    then show "length (f_name (files t ! k)) = 32" using D(3,7) by (metis in_set_conv_nth)
  qed
  note B = blank_inode [OF F(1) x fr(7) _ _ _ fr(4) sh(1) lf nm ct sh(2), unfolded bt, OF _ _ _ rel(3)]
  have z: "i_blocks zero_inode = 0" "i_size zero_inode = 0" "length (i_block zero_inode) = INODE_DIRECT_BLOCKS"
    by (simp_all add: zero_inode_def)
  have en: "entries t = take i (entries s) @ drop (Suc i) (entries s)"
    using R(1) fr(1,2) by (simp add: entries_def s1_def)
  have fc: "file_count t = file_count s - 1" using R(2) fr(2) by (simp add: s1_def)
  have le_len: "length (entries s) = file_count s" using D(3,4) by (simp add: entries_def)
  have ft: "files t ! k = files s ! (if k < i then k else Suc k)" if "k < file_count t" for k
  proof -
    have "files t ! k = entries t ! k" using that by (simp add: entries_def)
    also have "\<dots> = entries s ! (if k < i then k else Suc k)"
      unfolding en using that fc at le_len by (simp add: nth_append)
    also have "\<dots> = files s ! (if k < i then k else Suc k)"
      using that fc by (simp add: entries_def)
    finally show ?thesis .
  qed
  have "fs_named t"
    unfolding fs_named_def
  proof (intro conjI allI impI)
    show "5 \<le> file_count t" using at fc by linarith
    show "files t ! k = zero_file" if "k < 5" for k
    proof -
      have "k < i" "k < file_count t" using that at fc by linarith+
      then show ?thesis using ft [of k] that F(3) by simp
    qed
    fix k assume k: "5 \<le> k \<and> k < file_count t"
    let ?k = "if k < i then k else Suc k"
    have k': "5 \<le> ?k" "?k < file_count s" "?k \<noteq> i" using k fc by auto
    show "valid_ino (f_inode (files t ! k))" using ft [of k] k k' F(4) by metis
    have "f_inode (files s ! ?k) \<noteq> n" using at k' by blast
    then have "ino_ix (f_inode (files s ! ?k)) \<noteq> ?x"
      using ino_ix_inject [OF F(4) [OF k'(1,2)] v] by blast
    then show "inode_taken t (ino_ix (f_inode (files t ! k)))"
      using ft [of k] k ti ino_ix_lt F(4,5) k' by metis
    fix l assume l: "5 \<le> l \<and> l < file_count t" and eq: "f_inode (files t ! k) = f_inode (files t ! l)"
    let ?l = "if l < i then l else Suc l"
    have l': "5 \<le> ?l" "?l < file_count s" using l fc by auto
    have "?k = ?l" using ft [of k] ft [of l] k l eq F(6) [OF k'(1,2) l'] by simp
    then show "k = l" by (simp split: if_splits)
  next
    fix m assume m: "m < MAX_INODES" "inode_taken t m"
    then obtain k where k: "5 \<le> k" "k < file_count s" "ino_ix (f_inode (files s ! k)) = m"
      using F(7) ti by blast
    then have "k \<noteq> i" using m ti at by auto
    then have "(if k < i then k else k - 1) < file_count t"
      "files t ! (if k < i then k else k - 1) = files s ! k" "5 \<le> (if k < i then k else k - 1)"
      using ft [of "if k < i then k else k - 1"] k at fc by auto
    then show "\<exists>k. 5 \<le> k \<and> k < file_count t \<and> ino_ix (f_inode (files t ! k)) = m"
      using k(3) by metis
  qed
  then have "fs_inv t" using B(1) [OF z] by (simp add: fs_inv_def)
  then show ?thesis
    unfolding t deleted_def using at en ti [OF x] rel(4) B(3) [OF z] fr(3) bt by auto
qed

end
