(* ===== verification/Bkfs_Props.thy ===== *)
theory Bkfs_Props imports Bkfs_Dir begin

text \<open>
  The properties of bkFS: what a write stores and what it leaves alone, when it succeeds and what
  a failed one leaves behind, creation, deletion and the block it never returns, and the invariant
  along the sequences of operations described there.
\<close>

section \<open>The invariant and single operations\<close>

lemma stored_inv:
  assumes inv: "fs_inv s" and st: "stored s x d s'"
  shows "fs_inv s'"
proof -
  have f: "files s' = files s" "file_count s' = file_count s"
    "\<And>m. m < MAX_INODES \<Longrightarrow> inode_taken s' m = inode_taken s m" "fs_data_inv s'"
    using st by (simp_all add: stored_def)
  note F = fs_invD [OF inv]
  have "fs_named s'"
    unfolding fs_named_def f(1,2)
    using F(2-7) f(3) ino_ix_lt by blast
  then show ?thesis using f(4) by (simp add: fs_inv_def)
qed

lemma atime_inv:
  assumes inv: "fs_inv s" and v: "valid_ino n"
  shows "fs_inv (upd_inode n (\<lambda>ino. ino\<lparr>i_atime := ticks\<rparr>) s)"
proof -
  note F = fs_invD [OF inv] and A = atime_frame [OF fs_invD(1) [OF inv] ino_ix_lt [OF v]]
  have "fs_named (upd_inode n (\<lambda>ino. ino\<lparr>i_atime := ticks\<rparr>) s)"
    unfolding fs_named_def upd_inode_frame(1,2)
    using F(2-7) A(3) ino_ix_lt by blast
  then show ?thesis using A(1) by (simp add: fs_inv_def)
qed

lemma change_dir_inv: "fs_inv (s\<lparr>current_inode := n\<rparr>) = fs_inv s"
  unfolding fs_inv_def fs_data_inv_def fs_shape_def fs_owned_def fs_sized_def fs_counted_def
    fs_named_def counted_def inode_shape_def block_shape_def owns_def blk_def inode_taken_def block_taken_def
  by simp

section \<open>Sample states\<close>

text \<open>A file system with one empty file \<open>a\<close>, as \<open>create_entry\<close> makes it.\<close>

definition sample_entry :: file_entry where
  "sample_entry = zero_file\<lparr>f_name := ''a'' @ replicate 31 NUL, f_inode := 1, f_parent_inode := 1\<rparr>"

definition one_file :: bkfs where
  "one_file = static_bkfs\<lparr>free_inodes := free_inodes static_bkfs - 1,
     files := (files static_bkfs)[5 := sample_entry],
     inodes := (inodes static_bkfs)[0 := zero_inode\<lparr>i_mode := 0x8000\<rparr>], file_count := 6\<rparr>"

lemma one_file_created: "created static_bkfs sample_entry one_file"
  using created_state [OF static_bkfs_inv, of 0 sample_entry "zero_inode\<lparr>i_mode := 0x8000\<rparr>"]
  by (simp add: one_file_def static_bkfs_def inode_taken_def zero_inode_def sample_entry_def zero_file_def)

lemma one_file_taken: "inode_taken one_file 0"
  by (simp add: inode_taken_def one_file_def static_bkfs_def)

lemma valid_ino_1 [simp]: "valid_ino 1" "ino_ix 1 = 0"
  using valid_ino_of_slot [of 0] ino_ix_of_slot [of 0] by simp_all

lemma one_file_room: "room one_file x = 1024"
proof -
  have "{b. b < MAX_BLOCKS \<and> (\<not> block_taken one_file b \<or>
      b \<noteq> 0 \<and> (\<exists>i. owns one_file x i \<and> blk one_file x i = b))} = {..<MAX_BLOCKS}"
    by (auto simp: block_taken_def one_file_def static_bkfs_def)
  then show ?thesis by (simp add: room_def)
qed

text \<open>The same file with one block, over a bitmap of choice.\<close>

definition one_block :: "u32 \<Rightarrow> (nat \<Rightarrow> bool) \<Rightarrow> u32 \<Rightarrow> bkfs" where
  "one_block b used avail = one_file\<lparr>block_used := map used [0..<MAX_BLOCKS], free_blocks := avail,
     inodes := (inodes one_file)[0 := zero_inode\<lparr>i_mode := 0x8000, i_size := 1, i_blocks := 1,
                                   i_block := (replicate INODE_DIRECT_BLOCKS 0)[0 := b]\<rparr>]\<rparr>"

lemma one_block_taken: "j < MAX_BLOCKS \<Longrightarrow> block_taken (one_block b used avail) j = used j"
  by (simp add: block_taken_def one_block_def)

lemma one_block_inv:
  assumes "unat b < MAX_BLOCKS" and "used (unat b)"
    and "unat avail = card {i. i < MAX_BLOCKS \<and> \<not> used i}"
  shows "fs_inv (one_block b used avail)" "inode_taken (one_block b used avail) 0"
    "owns (one_block b used avail) 0 0" "blk (one_block b used avail) 0 0 = unat b"
proof -
  let ?t = "one_block b used avail"
  have inv: "fs_inv one_file" using one_file_created by (simp add: created_def)
  note D = fs_data_invD [OF fs_invD(1) [OF inv]]
  have len: "length (inodes one_file) = MAX_INODES" using D(1) by (simp add: inode_shape_def)
  have I0: "inodes ?t ! 0 = zero_inode\<lparr>i_mode := 0x8000, i_size := 1, i_blocks := 1,
        i_block := (replicate INODE_DIRECT_BLOCKS 0)[0 := b]\<rparr>"
    using len by (simp add: one_block_def)
  have I: "inodes ?t ! m = zero_inode" if "m < MAX_INODES" "m \<noteq> 0" for m
    using that by (simp add: one_block_def one_file_def static_bkfs_def)
  note bt = one_block_taken [of _ b used avail]
  have ow: "owns ?t m i \<longleftrightarrow> m = 0 \<and> i = 0" for m i
    using I0 I [of m] by (cases "m = 0") (auto simp: owns_def zero_inode_def)
  show bk: "blk ?t 0 0 = unat b" by (simp add: blk_def I0)
  show "owns ?t 0 0" by (simp add: ow)
  show tk: "inode_taken ?t 0" by (simp add: inode_taken_def I0)
  have same: "inode_taken ?t m = inode_taken one_file m" if "m < MAX_INODES" for m
    using that I [of m] I0 by (cases "m = 0")
      (simp_all add: inode_taken_def one_file_def static_bkfs_def)
  have "fs_data_inv ?t"
  proof (rule fs_data_invI)
    have "{i. i < MAX_BLOCKS \<and> \<not> block_taken ?t i} = {i. i < MAX_BLOCKS \<and> \<not> used i}"
      using bt by auto
    then show "counted MAX_BLOCKS block_taken free_blocks ?t"
      using assms(3) by (simp add: counted_def one_block_def)
    show "counted MAX_INODES inode_taken free_inodes ?t"
      using inode_counted_cong [of ?t one_file] same D(12) by (simp add: one_block_def)
    show "length (i_block (inodes ?t ! m)) = INODE_DIRECT_BLOCKS"
      "unat (i_blocks (inodes ?t ! m)) = blocks_for (unat (i_size (inodes ?t ! m)))"
      "\<not> inode_taken ?t m \<Longrightarrow> i_size (inodes ?t ! m) = 0" if "m < MAX_INODES" for m
      using that I [of m] I0 tk by (cases "m = 0"; simp add: zero_inode_def blocks_for_def)+
  qed (use D len ow bk bt assms in \<open>auto simp: one_block_def inode_shape_def block_shape_def\<close>)
  moreover have "fs_named ?t"
  proof -
    have "fs_named one_file" using inv by (simp add: fs_inv_def)
    then show ?thesis
      using same ino_ix_lt unfolding fs_named_def by (simp add: one_block_def [symmetric]) (simp add: one_block_def)
  qed
  ultimately show "fs_inv ?t" by (simp add: fs_inv_def)
qed

section \<open>A write that runs out of blocks\<close>

lemma free_block_taken:
  assumes "block_shape s"
  shows "block_shape (fs_free_block b s)"
    and "j < MAX_BLOCKS \<Longrightarrow> block_taken (fs_free_block b s) j \<longleftrightarrow> j \<noteq> unat b \<and> block_taken s j"
  using assms by (auto simp: fs_free_block_def block_taken_def block_shape_def nth_list_update
      word_le_nat_alt)

lemma undo_alloc:
  "block_shape s \<Longrightarrow> \<forall>j<m. unat (bl ! j) < MAX_BLOCKS \<Longrightarrow>
   block_shape (fold (\<lambda>j. fs_free_block (bl ! j)) [0..<m] s) \<and>
   inodes (fold (\<lambda>j. fs_free_block (bl ! j)) [0..<m] s) = inodes s \<and>
   (\<forall>j<m. \<not> block_taken (fold (\<lambda>j. fs_free_block (bl ! j)) [0..<m] s) (unat (bl ! j)))"
proof (induction m)
  case (Suc m)
  then show ?case
    using free_block_taken [where s = "fold (\<lambda>j. fs_free_block (bl ! j)) [0..<m] s" and b = "bl ! m"]
    by (auto simp: less_Suc_eq)
qed simp

lemma fold_const_inode:
  "fold (\<lambda>j s. fs_free_block (i_block (get_inode n s) ! j) s) [0..<m] s =
   fold (\<lambda>j. fs_free_block (i_block (get_inode n s) ! j)) [0..<m] s"
proof (induction m)
  case (Suc m)
  have "inodes (fold (\<lambda>j. fs_free_block (i_block (get_inode n s) ! j)) [0..<m] s) = inodes s"
    by (induction m) simp_all
  then show ?case using Suc by (simp add: get_inode_def)
qed simp

text \<open>On failure the first \<open>m\<close> positions name blocks that were handed out and taken back.\<close>

lemma alloc_blocks_failed:
  assumes "alloc_blocks n [j..<k] s = (False, s')" and "valid_ino n" and "inode_shape s" and "block_shape s"
    and "length (i_block (get_inode n s)) = INODE_DIRECT_BLOCKS" and "k \<le> INODE_DIRECT_BLOCKS"
    and "\<forall>i<j. unat (i_block (get_inode n s) ! i) < MAX_BLOCKS"
    and "counted MAX_BLOCKS block_taken free_blocks s"
  shows "\<exists>m. j \<le> m \<and> (0 < n_free_blocks s \<longrightarrow> j < m) \<and>
    i_blocks (get_inode n s') = i_blocks (get_inode n s) \<and>
    (\<forall>i<m. \<not> block_taken s' (unat (i_block (get_inode n s') ! i)))"
  using assms
proof (induction "k - j" arbitrary: j s)
  case 0
  then show ?case by simp
next
  case (Suc d)
  then have jk: "j < k" "[j..<k] = j # [Suc j..<k]" by (simp_all add: upt_conv_Cons)
  obtain b s1 where a: "fs_alloc_block s = (b, s1)" by (cases "fs_alloc_block s")
  show ?case
  proof (cases "b = -1")
    case True
    then have "\<forall>i<MAX_BLOCKS. block_taken s i"
      using block_pool.alloc_full_iff [OF Suc.prems(4,8)] a by simp
    then have nf: "n_free_blocks s = 0" by (simp add: n_free_blocks_def)
    have "s1 = s" using Suc.prems(4) a True by (cases rule: block_pool.alloc_cases) auto
    then have s': "s' = fold (\<lambda>i. fs_free_block (i_block (get_inode n s) ! i)) [0..<j] s"
      using Suc.prems(1) a True by (simp add: jk(2) fold_const_inode)
    note U = undo_alloc [OF Suc.prems(4,7), folded s']
    then have "get_inode n s' = get_inode n s" by (simp add: get_inode_def)
    then show ?thesis using U nf by (intro exI [of _ j]) simp
  next
    case False
    obtain x where x: "b = int x" "x < MAX_BLOCKS" "\<not> block_taken s x" "block_shape s1"
      using alloc_block_took [OF Suc.prems(4) a False] by blast
    define t where "t = upd_inode n (\<lambda>ino. ino\<lparr>i_block := (i_block ino)[j := word_of_int b]\<rparr>) s1"
    note fr = fs_alloc_block_frame [OF a]
    have ix: "ino_ix n < MAX_INODES" using Suc.prems(2) by (rule ino_ix_lt)
    have sh1: "inode_shape s1" using Suc.prems(3) fr by (simp add: inode_shape_def)
    have gt: "get_inode n t = (get_inode n s)\<lparr>i_block := (i_block (get_inode n s))[j := word_of_int b]\<rparr>"
      using get_upd_inode [OF sh1 ix] fr by (simp add: t_def get_inode_def)
    have ct: "counted MAX_BLOCKS block_taken free_blocks t"
      using block_pool.alloc_counted [OF Suc.prems(4,8) a] counted_blocks_cong [of t s1]
      by (simp add: t_def)
    have small: "\<forall>i<Suc j. unat (i_block (get_inode n t) ! i) < MAX_BLOCKS"
      using Suc.prems(5-7) jk(1) x(1,2) by (auto simp: gt nth_list_update less_Suc_eq)
    have sh: "inode_shape t" "block_shape t" "length (i_block (get_inode n t)) = INODE_DIRECT_BLOCKS"
      using sh1 x(4) Suc.prems(5) by (simp_all add: gt) (simp_all add: t_def)
    have rest: "alloc_blocks n [Suc j..<k] t = (False, s')"
      using Suc.prems(1) a False by (simp add: jk(2) t_def)
    have d: "d = k - Suc j" using Suc.hyps(2) by simp
    from Suc.hyps(1) [OF d rest Suc.prems(2) sh Suc.prems(6) small ct]
    obtain m where "Suc j \<le> m" "i_blocks (get_inode n s') = i_blocks (get_inode n t)"
      "\<forall>i<m. \<not> block_taken s' (unat (i_block (get_inode n s') ! i))" by blast
    then show ?thesis using gt by (intro exI [of _ m]) simp
  qed
qed

text \<open>The state such a write ends in is the one the allocation loop gives back.\<close>

lemma write_failed_state:
  assumes inv: "fs_data_inv s" and v: "valid_ino n"
    and fits: "unat sz \<le> INODE_DIRECT_BLOCKS * BLOCK_SIZE"
    and no_room: "\<not> blocks_for (unat sz) \<le> room s (ino_ix n)"
  defines "s1 \<equiv> free_list (take (unat (i_blocks (inodes s ! ino_ix n))) (i_block (inodes s ! ino_ix n))) s"
  shows "n_free_blocks s1 = room s (ino_ix n)" and "blocks_for (unat sz) \<le> INODE_DIRECT_BLOCKS"
    and "\<exists>s2. alloc_blocks n [0..<blocks_for (unat sz)] s1 = (False, s2) \<and>
      fs_write_file ticks n data sz s = Inr (FS_ERROR, s2)"
proof -
  define k where "k = blocks_for (unat sz)"
  note x = ino_ix_lt [OF v]
  have g: "get_inode n s = inodes s ! ino_ix n" by (simp add: get_inode_def)
  note rel = release_spec [OF inv x, folded s1_def]
  have nd: "unat ((sz + of_nat BLOCK_SIZE - 1) div of_nat BLOCK_SIZE :: u32) = k"
    using blocks_needed_eq [of sz] fits by (simp add: k_def)
  show k: "blocks_for (unat sz) \<le> INODE_DIRECT_BLOCKS" using fits by (simp add: blocks_for_le)
  then have small: "\<not> (sz + of_nat BLOCK_SIZE - 1) div of_nat BLOCK_SIZE > (of_nat INODE_DIRECT_BLOCKS :: u32)"
    using nd unfolding word_less_nat_alt by (simp add: k_def)
  show room: "n_free_blocks s1 = room s (ino_ix n)"
    unfolding n_free_blocks_def room_def
  proof (intro arg_cong [where f = card] Collect_cong conj_cong refl)
    fix b assume "b < MAX_BLOCKS"
    from rel(4) [OF this]
    show "(\<not> block_taken s1 b) =
        (\<not> block_taken s b \<or> b \<noteq> 0 \<and> (\<exists>i. owns s (ino_ix n) i \<and> blk s (ino_ix n) i = b))"
      by argo
  qed
  obtain ok s2 where al: "alloc_blocks n [0..<k] s1 = (ok, s2)" by (cases "alloc_blocks n [0..<k] s1")
  have nok: "\<not> ok"
    using alloc_blocks_enough [OF rel(1,2), of n "[0..<k]"] al room no_room by (simp add: k_def)
  have "fs_write_file ticks n data sz s = Inr (FS_ERROR, s2)"
    using v small release_old_blocks_inv [OF inv v] nd al nok
    by (simp add: fs_write_file_def Let_def s1_def g del: of_nat_numeral)
  then show "\<exists>s2. alloc_blocks n [0..<blocks_for (unat sz)] s1 = (False, s2) \<and>
      fs_write_file ticks n data sz s = Inr (FS_ERROR, s2)" using al nok by (simp add: k_def)
qed

lemma fs_write_file_failed:
  assumes inv: "fs_data_inv s" and v: "valid_ino n"
    and fits: "unat sz \<le> INODE_DIRECT_BLOCKS * BLOCK_SIZE"
    and no_room: "\<not> blocks_for (unat sz) \<le> room s (ino_ix n)" and some: "0 < room s (ino_ix n)"
    and old: "i_size (inodes s ! ino_ix n) \<noteq> 0"
  shows "\<exists>s'. fs_write_file ticks n data sz s = Inr (FS_ERROR, s') \<and>
     owns s' (ino_ix n) 0 \<and> \<not> block_taken s' (blk s' (ino_ix n) 0)"
proof -
  note D = fs_data_invD [OF inv] and x = ino_ix_lt [OF v]
  define s1 where "s1 = free_list (take (unat (i_blocks (inodes s ! ino_ix n))) (i_block (inodes s ! ino_ix n))) s"
  note W = write_failed_state [OF inv v fits no_room, folded s1_def]
  note rel = release_spec [OF inv x, folded s1_def]
  obtain s2 where s2: "alloc_blocks n [0..<blocks_for (unat sz)] s1 = (False, s2)"
    "fs_write_file ticks n data sz s = Inr (FS_ERROR, s2)" using W(3) by blast
  have "\<exists>m. 0 \<le> m \<and> (0 < n_free_blocks s1 \<longrightarrow> 0 < m) \<and>
    i_blocks (get_inode n s2) = i_blocks (get_inode n s1) \<and>
    (\<forall>i<m. \<not> block_taken s2 (unat (i_block (get_inode n s2) ! i)))"
    using s2(1) v D(1,5) x W(2) rel(1,2)
    by (intro alloc_blocks_failed) (auto simp: s1_def inode_shape_def get_inode_def)
  then have f: "i_blocks (get_inode n s2) = i_blocks (inodes s ! ino_ix n)"
    "\<not> block_taken s2 (unat (i_block (get_inode n s2) ! 0))"
    using some W(1) by (auto simp: s1_def get_inode_def)
  have "0 < unat (i_size (inodes s ! ino_ix n))" using old by (simp add: unat_gt_0)
  then have "0 < blocks_for (unat (i_size (inodes s ! ino_ix n)))" by (simp add: blocks_for_def)
  then have "0 < unat (i_blocks (inodes s ! ino_ix n))" using D(10) [OF x] by simp
  then have "owns s2 (ino_ix n) 0" using f(1) x by (simp add: owns_def get_inode_def)
  then show ?thesis using s2(2) f(2) by (auto simp: blk_def get_inode_def)
qed

text \<open>For an empty file the blocks obtained and taken back are all there is to undo.\<close>

lemma undo_all:
  assumes "block_shape s" and "counted MAX_BLOCKS block_taken free_blocks s"
  shows "\<forall>i<m. unat (bl ! i) < MAX_BLOCKS \<and> block_taken s (unat (bl ! i)) \<Longrightarrow>
    \<forall>i<m. \<forall>j<m. bl ! i = bl ! j \<longrightarrow> i = j \<Longrightarrow>
    block_shape (fold (\<lambda>j. fs_free_block (bl ! j)) [0..<m] s) \<and>
    counted MAX_BLOCKS block_taken free_blocks (fold (\<lambda>j. fs_free_block (bl ! j)) [0..<m] s) \<and>
    (\<forall>x<MAX_BLOCKS. block_taken (fold (\<lambda>j. fs_free_block (bl ! j)) [0..<m] s) x \<longleftrightarrow>
       block_taken s x \<and> \<not> (\<exists>i<m. unat (bl ! i) = x))"
proof (induction m)
  case (Suc m)
  let ?t = "fold (\<lambda>j. fs_free_block (bl ! j)) [0..<m] s"
  have IH: "block_shape ?t" "counted MAX_BLOCKS block_taken free_blocks ?t"
    "\<forall>x<MAX_BLOCKS. block_taken ?t x \<longleftrightarrow> block_taken s x \<and> \<not> (\<exists>i<m. unat (bl ! i) = x)"
    using Suc by auto
  have b: "unat (bl ! m) < MAX_BLOCKS" "block_taken s (unat (bl ! m))" "of_nat (unat (bl ! m)) = bl ! m"
    using Suc.prems(1) by simp_all
  have "bl ! i \<noteq> bl ! m" if "i < m" for i
    using Suc.prems(2) [rule_format, of i m] that by auto
  then have "\<not> (\<exists>i<m. unat (bl ! i) = unat (bl ! m))" by (metis unsigned_word_eqI)
  then have tk: "block_taken ?t (unat (bl ! m))" using IH(3) b by blast
  note r = block_pool.release_gives [OF IH(1) b(1), unfolded b(3)]
    and c = block_pool.release_counted [OF IH(1,2) b(1) tk, unfolded b(3)]
  show ?case using r c IH(3) by (auto simp: less_Suc_eq)
qed (use assms in simp)

lemma undo_frame:
  "files (fold (\<lambda>j. fs_free_block (bl ! j)) js s) = files s"
  "file_count (fold (\<lambda>j. fs_free_block (bl ! j)) js s) = file_count s"
  "inodes (fold (\<lambda>j. fs_free_block (bl ! j)) js s) = inodes s"
  "blocks (fold (\<lambda>j. fs_free_block (bl ! j)) js s) = blocks s"
  "free_inodes (fold (\<lambda>j. fs_free_block (bl ! j)) js s) = free_inodes s"
  by (induction js arbitrary: s) simp_all

text \<open>What the loop leaves when it gives up: the bitmap as before, less the blocks obtained earlier.\<close>

definition given_back :: "u32 \<Rightarrow> nat \<Rightarrow> bkfs \<Rightarrow> bkfs \<Rightarrow> bool" where
  "given_back n j s s' \<longleftrightarrow> files s' = files s \<and> file_count s' = file_count s \<and> blocks s' = blocks s \<and>
     free_inodes s' = free_inodes s \<and> inode_shape s' \<and> block_shape s' \<and>
     counted MAX_BLOCKS block_taken free_blocks s' \<and>
     (\<forall>m<MAX_INODES. m \<noteq> ino_ix n \<longrightarrow> inodes s' ! m = inodes s ! m) \<and>
     (\<exists>bl. get_inode n s' = (get_inode n s)\<lparr>i_block := bl\<rparr> \<and> length bl = INODE_DIRECT_BLOCKS) \<and>
     (\<forall>x<MAX_BLOCKS. block_taken s' x \<longleftrightarrow> block_taken s x \<and> \<not> (\<exists>i<j. unat (i_block (get_inode n s) ! i) = x))"

lemma alloc_blocks_given_back:
  assumes "alloc_blocks n [j..<k] s = (False, s')" and "valid_ino n" and "inode_shape s" and "block_shape s"
    and "length (i_block (get_inode n s)) = INODE_DIRECT_BLOCKS" and "k \<le> INODE_DIRECT_BLOCKS"
    and "\<forall>i<j. unat (i_block (get_inode n s) ! i) < MAX_BLOCKS \<and> block_taken s (unat (i_block (get_inode n s) ! i))"
    and "\<forall>i<j. \<forall>m<j. i_block (get_inode n s) ! i = i_block (get_inode n s) ! m \<longrightarrow> i = m"
    and "counted MAX_BLOCKS block_taken free_blocks s"
  shows "given_back n j s s'"
  using assms
proof (induction "k - j" arbitrary: j s)
  case 0
  then show ?case by simp
next
  case (Suc d)
  then have jk: "j < k" "[j..<k] = j # [Suc j..<k]" by (simp_all add: upt_conv_Cons)
  obtain b s1 where a: "fs_alloc_block s = (b, s1)" by (cases "fs_alloc_block s")
  show ?case
  proof (cases "b = -1")
    case True
    have "s1 = s" using Suc.prems(4) a True by (cases rule: block_pool.alloc_cases) auto
    then have s': "s' = fold (\<lambda>i. fs_free_block (i_block (get_inode n s) ! i)) [0..<j] s"
      using Suc.prems(1) a True by (simp add: jk(2) fold_const_inode)
    have "\<exists>bl. get_inode n s = (get_inode n s)\<lparr>i_block := bl\<rparr> \<and> length bl = INODE_DIRECT_BLOCKS"
      using Suc.prems(5) by (intro exI [of _ "i_block (get_inode n s)"]) simp
    then show ?thesis
      using undo_all [OF Suc.prems(4,9,7,8)] Suc.prems(3)
      unfolding s' given_back_def undo_frame inode_shape_def by (simp add: get_inode_def undo_frame)
  next
    case False
    obtain x where x: "b = int x" "x < MAX_BLOCKS" "\<not> block_taken s x" "block_shape s1"
      "\<forall>j<MAX_BLOCKS. block_taken s1 j \<longleftrightarrow> j = x \<or> block_taken s j"
      using alloc_block_took [OF Suc.prems(4) a False] by blast
    define t where "t = upd_inode n (\<lambda>ino. ino\<lparr>i_block := (i_block ino)[j := word_of_int b]\<rparr>) s1"
    note fr = fs_alloc_block_frame [OF a]
    have ix: "ino_ix n < MAX_INODES" using Suc.prems(2) by (rule ino_ix_lt)
    have sh1: "inode_shape s1" using Suc.prems(3) fr by (simp add: inode_shape_def)
    have gt: "get_inode n t = (get_inode n s)\<lparr>i_block := (i_block (get_inode n s))[j := word_of_int b]\<rparr>"
      using get_upd_inode [OF sh1 ix] fr by (simp add: t_def get_inode_def)
    have j: "j < length (i_block (get_inode n s))" using Suc.prems(5,6) jk(1) by simp
    have ct: "counted MAX_BLOCKS block_taken free_blocks t"
      using block_pool.alloc_counted [OF Suc.prems(4,9) a] counted_blocks_cong [of t s1]
      by (simp add: t_def)
    have w: "unat (word_of_int b :: u32) = x" using x(1,2) by simp
    have tt: "block_taken t y \<longleftrightarrow> y = x \<or> block_taken s y" if "y < MAX_BLOCKS" for y
      using x(5) that by (simp add: t_def)
    have bt: "i_block (get_inode n t) ! i = (if i = j then word_of_int b else i_block (get_inode n s) ! i)" for i
      using j by (simp add: gt nth_list_update)
    have old: "i_block (get_inode n s) ! i \<noteq> word_of_int b" if "i < j" for i
      using Suc.prems(7) that w x(3) by auto
    have earlier: "\<forall>i<Suc j. unat (i_block (get_inode n t) ! i) < MAX_BLOCKS \<and> block_taken t (unat (i_block (get_inode n t) ! i))"
      using Suc.prems(7) tt w x(2) by (auto simp: bt less_Suc_eq)
    have inj: "\<forall>i<Suc j. \<forall>m<Suc j. i_block (get_inode n t) ! i = i_block (get_inode n t) ! m \<longrightarrow> i = m"
      using Suc.prems(8) old by (auto simp: bt less_Suc_eq dest: sym)
    have sh: "inode_shape t" "block_shape t" "length (i_block (get_inode n t)) = INODE_DIRECT_BLOCKS"
      using sh1 x(4) Suc.prems(5) by (simp_all add: gt) (simp_all add: t_def)
    have rest: "alloc_blocks n [Suc j..<k] t = (False, s')"
      using Suc.prems(1) a False by (simp add: jk(2) t_def)
    have d: "d = k - Suc j" using Suc.hyps(2) by simp
    note IH = Suc.hyps(1) [OF d rest Suc.prems(2) sh Suc.prems(6) earlier inj ct]
    have "block_taken t y \<and> \<not> (\<exists>i<Suc j. unat (i_block (get_inode n t) ! i) = y) \<longleftrightarrow>
        block_taken s y \<and> \<not> (\<exists>i<j. unat (i_block (get_inode n s) ! i) = y)" if "y < MAX_BLOCKS" for y
      using tt [OF that] x(3) w by (auto simp: bt less_Suc_eq)
    moreover have "inodes t ! m = inodes s ! m" if "m < MAX_INODES" "m \<noteq> ino_ix n" for m
      using nth_upd_inode [OF sh1] that fr by (simp add: t_def)
    moreover have "files t = files s" "file_count t = file_count s" "blocks t = blocks s" "free_inodes t = free_inodes s"
      using fr by (simp_all add: t_def)
    ultimately show ?thesis using IH gt unfolding given_back_def by auto
  qed
qed

lemma free_list_zeros: "\<forall>b \<in> set bs. b = 0 \<Longrightarrow> free_list bs s = s"
  by (induction bs) simp_all

lemma given_back_owns:
  assumes inv: "fs_inv s" and v: "valid_ino n" and empty: "i_size (inodes s ! ino_ix n) = 0"
    and g: "given_back n 0 s s'"
  shows "owns s' m i \<longleftrightarrow> owns s m i" and "owns s m i \<Longrightarrow> blk s' m i = blk s m i"
    and "m < MAX_INODES \<Longrightarrow> inode_taken s' m = inode_taken s m"
    and "m < MAX_INODES \<Longrightarrow> i_size (inodes s' ! m) = i_size (inodes s ! m) \<and>
      i_blocks (inodes s' ! m) = i_blocks (inodes s ! m) \<and> length (i_block (inodes s' ! m)) = INODE_DIRECT_BLOCKS"
proof -
  note D = fs_data_invD [OF fs_invD(1) [OF inv]] and x = ino_ix_lt [OF v]
  obtain bl where bl: "inodes s' ! ino_ix n = (inodes s ! ino_ix n)\<lparr>i_block := bl\<rparr>" "length bl = INODE_DIRECT_BLOCKS"
    using g unfolding given_back_def get_inode_def by metis
  have same: "inodes s' ! m = inodes s ! m" if "m < MAX_INODES" "m \<noteq> ino_ix n" for m
    using g that by (simp add: given_back_def)
  have "unat (i_blocks (inodes s ! ino_ix n)) = 0" using D(10) [OF x] empty by (simp add: blocks_for_def)
  then have none: "\<not> owns s (ino_ix n) i" "\<not> owns s' (ino_ix n) i" for i using bl(1) by (simp_all add: owns_def)
  show ow: "owns s' m i \<longleftrightarrow> owns s m i"
  proof (cases "m = ino_ix n")
    case False
    then show ?thesis using same [of m] unfolding owns_def by metis
  qed (use none in simp)
  show "blk s' m i = blk s m i" if o: "owns s m i"
  proof -
    have "m \<noteq> ino_ix n" "m < MAX_INODES" using none o by (auto simp: owns_def)
    then show ?thesis using same unfolding blk_def by metis
  qed
  show "inode_taken s' m = inode_taken s m" if "m < MAX_INODES"
    using same [OF that] bl(1) by (cases "m = ino_ix n") (simp_all add: inode_taken_def)
  show "i_size (inodes s' ! m) = i_size (inodes s ! m) \<and> i_blocks (inodes s' ! m) = i_blocks (inodes s ! m) \<and>
      length (i_block (inodes s' ! m)) = INODE_DIRECT_BLOCKS" if "m < MAX_INODES"
    using same [OF that] bl D(5) [OF that] by (cases "m = ino_ix n") simp_all
qed

lemma given_back_inv:
  assumes inv: "fs_inv s" and v: "valid_ino n" and empty: "i_size (inodes s ! ino_ix n) = 0"
    and g: "given_back n 0 s s'"
  shows "fs_inv s'"
proof -
  note D = fs_data_invD [OF fs_invD(1) [OF inv]] and F = fs_invD [OF inv] and O = given_back_owns [OF assms]
  have G: "files s' = files s" "file_count s' = file_count s" "blocks s' = blocks s" "free_inodes s' = free_inodes s"
    "inode_shape s'" "block_shape s'" "counted MAX_BLOCKS block_taken free_blocks s'"
    "\<forall>x<MAX_BLOCKS. block_taken s' x = block_taken s x"
    using g by (simp_all add: given_back_def)
  have "fs_data_inv s'"
  proof (rule fs_data_invI)
    show "length (files s') = MAX_FILES" "file_count s' \<le> MAX_FILES" unfolding G(1,2) by (rule D(3), rule D(4))
    show "length (blocks s' b) = BLOCK_SIZE" if "b < MAX_BLOCKS" for b unfolding G(3) by (rule D(6) [OF that])
    show "length (f_name (files s' ! i)) = 32" if "i < MAX_FILES" for i unfolding G(1) by (rule D(7) [OF that])
    show "counted MAX_INODES inode_taken free_inodes s'"
      using inode_counted_cong [of s' s] O(3) G(4) D(12) by metis
    show "length (i_block (inodes s' ! m)) = INODE_DIRECT_BLOCKS" if "m < MAX_INODES" for m
      using O(4) [OF that] by blast
    show "unat (i_blocks (inodes s' ! m)) = blocks_for (unat (i_size (inodes s' ! m)))" if "m < MAX_INODES" for m
      using O(4) [OF that] D(10) [OF that] by metis
    show "i_size (inodes s' ! m) = 0" if "m < MAX_INODES" "\<not> inode_taken s' m" for m
      using O(3,4) [OF that(1)] D(11) [OF that(1)] that(2) by metis
    show "i < INODE_DIRECT_BLOCKS \<and> blk s' m i < MAX_BLOCKS \<and> block_taken s' (blk s' m i)" if "owns s' m i" for m i
      using D(8) O(1,2) G(8) that by metis
    show "m = l \<and> i = j" if "owns s' m i" "owns s' l j" "blk s' m i = blk s' l j" for m i l j
      using D(9) [of m i l j] O(1,2) that by metis
  qed (rule G(5), rule G(6), rule G(7))
  moreover have "fs_named s'" unfolding fs_named_def G(1,2) using F(2-7) O(3) ino_ix_lt by blast
  ultimately show ?thesis by (simp add: fs_inv_def)
qed

lemma write_failed_empty:
  assumes inv: "fs_inv s" and v: "valid_ino n" and empty: "i_size (inodes s ! ino_ix n) = 0"
    and al: "alloc_blocks n [0..<k] s = (False, s2)" and k: "k \<le> INODE_DIRECT_BLOCKS"
  shows "fs_inv s2"
proof (rule given_back_inv [OF inv v empty])
  note D = fs_data_invD [OF fs_invD(1) [OF inv]]
  show "given_back n 0 s s2"
    by (rule alloc_blocks_given_back [OF al v D(1,2) _ k _ _ D(13)])
      (simp_all add: get_inode_def D(5) [OF ino_ix_lt [OF v]])
qed

lemma no_room_releases_nothing:
  assumes I: "fs_data_inv s" and x: "n < MAX_INODES" and r0: "room s n = 0"
  shows "free_list (take (unat (i_blocks (inodes s ! n))) (i_block (inodes s ! n))) s = s"
proof (rule free_list_zeros, rule ballI)
  fix b assume b: "b \<in> set (take (unat (i_blocks (inodes s ! n))) (i_block (inodes s ! n)))"
  obtain i where i: "owns s n i" "unat b = blk s n i" using live_blocks(3) [OF I x] b by blast
  have lt: "unat b < MAX_BLOCKS" using live_blocks(2) [OF I x] b by blast
  let ?S = "{b. b < MAX_BLOCKS \<and> (\<not> block_taken s b \<or> b \<noteq> 0 \<and> (\<exists>i. owns s n i \<and> blk s n i = b))}"
  have "finite ?S" by simp
  moreover have "card ?S = 0" using r0 by (simp only: room_def)
  ultimately have "unat b \<notin> ?S" by (simp only: card_0_eq) simp
  then have "\<not> (unat b < MAX_BLOCKS \<and> unat b \<noteq> 0 \<and> owns s n i \<and> blk s n i = unat b)" by blast
  then have "unat b = 0" using i lt by argo
  then show "b = 0" by (simp only: unat_eq_0)
qed

lemma alloc_blocks_none:
  assumes "block_shape s" and "counted MAX_BLOCKS block_taken free_blocks s" and "n_free_blocks s = 0"
    and "alloc_blocks n [0..<k] s = (False, s2)" and "0 < k"
  shows "s2 = s"
proof -
  obtain b t where a: "fs_alloc_block s = (b, t)" by (cases "fs_alloc_block s")
  have "\<forall>j<MAX_BLOCKS. block_taken s j" using assms(3) by (simp add: n_free_blocks_def)
  then have b: "b = -1" using block_pool.alloc_full_iff [OF assms(1,2)] a by simp
  have "t = s" using assms(1) a b by (cases rule: block_pool.alloc_cases) auto
  moreover have "[0..<k] = 0 # [1..<k]" using assms(5) by (simp add: upt_conv_Cons)
  ultimately show ?thesis using assms(4) a b by simp
qed

text \<open>
  The one write that damages the tables: the blocks run out in the course of it, and the file had contents.
\<close>

definition starves :: "bkfs \<Rightarrow> u32 \<Rightarrow> u32 \<Rightarrow> bool" where
  "starves s n sz \<longleftrightarrow> unat sz \<le> INODE_DIRECT_BLOCKS * BLOCK_SIZE \<and> \<not> blocks_for (unat sz) \<le> room s (ino_ix n) \<and>
     0 < room s (ino_ix n) \<and> i_size (inodes s ! ino_ix n) \<noteq> 0"

lemma fs_write_file_failed_harmless:
  assumes inv: "fs_inv s" and v: "valid_ino n"
    and fits: "unat sz \<le> INODE_DIRECT_BLOCKS * BLOCK_SIZE"
    and no_room: "\<not> blocks_for (unat sz) \<le> room s (ino_ix n)" and safe: "\<not> starves s n sz"
  shows "\<exists>s'. fs_write_file ticks n data sz s = Inr (FS_ERROR, s') \<and> fs_inv s'"
proof -
  note I = fs_invD(1) [OF inv] and x = ino_ix_lt [OF v]
  note D = fs_data_invD [OF I]
  define s1 where "s1 = free_list (take (unat (i_blocks (inodes s ! ino_ix n))) (i_block (inodes s ! ino_ix n))) s"
  note W = write_failed_state [OF I v fits no_room, folded s1_def]
  obtain s2 where s2: "alloc_blocks n [0..<blocks_for (unat sz)] s1 = (False, s2)"
    "fs_write_file ticks n data sz s = Inr (FS_ERROR, s2)" using W(3) by blast
  have "fs_inv s2"
  proof (cases "i_size (inodes s ! ino_ix n) = 0")
    case True
    then have "unat (i_blocks (inodes s ! ino_ix n)) = 0" using D(10) [OF x] by (simp add: blocks_for_def)
    then have "s1 = s" by (simp add: s1_def)
    then show ?thesis using write_failed_empty [OF inv v True _ W(2)] s2(1) by metis
  next
    case False
    then have r0: "room s (ino_ix n) = 0" using safe fits no_room by (simp add: starves_def)
    then have s1: "s1 = s" unfolding s1_def by (rule no_room_releases_nothing [OF I x])
    have "s2 = s"
      using alloc_blocks_none [OF D(2,13), of n _ s2] W(1) s2(1) no_room r0 unfolding s1 by simp
    then show ?thesis using inv by simp
  qed
  then show ?thesis using s2(2) by blast
qed

section \<open>The invariant along the operations\<close>

text \<open>
  The operations with the arguments they are made for: the inodes that are written or deleted are in use,
  the data and the buffer are as long as the size says, and sizes stay below the wrap-around of the
  count of blocks. A write may fail, for its size or for lack of blocks, unless it \<open>starves\<close>.
\<close>

inductive fs_step :: "bkfs \<Rightarrow> bkfs \<Rightarrow> bool" where
  create: "is_cstr name \<Longrightarrow> create_entry ticks name parent type s = Inr (r, s') \<Longrightarrow> fs_step s s'"
| delete: "valid_ino n \<Longrightarrow> inode_taken s (ino_ix n) \<Longrightarrow> fs_step s (drop_file n s)"
| rewrite: "valid_ino n \<Longrightarrow> inode_taken s (ino_ix n) \<Longrightarrow> unat sz \<le> length data \<Longrightarrow>
    unat sz + 1023 < 4294967296 \<Longrightarrow> \<not> starves s n sz \<Longrightarrow>
    fs_write_file ticks n data sz s = Inr (r, s') \<Longrightarrow> fs_step s s'"
| read: "unat sz \<le> length buf \<Longrightarrow> fs_read_file ticks n buf sz s = Inr (r, buf', s') \<Longrightarrow> fs_step s s'"
| change_dir: "fs_change_dir n s = (r, s') \<Longrightarrow> fs_step s s'"

inductive_cases fs_stepE: "fs_step s s'"

lemma write_step_inv:
  assumes inv: "fs_inv s" and w: "valid_ino n" "inode_taken s (ino_ix n)" "unat sz \<le> length data"
    "unat sz + 1023 < 4294967296" "\<not> starves s n sz" "fs_write_file ticks n data sz s = Inr (r, s')"
  shows "fs_inv s'"
proof (cases "unat sz \<le> INODE_DIRECT_BLOCKS * BLOCK_SIZE")
  case fits: True
  show ?thesis
  proof (cases "blocks_for (unat sz) \<le> room s (ino_ix n)")
    case True
    then have "stored s (ino_ix n) (take (unat sz) data) s'"
      using fs_write_file_outcome [OF fs_invD(1) [OF inv] w(1-3) fits, of ticks] w(6) by force
    then show ?thesis by (rule stored_inv [OF inv])
  next
    case False
    then show ?thesis using fs_write_file_failed_harmless [OF inv w(1) fits _ w(5), of ticks data] w(6) by force
  qed
next
  case False
  then show ?thesis using fs_write_file_too_large [OF w(1) _ w(4), of ticks data s] w(6) inv by simp
qed

lemma fs_step_inv:
  assumes "fs_step s s'" and inv: "fs_inv s"
  shows "fs_inv s'"
  using assms(1)
proof cases
  case (create name ticks parent type r)
  show ?thesis
  proof (cases "file_count s < MAX_FILES")
    case True
    then have "length name \<le> 30" using create_entry_long_name [OF inv True, of name] create(2) by fastforce
    then show ?thesis
      using create_entry_ok [OF inv True create(1), of ticks parent type] create(2)
      by (auto simp: created_def)
  next
    case False
    then show ?thesis using create(2) inv by (simp add: create_entry_full)
  qed
next
  case (delete n)
  then show ?thesis using drop_file_ok [OF inv] by (simp add: deleted_def)
next
  case (rewrite n sz data ticks r)
  then show ?thesis by (rule write_step_inv [OF inv])
next
  case (read sz buf ticks n r buf')
  show ?thesis
  proof (cases "valid_ino n")
    case True
    then show ?thesis
      using fs_read_file_content [OF fs_invD(1) [OF inv] True read(1)] read(2) atime_inv [OF inv True]
      by auto
  next
    case False
    then show ?thesis using read(2) inv by (simp add: fs_read_file_def)
  qed
next
  case (change_dir n r)
  then show ?thesis using inv by (auto simp: fs_change_dir_def change_dir_inv split: option.splits)
qed

interpretation bkfs_steps: stepping fs_step fs_inv
  by unfold_locales (rule fs_step_inv)

section \<open>Properties\<close>

text \<open>C4: Read after write. A write of at most 12 blocks for which there is room succeeds, and a read
  of the same inode afterwards, at any later time, returns the byte count and the bytes written and
  leaves the rest of the buffer alone.\<close>

theorem fs_write_then_read:
  assumes "fs_inv s" and "valid_ino n" and "inode_taken s (ino_ix n)"
    and "unat sz \<le> length data" and "blocks_for (unat sz) \<le> room s (ino_ix n)"
    and "unat sz \<le> INODE_DIRECT_BLOCKS * BLOCK_SIZE" and "unat sz \<le> unat rsz" and "unat rsz \<le> length buf"
  shows "\<exists>s' s''. fs_write_file ticks n data sz s = Inr (FS_SUCCESS, s') \<and> fs_inv s' \<and>
    fs_read_file ticks' n buf rsz s' = Inr (int (unat sz), take (unat sz) data @ drop (unat sz) buf, s'')"
proof -
  obtain s' where w: "fs_write_file ticks n data sz s = Inr (FS_SUCCESS, s')"
    and st: "stored s (ino_ix n) (take (unat sz) data) s'"
    using fs_write_file_outcome [OF fs_invD(1) [OF assms(1)] assms(2-4,6), of ticks] assms(5) by auto
  have inv: "fs_data_inv s'" and c: "content s' (ino_ix n) = take (unat sz) data"
    using st by (simp_all add: stored_def)
  have "min (unat rsz) (length (content s' (ino_ix n))) = unat sz"
    using assms(4,7) c by simp
  then have "fs_read_file ticks' n buf rsz s' = Inr (int (unat sz), take (unat sz) data @ drop (unat sz) buf,
      upd_inode n (\<lambda>ino. ino\<lparr>i_atime := ticks'\<rparr>) s')"
    using fs_read_file_content [OF inv assms(2,8), of ticks'] c by simp
  then show ?thesis using w stored_inv [OF assms(1) st] by blast
qed

theorem fs_write_then_read_witness:
  "\<exists>s' s''. fs_write_file 0 1 ''hello'' 5 one_file = Inr (FS_SUCCESS, s') \<and> fs_inv s' \<and>
    fs_read_file 0 1 (replicate 8 NUL) 8 s' = Inr (5, ''hello'' @ replicate 3 NUL, s'')"
proof -
  have "fs_inv one_file" using one_file_created by (simp add: created_def)
  then show ?thesis
    using fs_write_then_read [of one_file 1 5 "''hello''" 8 "replicate 8 NUL" 0 0] one_file_taken
    by (simp add: one_file_room blocks_for_def)
qed

text \<open>C10: Files do not interfere. After a successful write to one inode, reading any other inode
  returns the same count and the same bytes as before, and the directory table is unchanged.\<close>

theorem fs_write_isolated:
  assumes "fs_inv s" and "valid_ino n" and "inode_taken s (ino_ix n)" and "unat sz \<le> length data"
    and "unat sz + 1023 < 4294967296" and "fs_write_file ticks n data sz s = Inr (FS_SUCCESS, s')"
    and "valid_ino m" and "m \<noteq> n" and "unat rsz \<le> length buf"
  shows "(\<exists>r b t t'. fs_read_file ticks' m buf rsz s = Inr (r, b, t) \<and>
      fs_read_file ticks' m buf rsz s' = Inr (r, b, t')) \<and> entries s' = entries s"
proof -
  have fits: "unat sz \<le> INODE_DIRECT_BLOCKS * BLOCK_SIZE"
    using fs_write_file_too_large [OF assms(2) _ assms(5), of ticks data s] assms(6) by fastforce
  have st: "stored s (ino_ix n) (take (unat sz) data) s'"
    using fs_write_file_outcome [OF fs_invD(1) [OF assms(1)] assms(2-4) fits, of ticks] assms(6)
    by (auto split: if_splits)
  have "ino_ix m \<noteq> ino_ix n" using ino_ix_inject [OF assms(7,2)] assms(8) by simp
  then have c: "content s' (ino_ix m) = content s (ino_ix m)" and inv: "fs_data_inv s'"
    and e: "entries s' = entries s"
    using st ino_ix_lt [OF assms(7)] by (simp_all add: stored_def entries_def)
  show ?thesis
    using fs_read_file_content [OF fs_invD(1) [OF assms(1)] assms(7,9), of ticks']
      fs_read_file_content [OF inv assms(7,9), of ticks'] c e by simp
qed

theorem fs_write_isolated_witness:
  "\<exists>s'. fs_write_file 0 1 ''hello'' 5 one_file = Inr (FS_SUCCESS, s') \<and>
    (\<exists>r b t t'. fs_read_file 0 2 (replicate 4 NUL) 4 one_file = Inr (r, b, t) \<and>
      fs_read_file 0 2 (replicate 4 NUL) 4 s' = Inr (r, b, t')) \<and> entries s' = entries one_file"
proof -
  have inv: "fs_inv one_file" using one_file_created by (simp add: created_def)
  obtain s' where w: "fs_write_file 0 1 ''hello'' 5 one_file = Inr (FS_SUCCESS, s')"
    using fs_write_file_outcome [of one_file 1 5 "''hello''" 0] fs_invD(1) [OF inv] one_file_taken
    by (auto simp: one_file_room blocks_for_def)
  have "valid_ino 2" using valid_ino_of_slot [of 1] by simp
  then show ?thesis
    using fs_write_isolated [OF inv _ _ _ _ w, of 2 4 "replicate 4 NUL" 0] one_file_taken w by auto
qed

text \<open>C16: A write to an inode in use succeeds exactly when the new size is at most 12 blocks and the
  free blocks together with the blocks of the file itself, other than block 0, are enough for it; otherwise
  it reports an error. It never faults.\<close>

theorem fs_write_succeeds_iff:
  assumes "fs_inv s" and "valid_ino n" and "inode_taken s (ino_ix n)"
    and "unat sz \<le> length data" and "unat sz + 1023 < 2 ^ 32"
  shows "\<exists>s'. fs_write_file ticks n data sz s =
    Inr (if unat sz \<le> INODE_DIRECT_BLOCKS * BLOCK_SIZE \<and> blocks_for (unat sz) \<le> room s (ino_ix n)
         then FS_SUCCESS else FS_ERROR, s')"
proof (cases "unat sz \<le> INODE_DIRECT_BLOCKS * BLOCK_SIZE")
  case True
  obtain s' where w: "fs_write_file ticks n data sz s =
      Inr (if blocks_for (unat sz) \<le> room s (ino_ix n) then FS_SUCCESS else FS_ERROR, s')"
    using fs_write_file_outcome [OF fs_invD(1) [OF assms(1)] assms(2-4) True, of ticks] by blast
  show ?thesis by (rule exI [of _ s']) (simp only: w True simp_thms)
next
  case False
  have "fs_write_file ticks n data sz s = Inr (FS_ERROR, s)"
    by (rule fs_write_file_too_large [OF assms(2)]) (use False assms(5) in simp_all)
  then show ?thesis by (intro exI [of _ s]) (simp only: False simp_thms if_False)
qed

theorem fs_write_succeeds_iff_witness:
  "\<exists>s'. fs_write_file 0 1 ''hello'' 5 one_file = Inr (FS_SUCCESS, s')"
proof -
  have "fs_inv one_file" using one_file_created by (simp add: created_def)
  then show ?thesis
    using fs_write_succeeds_iff [of one_file 1 5 "''hello''" 0] one_file_taken
    by (simp add: one_file_room blocks_for_def)
qed

text \<open>C17: What a write does when the blocks run out (the size is at most 12 blocks and they do not
  suffice): it reports an error. If the file was empty, or if there was no block at all to start with, the
  tables stay consistent. If the file had contents and there was some block, free or its own, the inode
  still claims its old number of blocks while its first block has been handed back to the pool, so
  the invariant is lost.\<close>

theorem fs_write_failure_dangles:
  assumes "fs_inv s" and "valid_ino n" and "unat sz \<le> INODE_DIRECT_BLOCKS * BLOCK_SIZE"
    and "\<not> blocks_for (unat sz) \<le> room s (ino_ix n)"
  shows "\<exists>s'. fs_write_file ticks n data sz s = Inr (FS_ERROR, s') \<and>
    (if 0 < room s (ino_ix n) \<and> i_size (inodes s ! ino_ix n) \<noteq> 0
     then owns s' (ino_ix n) 0 \<and> \<not> block_taken s' (blk s' (ino_ix n) 0) \<and> \<not> fs_inv s'
     else fs_inv s')"
proof (cases "starves s n sz")
  case True
  then have some: "0 < room s (ino_ix n)" "i_size (inodes s ! ino_ix n) \<noteq> 0" by (simp_all add: starves_def)
  obtain s' where s': "fs_write_file ticks n data sz s = Inr (FS_ERROR, s')"
    "owns s' (ino_ix n) 0" "\<not> block_taken s' (blk s' (ino_ix n) 0)"
    using fs_write_file_failed [OF fs_invD(1) [OF assms(1)] assms(2-4) some, of ticks data] by blast
  then have "\<not> fs_inv s'" using fs_data_invD(8) [OF fs_invD(1), of s'] by blast
  then show ?thesis using s' some by simp
next
  case False
  then have "\<not> (0 < room s (ino_ix n) \<and> i_size (inodes s ! ino_ix n) \<noteq> 0)" using assms(3,4) by (simp add: starves_def)
  then show ?thesis using fs_write_file_failed_harmless [OF assms False, of ticks data] by (simp only: if_False)
qed

theorem fs_write_failure_dangles_witness:
  "\<exists>s'. fs_write_file 0 1 (replicate 3000 CHR ''x'') 3000 (one_block 5 (\<lambda>b. b \<noteq> 3) 1) = Inr (FS_ERROR, s') \<and>
    owns s' 0 0 \<and> \<not> block_taken s' (blk s' 0 0) \<and> \<not> fs_inv s'"
proof -
  let ?s = "one_block 5 (\<lambda>b. b \<noteq> 3) 1"
  have "{i. i < MAX_BLOCKS \<and> \<not> i \<noteq> 3} = {3::nat}" by auto
  then have I: "fs_inv ?s" "inode_taken ?s 0" "owns ?s 0 0" "blk ?s 0 0 = 5"
    using one_block_inv [of 5 "\<lambda>b. b \<noteq> 3" 1] by simp_all
  have sz: "i_size (inodes ?s ! 0) = 1" "i_blocks (inodes ?s ! 0) = 1"
    by (simp_all add: one_block_def one_file_def static_bkfs_def)
  have "owns ?s 0 i \<longleftrightarrow> i = 0" for i using sz by (auto simp: owns_def)
  then have o: "(\<exists>i. owns ?s 0 i \<and> blk ?s 0 i = b) \<longleftrightarrow> b = 5" for b using I(4) by auto
  have "{b. b < MAX_BLOCKS \<and> (\<not> block_taken ?s b \<or> b \<noteq> 0 \<and> b = 5)} = {b. b = 3 \<or> b = 5}"
    by (rule Collect_cong) (use one_block_taken [of _ 5 "\<lambda>b. b \<noteq> 3" 1] in force)
  also have "\<dots> = {3, 5}" by auto
  finally have "room ?s 0 = 2" unfolding room_def o by simp
  then show ?thesis
    using fs_write_failure_dangles [of ?s 1 3000 0 "replicate 3000 CHR ''x''"] I sz
    by (simp add: blocks_for_def del: replicate.simps)
qed

text \<open>C33: Creation, for every name. With a full table the state is unchanged and an error is reported (the
  inodes cannot run out first). Otherwise a name of at most 30 characters gets a new entry at the end of
  the table, which names a free inode, the file is empty and every other file is as before; a name of
  31 or more characters overruns the table.\<close>

theorem create_entry_outcome:
  assumes "fs_inv s" and "is_cstr name"
  shows "if \<not> file_count s < MAX_FILES then create_entry ticks name parent type s = Inr (FS_ERROR, s)
    else if length name \<le> 30
    then \<exists>e s'. create_entry ticks name parent type s = Inr (FS_SUCCESS, s') \<and> created s e s' \<and>
      entry_name e = name \<and> f_parent_inode e = parent \<and> f_type e = type
    else create_entry ticks name parent type s = Inl OutOfBounds"
proof (cases "file_count s < MAX_FILES \<and> length name \<le> 30")
  case True
  then show ?thesis using create_entry_ok [OF assms(1) _ assms(2), of ticks parent type] by auto
next
  case False
  then show ?thesis
    using create_entry_full [of s] create_entry_long_name [OF assms(1), of name ticks parent type] by auto
qed

theorem create_entry_outcome_witness:
  "(\<exists>e s'. create_entry 0 ''notes'' 1 FILE_REGULAR one_file = Inr (FS_SUCCESS, s') \<and> created one_file e s' \<and>
      entry_name e = ''notes'' \<and> f_parent_inode e = 1 \<and> f_type e = FILE_REGULAR) \<and>
    create_entry 0 (replicate 31 CHR ''n'') 1 FILE_REGULAR one_file = Inl OutOfBounds"
proof -
  have "fs_inv one_file" using one_file_created by (simp add: created_def)
  then show ?thesis
    using create_entry_outcome [of one_file "''notes''" 0 1 FILE_REGULAR]
      create_entry_outcome [of one_file "replicate 31 CHR ''n''" 0 1 FILE_REGULAR]
    by (simp add: is_cstr_def one_file_def static_bkfs_def)
qed

text \<open>C18: Deletion. Deleting an inode in use cuts exactly its entry out of the table, frees the
  inode and its blocks other than block 0, and leaves every other file as it was.\<close>

theorem drop_file_deletes:
  assumes "fs_inv s" and "valid_ino n" and "inode_taken s (ino_ix n)"
  shows "deleted s n (drop_file n s)"
  using drop_file_ok [OF assms] .

theorem drop_file_deletes_witness: "deleted one_file 1 (drop_file 1 one_file)"
proof -
  have "fs_inv one_file" using one_file_created by (simp add: created_def)
  then show ?thesis using drop_file_deletes [of one_file 1] one_file_taken by simp
qed

text \<open>Block 0 is allocated but never returned. After deleting the file that holds it, it is still
  marked as used and belongs to no file.\<close>

theorem block_0_leaks:
  assumes "fs_inv s" and "valid_ino n" and "inode_taken s (ino_ix n)"
    and "owns s (ino_ix n) i" and "blk s (ino_ix n) i = 0"
  shows "block_taken (drop_file n s) 0 \<and> (\<forall>m j. owns (drop_file n s) m j \<longrightarrow> blk (drop_file n s) m j \<noteq> 0)"
proof -
  let ?t = "drop_file n s"
  note F = fs_invD [OF assms(1)]
  have d: "deleted s n ?t" using drop_file_ok [OF assms(1-3)] .
  have t0: "block_taken ?t 0"
    using d fs_data_invD(8) [OF F(1) assms(4)] assms(5) by (simp add: deleted_def)
  have "blk ?t m j \<noteq> 0" if o: "owns ?t m j" for m j
  proof
    assume z: "blk ?t m j = 0"
    have m: "m < MAX_INODES" using o by (simp add: owns_def)
    have inv: "fs_data_inv ?t" using d fs_invD(1) by (simp add: deleted_def)
    show False
    proof (cases "m = ino_ix n")
      case True
      then have "i_size (inodes ?t ! m) = 0" "unat (i_blocks (inodes ?t ! m)) = blocks_for (unat (i_size (inodes ?t ! m)))"
        using d m fs_data_invD(10,11) [OF inv m] by (simp_all add: deleted_def)
      then show False using o by (simp add: owns_def blocks_for_def)
    next
      case False
      then have "inodes ?t ! m = inodes s ! m" using d m by (simp add: deleted_def)
      then have "owns s m j" "blk s m j = blk s (ino_ix n) i"
        using o z assms(5) by (simp_all add: owns_def blk_def)
      then show False using fs_data_invD(9) [OF F(1), of m j] assms(4) False by blast
    qed
  qed
  then show ?thesis using t0 by blast
qed

theorem block_0_leaks_witness:
  "block_taken (drop_file 1 (one_block 0 (\<lambda>b. b = 0) 1023)) 0"
proof -
  have "{i. i < MAX_BLOCKS \<and> i \<noteq> 0} = {1..<1024::nat}" by auto
  then have I: "fs_inv (one_block 0 (\<lambda>b. b = 0) 1023)" "inode_taken (one_block 0 (\<lambda>b. b = 0) 1023) 0"
    "owns (one_block 0 (\<lambda>b. b = 0) 1023) 0 0" "blk (one_block 0 (\<lambda>b. b = 0) 1023) 0 0 = 0"
    using one_block_inv [of 0 "\<lambda>b. b = 0" 1023] by simp_all
  then show ?thesis using block_0_leaks [of _ 1 0] by simp
qed



end
