(* ===== verification/Bkfs_Refine.thy ===== *)
theory Bkfs_Refine imports Bkfs_Props begin

text \<open>
  bkFS against an abstract store. The store has the directory as a list of rows, the contents of
  every inode in use, and the working directory; there are no blocks, no bitmaps and no counters.
  Every operation of the kernel with legal arguments answers as the store does and leads to
  related states, until a write finds too few free blocks.
\<close>

section \<open>Operations and their replies\<close>

datatype fs_op =
    Create string u32 u8
  | Delete u32
  | Write u32 "char list" u32
  | Read u32 carray u32
  | Chdir u32

datatype reply = Code int | Bytes int carray

primrec fs_exec :: "u32 \<Rightarrow> fs_op \<Rightarrow> bkfs \<Rightarrow> fault + (reply \<times> bkfs)" where
  "fs_exec ticks (Create name parent type) s =
     sbind (create_entry ticks name parent type s) (\<lambda>(r, s'). Inr (Code r, s'))"
| "fs_exec ticks (Delete n) s = Inr (Code FS_SUCCESS, drop_file n s)"
| "fs_exec ticks (Write n data sz) s =
     sbind (fs_write_file ticks n data sz s) (\<lambda>(r, s'). Inr (Code r, s'))"
| "fs_exec ticks (Read n buf sz) s =
     sbind (fs_read_file ticks n buf sz s) (\<lambda>(r, buf', s'). Inr (Bytes r buf', s'))"
| "fs_exec ticks (Chdir n) s = (let (r, s') = fs_change_dir n s in Inr (Code r, s'))"

section \<open>The store\<close>

type_synonym row = "string \<times> u32 \<times> u32 \<times> u8"

record store =
  rows :: "row list"
  file_data :: "u32 \<Rightarrow> char list option"
  working_dir :: u32

abbreviation row_ino :: "row \<Rightarrow> u32" where
  "row_ino r \<equiv> fst (snd r)"

abbreviation row_type :: "row \<Rightarrow> u8" where
  "row_type r \<equiv> snd (snd (snd r))"

definition max_rows :: nat where
  "max_rows = MAX_FILES - 5"

definition max_size :: nat where
  "max_size = INODE_DIRECT_BLOCKS * BLOCK_SIZE"

definition old_data :: "store \<Rightarrow> u32 \<Rightarrow> char list" where
  "old_data a n = (case file_data a n of None \<Rightarrow> [] | Some c \<Rightarrow> c)"

inductive store_step :: "store \<Rightarrow> fs_op \<Rightarrow> reply \<Rightarrow> store \<Rightarrow> bool" where
  create: "length (rows a) < max_rows \<Longrightarrow> valid_ino n \<Longrightarrow> file_data a n = None \<Longrightarrow>
    store_step a (Create name parent type) (Code FS_SUCCESS)
      (a\<lparr>rows := rows a @ [(name, n, parent, type)], file_data := (file_data a)(n \<mapsto> [])\<rparr>)"
| create_full: "length (rows a) \<ge> max_rows \<Longrightarrow>
    store_step a (Create name parent type) (Code FS_ERROR) a"
| delete: "file_data a n \<noteq> None \<Longrightarrow> store_step a (Delete n) (Code FS_SUCCESS)
    (a\<lparr>rows := filter (\<lambda>r. row_ino r \<noteq> n) (rows a), file_data := (file_data a)(n := None)\<rparr>)"
| overwrite: "file_data a n \<noteq> None \<Longrightarrow> unat sz \<le> max_size \<Longrightarrow>
    store_step a (Write n data sz) (Code FS_SUCCESS)
      (a\<lparr>file_data := (file_data a)(n \<mapsto> take (unat sz) data)\<rparr>)"
| overwrite_refused: "\<not> valid_ino n \<or> max_size < unat sz \<Longrightarrow>
    store_step a (Write n data sz) (Code FS_ERROR) a"
| read: "valid_ino n \<Longrightarrow> m = min (unat sz) (length (old_data a n)) \<Longrightarrow>
    store_step a (Read n buf sz) (Bytes (int m) (take m (old_data a n) @ drop m buf)) a"
| read_refused: "\<not> valid_ino n \<Longrightarrow> store_step a (Read n buf sz) (Bytes FS_ERROR buf) a"
| chdir: "\<exists>r \<in> set (rows a). row_ino r = n \<and> row_type r = FILE_DIR \<Longrightarrow>
    store_step a (Chdir n) (Code FS_SUCCESS) (a\<lparr>working_dir := n\<rparr>)"
| chdir_refused: "\<forall>r \<in> set (rows a). row_ino r = n \<longrightarrow> row_type r \<noteq> FILE_DIR \<Longrightarrow>
    store_step a (Chdir n) (Code FS_ERROR) a"

text \<open>
  The arguments the kernel may pass: names that fit, buffers as long as the size says, inode
  numbers in use where contents are changed.
\<close>

primrec legal :: "store \<Rightarrow> fs_op \<Rightarrow> bool" where
  "legal a (Create name parent type) \<longleftrightarrow> is_cstr name \<and> length name \<le> 30"
| "legal a (Delete n) \<longleftrightarrow> file_data a n \<noteq> None"
| "legal a (Write n data sz) \<longleftrightarrow> (valid_ino n \<longrightarrow> file_data a n \<noteq> None) \<and> unat sz \<le> length data \<and>
     unat sz + 1023 < 4294967296"
| "legal a (Read n buf sz) \<longleftrightarrow> unat sz \<le> length buf"
| "legal a (Chdir n) \<longleftrightarrow> True"

text \<open>A write that is refused although the arguments are in range: the disk is full.\<close>

primrec disk_full :: "fs_op \<Rightarrow> reply \<Rightarrow> bool" where
  "disk_full (Write n data sz) r \<longleftrightarrow> valid_ino n \<and> unat sz \<le> max_size \<and> r = Code FS_ERROR"
| "disk_full (Create name parent type) r \<longleftrightarrow> False"
| "disk_full (Delete n) r \<longleftrightarrow> False"
| "disk_full (Read n buf sz) r \<longleftrightarrow> False"
| "disk_full (Chdir n) r \<longleftrightarrow> False"

section \<open>The abstraction\<close>

definition row_of :: "file_entry \<Rightarrow> row" where
  "row_of e = (entry_name e, f_inode e, f_parent_inode e, f_type e)"

definition abs_store :: "bkfs \<Rightarrow> store" where
  "abs_store s = \<lparr>rows = map row_of (drop 5 (entries s)),
     file_data = (\<lambda>n. if valid_ino n \<and> inode_taken s (ino_ix n) then Some (content s (ino_ix n)) else None),
     working_dir = current_inode s\<rparr>"

lemma abs_store_simps [simp]:
  "rows (abs_store s) = map row_of (drop 5 (entries s))"
  "file_data (abs_store s) n = (if valid_ino n \<and> inode_taken s (ino_ix n) then Some (content s (ino_ix n)) else None)"
  "working_dir (abs_store s) = current_inode s"
  by (simp_all add: abs_store_def)

lemma abs_store_eqI:
  assumes "map row_of (drop 5 (entries s)) = rows a" and "current_inode s = working_dir a"
    and "\<And>n. file_data (abs_store s) n = file_data a n"
  shows "abs_store s = a"
  using assms by (intro store.equality ext) simp_all

lemma length_entries:
  assumes "fs_inv s"
  shows "length (entries s) = file_count s" "length (drop 5 (entries s)) < max_rows \<longleftrightarrow> file_count s < MAX_FILES"
  using fs_data_invD(3,4) [OF fs_invD(1) [OF assms]] fs_invD(2) [OF assms]
  by (auto simp: entries_def max_rows_def)

text \<open>Inodes that are not in use have no contents, so reading them gives nothing.\<close>

lemma old_data_abs:
  assumes "fs_inv s" and "valid_ino n"
  shows "old_data (abs_store s) n = content s (ino_ix n)"
proof (cases "inode_taken s (ino_ix n)")
  case False
  have "length (content s (ino_ix n)) = unat (i_size (inodes s ! ino_ix n))"
    using length_content [OF fs_invD(1) [OF assms(1)] ino_ix_lt [OF assms(2)]] .
  also have "\<dots> = 0"
    using False assms ino_ix_lt [OF assms(2)] fs_invD(1) [OF assms(1)]
    by (simp add: fs_data_inv_def fs_sized_def)
  finally show ?thesis using False by (simp add: old_data_def)
qed (use assms in \<open>simp add: old_data_def\<close>)

lemma abs_data_other:
  assumes "valid_ino n" and "\<forall>m<MAX_INODES. m \<noteq> ino_ix n \<longrightarrow> inodes s' ! m = inodes s ! m \<and> content s' m = content s m"
    and "m \<noteq> n"
  shows "file_data (abs_store s') m = file_data (abs_store s) m"
proof (cases "valid_ino m")
  case True
  then have "ino_ix m \<noteq> ino_ix n" "ino_ix m < MAX_INODES"
    using ino_ix_inject [OF True assms(1)] assms(3) ino_ix_lt by simp_all
  then show ?thesis using assms(2) by (simp add: inode_taken_def)
qed simp

section \<open>One operation\<close>

lemma sim_create:
  assumes "fs_inv s" and "legal (abs_store s) (Create name parent type)"
  shows "\<exists>r s'. fs_exec ticks (Create name parent type) s = Inr (r, s') \<and> fs_inv s' \<and>
    store_step (abs_store s) (Create name parent type) r (abs_store s')"
proof (cases "file_count s < MAX_FILES")
  case True
  obtain e s' where c: "create_entry ticks name parent type s = Inr (FS_SUCCESS, s')" "created s e s'"
    and e: "entry_name e = name" "f_parent_inode e = parent" "f_type e = type"
    using create_entry_ok [OF assms(1) True, of name ticks parent type] assms(2) by auto
  let ?n = "f_inode e"
  have v: "valid_ino ?n" and free: "\<not> inode_taken s (ino_ix ?n)" and now: "inode_taken s' (ino_ix ?n)"
    "content s' (ino_ix ?n) = []" and inv: "fs_inv s'" and cwd: "current_inode s' = current_inode s"
    and es: "entries s' = entries s @ [e]"
    and others: "\<forall>m<MAX_INODES. m \<noteq> ino_ix ?n \<longrightarrow> inodes s' ! m = inodes s ! m \<and> content s' m = content s m"
    using c(2) by (simp_all add: created_def)
  have "abs_store s' = (abs_store s)\<lparr>rows := rows (abs_store s) @ [(name, ?n, parent, type)],
      file_data := (file_data (abs_store s))(?n \<mapsto> [])\<rparr>"
  proof (rule abs_store_eqI)
    have "drop 5 (entries s @ [e]) = drop 5 (entries s) @ [e]"
      using length_entries(1) [OF assms(1)] fs_invD(2) [OF assms(1)] by simp
    then show "map row_of (drop 5 (entries s')) = rows ((abs_store s)\<lparr>rows := rows (abs_store s) @ [(name, ?n, parent, type)],
        file_data := (file_data (abs_store s))(?n \<mapsto> [])\<rparr>)"
      using e by (simp add: es row_of_def del: drop_append)
  qed (use v now cwd abs_data_other [OF v others] in auto)
  moreover have "store_step (abs_store s) (Create name parent type) (Code FS_SUCCESS)
      ((abs_store s)\<lparr>rows := rows (abs_store s) @ [(name, ?n, parent, type)],
      file_data := (file_data (abs_store s))(?n \<mapsto> [])\<rparr>)"
    using True free v length_entries(2) [OF assms(1)] by (intro store_step.create) simp_all
  ultimately show ?thesis using c(1) inv by simp
next
  case False
  then show ?thesis
    using create_entry_full [of s ticks name parent type] assms(1) length_entries(2) [OF assms(1)]
    by (auto intro!: store_step.create_full)
qed

lemma rows_without:
  assumes "fs_inv s" and "5 \<le> i" and "i < file_count s"
  shows "map row_of (drop 5 (take i (entries s) @ drop (Suc i) (entries s))) =
    filter (\<lambda>r. row_ino r \<noteq> f_inode (files s ! i)) (map row_of (drop 5 (entries s)))"
proof -
  let ?e = "entries s" and ?p = "\<lambda>e. f_inode e \<noteq> f_inode (files s ! i)"
  have len: "length ?e = file_count s" and nth: "\<And>j. j < file_count s \<Longrightarrow> ?e ! j = files s ! j"
    using length_entries(1) [OF assms(1)] by (simp_all add: entries_def)
  have d: "drop 5 ?e = drop 5 (take i ?e) @ ?e ! i # drop (Suc i) ?e"
    using id_take_nth_drop [of i ?e] assms(2,3) len by (metis drop_append length_take min.absorb4 diff_is_0_eq drop0)
  have other: "?p (?e ! j)" if "5 \<le> j" "j < file_count s" "j \<noteq> i" for j
    using fs_invD(6) [OF assms(1) that(1,2) assms(2,3)] that nth by auto
  have "\<forall>x \<in> set (drop 5 (take i ?e)). ?p x"
    using assms len by (auto simp: in_set_conv_nth other)
  moreover have "\<forall>x \<in> set (drop (Suc i) ?e). ?p x"
    using assms len by (auto simp: in_set_conv_nth other)
  ultimately have "filter ?p (drop 5 ?e) = drop 5 (take i ?e) @ drop (Suc i) ?e"
    using nth [OF assms(3)] by (simp add: d)
  moreover have "drop 5 (take i ?e @ drop (Suc i) ?e) = drop 5 (take i ?e) @ drop (Suc i) ?e"
    using assms len by simp
  moreover have "((\<lambda>r. row_ino r \<noteq> f_inode (files s ! i)) \<circ> row_of) = ?p" by (auto simp: row_of_def)
  ultimately show ?thesis by (simp add: filter_map del: drop_append)
qed

lemma sim_delete:
  assumes "fs_inv s" and "legal (abs_store s) (Delete n)"
  shows "fs_inv (drop_file n s) \<and> store_step (abs_store s) (Delete n) (Code FS_SUCCESS) (abs_store (drop_file n s))"
proof -
  let ?s' = "drop_file n s"
  have v: "valid_ino n" and tk: "inode_taken s (ino_ix n)" using assms(2) by (auto split: if_splits)
  have del: "deleted s n ?s'" by (rule drop_file_ok [OF assms(1) v tk])
  then obtain i where i: "5 \<le> i" "i < file_count s" "f_inode (files s ! i) = n"
    "entries ?s' = take i (entries s) @ drop (Suc i) (entries s)" unfolding deleted_def by blast
  have "\<not> inode_taken ?s' (ino_ix n)" "current_inode ?s' = current_inode s" "fs_inv ?s'"
    and others: "\<forall>m<MAX_INODES. m \<noteq> ino_ix n \<longrightarrow> inodes ?s' ! m = inodes s ! m \<and> content ?s' m = content s m"
    using del by (simp_all add: deleted_def)
  moreover from this have "abs_store ?s' = (abs_store s)\<lparr>rows := filter (\<lambda>r. row_ino r \<noteq> n) (rows (abs_store s)),
      file_data := (file_data (abs_store s))(n := None)\<rparr>"
    using rows_without [OF assms(1) i(1,2)] i(3,4) abs_data_other [OF v others] by (intro abs_store_eqI) auto
  moreover have "file_data (abs_store s) n \<noteq> None" using v tk by simp
  ultimately show ?thesis using store_step.delete [of "abs_store s" n] by simp
qed

lemma sim_write:
  assumes "fs_inv s" and "legal (abs_store s) (Write n data sz)"
  shows "\<exists>r s'. fs_exec ticks (Write n data sz) s = Inr (r, s') \<and>
    (disk_full (Write n data sz) r \<or> fs_inv s' \<and> store_step (abs_store s) (Write n data sz) r (abs_store s'))"
proof (cases "valid_ino n \<and> unat sz \<le> max_size")
  case True
  then have v: "valid_ino n" and fits: "unat sz \<le> INODE_DIRECT_BLOCKS * BLOCK_SIZE" by (simp_all add: max_size_def)
  have tk: "inode_taken s (ino_ix n)" and d: "unat sz \<le> length data" using assms(2) v by (auto split: if_splits)
  let ?ok = "blocks_for (unat sz) \<le> room s (ino_ix n)"
  obtain s' where w: "fs_write_file ticks n data sz s = Inr (if ?ok then FS_SUCCESS else FS_ERROR, s')"
    "?ok \<longrightarrow> stored s (ino_ix n) (take (unat sz) data) s'"
    using fs_write_file_outcome [OF fs_invD(1) [OF assms(1)] v tk d fits] by blast
  show ?thesis
  proof (cases ?ok)
    case ok: True
    then have st: "stored s (ino_ix n) (take (unat sz) data) s'" using w(2) by simp
    then have others: "\<forall>m<MAX_INODES. m \<noteq> ino_ix n \<longrightarrow> inodes s' ! m = inodes s ! m \<and> content s' m = content s m"
      and same: "entries s' = entries s" "current_inode s' = current_inode s" "content s' (ino_ix n) = take (unat sz) data"
      "inode_taken s' (ino_ix n)"
      using tk ino_ix_lt [OF v] by (simp_all add: stored_def entries_def)
    have "abs_store s' = (abs_store s)\<lparr>file_data := (file_data (abs_store s))(n \<mapsto> take (unat sz) data)\<rparr>"
      using same v abs_data_other [OF v others] by (intro abs_store_eqI) auto
    moreover have "store_step (abs_store s) (Write n data sz) (Code FS_SUCCESS)
        ((abs_store s)\<lparr>file_data := (file_data (abs_store s))(n \<mapsto> take (unat sz) data)\<rparr>)"
      using v tk True by (intro store_step.overwrite) simp_all
    ultimately show ?thesis using w(1) ok stored_inv [OF assms(1) st] by simp
  qed (use w(1) True in simp)
next
  case False
  have "fs_write_file ticks n data sz s = Inr (FS_ERROR, s)"
  proof (cases "valid_ino n")
    case True
    then show ?thesis using False assms(2) by (intro fs_write_file_too_large) (simp_all add: max_size_def)
  qed (simp add: fs_write_file_def)
  then show ?thesis
    using False assms(1) store_step.overwrite_refused [of n sz "abs_store s" data] by (auto simp: not_le)
qed

lemma abs_store_atime:
  assumes "fs_inv s" and "valid_ino n"
  shows "abs_store (upd_inode n (\<lambda>ino. ino\<lparr>i_atime := ticks\<rparr>) s) = abs_store s"
proof -
  note A = atime_frame [OF fs_invD(1) [OF assms(1)] ino_ix_lt [OF assms(2)]]
  show ?thesis using A(2,3) by (intro abs_store_eqI) (auto simp: entries_def dest: ino_ix_lt)
qed

lemma sim_read:
  assumes "fs_inv s" and "legal (abs_store s) (Read n buf sz)"
  shows "\<exists>r s'. fs_exec ticks (Read n buf sz) s = Inr (r, s') \<and> fs_inv s' \<and>
    store_step (abs_store s) (Read n buf sz) r (abs_store s')"
proof (cases "valid_ino n")
  case True
  have "unat sz \<le> length buf" using assms(2) by simp
  from fs_read_file_content [OF fs_invD(1) [OF assms(1)] True this, of ticks]
  show ?thesis
    using atime_inv [OF assms(1) True, of ticks] abs_store_atime [OF assms(1) True, of ticks]
      store_step.read [OF True refl, of "abs_store s" buf sz] old_data_abs [OF assms(1) True] by auto
qed (use assms(1) in \<open>auto simp: fs_read_file_def intro: store_step.read_refused\<close>)

text \<open>The five static entries of the table are no directories, so only rows can be entered.\<close>

lemma dir_row:
  assumes "fs_inv s"
  shows "(\<exists>i. find_entry (\<lambda>f. f_inode f = n \<and> f_type f = FILE_DIR) s = Some i) \<longleftrightarrow>
    (\<exists>r \<in> set (rows (abs_store s)). row_ino r = n \<and> row_type r = FILE_DIR)"
proof -
  let ?p = "\<lambda>f. f_inode f = n \<and> f_type f = FILE_DIR"
  have len: "length (entries s) = file_count s" "\<And>i. i < file_count s \<Longrightarrow> entries s ! i = files s ! i"
    using length_entries(1) [OF assms] by (simp_all add: entries_def)
  have z: "\<not> ?p (files s ! i)" if "i < 5" for i using fs_invD(3) [OF assms that] by (simp add: zero_file_def)
  have "(\<exists>i. find_entry ?p s = Some i) \<longleftrightarrow> (\<exists>i<file_count s. ?p (files s ! i))"
    using first_index_exists [of _ "file_count s" "\<lambda>i. ?p (files s ! i)"]
    by (auto simp: find_entry_def first_index_Some)
  also have "\<dots> \<longleftrightarrow> (\<exists>i. 5 \<le> i \<and> i < file_count s \<and> ?p (entries s ! i))"
    using z len by (metis not_le)
  also have "\<dots> \<longleftrightarrow> (\<exists>e \<in> set (drop 5 (entries s)). ?p e)"
  proof
    assume "\<exists>i. 5 \<le> i \<and> i < file_count s \<and> ?p (entries s ! i)"
    then obtain i where i: "5 \<le> i" "i < file_count s" "?p (entries s ! i)" by blast
    then have "drop 5 (entries s) ! (i - 5) = entries s ! i" "i - 5 < length (drop 5 (entries s))" using len by simp_all
    then show "\<exists>e \<in> set (drop 5 (entries s)). ?p e" using i(3) by (metis nth_mem)
  next
    assume "\<exists>e \<in> set (drop 5 (entries s)). ?p e"
    then obtain j where "j < length (entries s) - 5" "?p (entries s ! (5 + j))"
      using len by (auto simp: in_set_conv_nth)
    then show "\<exists>i. 5 \<le> i \<and> i < file_count s \<and> ?p (entries s ! i)"
      using len by (intro exI [of _ "5 + j"]) simp
  qed
  finally show ?thesis by (auto simp: row_of_def)
qed

lemma sim_chdir:
  assumes "fs_inv s"
  shows "\<exists>r s'. fs_exec ticks (Chdir n) s = Inr (r, s') \<and> fs_inv s' \<and> store_step (abs_store s) (Chdir n) r (abs_store s')"
proof (cases "find_entry (\<lambda>f. f_inode f = n \<and> f_type f = FILE_DIR) s")
  case None
  then have "\<forall>r \<in> set (rows (abs_store s)). row_ino r = n \<longrightarrow> row_type r \<noteq> FILE_DIR"
    using dir_row [OF assms, of n] by auto
  from store_step.chdir_refused [OF this] show ?thesis using None assms by (simp add: fs_change_dir_def)
next
  case (Some i)
  then have "\<exists>r \<in> set (rows (abs_store s)). row_ino r = n \<and> row_type r = FILE_DIR"
    using dir_row [OF assms, of n] by blast
  moreover have "abs_store (s\<lparr>current_inode := n\<rparr>) = (abs_store s)\<lparr>working_dir := n\<rparr>"
    by (intro abs_store_eqI) (simp_all add: entries_def inode_taken_def content_def blk_def)
  ultimately show ?thesis
    using Some assms store_step.chdir [of "abs_store s" n] by (simp add: fs_change_dir_def change_dir_inv)
qed

lemma sim_step:
  assumes "fs_inv s" and "legal (abs_store s) op"
  shows "\<exists>r s'. fs_exec ticks op s = Inr (r, s') \<and>
    (disk_full op r \<or> fs_inv s' \<and> store_step (abs_store s) op r (abs_store s'))"
  using sim_create [OF assms(1)] sim_delete [OF assms(1)] sim_write [OF assms(1)] sim_read [OF assms(1)]
    sim_chdir [OF assms(1)] assms(2)
  by (cases op) (simp_all only: disk_full.simps simp_thms fs_exec.simps, simp_all)

section \<open>Runs\<close>

text \<open>Sequences of operations, each with the clock at which it runs and the reply it gives.\<close>

inductive bkfs_run :: "bkfs \<Rightarrow> (u32 \<times> fs_op \<times> reply) list \<Rightarrow> bkfs \<Rightarrow> bool" where
  stop: "bkfs_run s [] s"
| go: "legal (abs_store s) op \<Longrightarrow> fs_exec ticks op s = Inr (r, s') \<Longrightarrow> \<not> disk_full op r \<Longrightarrow>
    bkfs_run s' tr s'' \<Longrightarrow> bkfs_run s ((ticks, op, r) # tr) s''"

inductive store_run :: "store \<Rightarrow> (u32 \<times> fs_op \<times> reply) list \<Rightarrow> store \<Rightarrow> bool" where
  stop: "store_run a [] a"
| go: "store_step a op r a' \<Longrightarrow> store_run a' tr a'' \<Longrightarrow> store_run a ((ticks, op, r) # tr) a''"

lemma run_sim: "bkfs_run s tr s' \<Longrightarrow> fs_inv s \<Longrightarrow> fs_inv s' \<and> store_run (abs_store s) tr (abs_store s')"
proof (induction rule: bkfs_run.induct)
  case (go s op ticks r s' tr s'')
  then have "fs_inv s' \<and> store_step (abs_store s) op r (abs_store s')"
    using sim_step [OF go.prems go.hyps(1), of ticks] by auto
  then show ?case using go.IH by (auto intro: store_run.go)
qed (simp add: store_run.stop)

definition empty_store :: store where
  "empty_store = \<lparr>rows = [], file_data = (\<lambda>_. None), working_dir = 1\<rparr>"

lemma abs_static: "abs_store static_bkfs = empty_store"
  by (intro abs_store_eqI) (auto simp: empty_store_def entries_def static_bkfs_def inode_taken_def zero_inode_def
      valid_ino_iff)

section \<open>Properties\<close>

text \<open>C13: bkFS implements the store, one operation at a time: from consistent tables and with legal
  arguments every operation ends without a fault, and unless it is a write that finds the disk full
  it keeps the tables consistent, gives a reply the store may give and leads to the store's next
  state.\<close>

theorem fs_step_refines_store:
  assumes "fs_inv s" and "legal (abs_store s) op"
  shows "\<exists>r s'. fs_exec ticks op s = Inr (r, s') \<and>
    (disk_full op r \<or> fs_inv s' \<and> store_step (abs_store s) op r (abs_store s'))"
  by (rule sim_step [OF assms])

theorem fs_step_refines_store_witness:
  "\<exists>r s'. fs_exec 9 (Write 1 ''hello'' 5) one_file = Inr (r, s') \<and>
    (disk_full (Write 1 ''hello'' 5) r \<or> fs_inv s' \<and> store_step (abs_store one_file) (Write 1 ''hello'' 5) r (abs_store s'))"
  by (rule fs_step_refines_store) (use one_file_created one_file_taken in \<open>simp_all add: created_def\<close>)

text \<open>C1: Every sequence of legal operations from the initial tables, with the replies it gives, is a sequence
  of the store from the empty store and keeps the tables consistent, as long as no write finds the disk
  full. Legal means names of at most 30 characters, deletions of and writes to inodes in use, data and
  buffers as long as the size says, and sizes whose number of blocks does not wrap around; C17 shows
  that a write that finds the disk full can break the tables.\<close>

theorem fs_run_refines_store:
  assumes "bkfs_run static_bkfs tr s"
  shows "fs_inv s \<and> store_run empty_store tr (abs_store s)"
  using run_sim [OF assms static_bkfs_inv] by (simp add: abs_static)

theorem fs_run_refines_store_witness:
  "\<exists>n s. bkfs_run static_bkfs [(0, Create ''a'' 1 FILE_REGULAR, Code FS_SUCCESS),
      (5, Read n (replicate 4 NUL) 4, Bytes 0 (replicate 4 NUL))] s \<and>
    store_run empty_store [(0, Create ''a'' 1 FILE_REGULAR, Code FS_SUCCESS),
      (5, Read n (replicate 4 NUL) 4, Bytes 0 (replicate 4 NUL))] (abs_store s)"
proof -
  have fc: "file_count static_bkfs < MAX_FILES" by (simp add: static_bkfs_def)
  obtain e s where c: "create_entry 0 ''a'' 1 FILE_REGULAR static_bkfs = Inr (FS_SUCCESS, s)" "created static_bkfs e s"
    using create_entry_ok [OF static_bkfs_inv fc, of "''a''" 0 1 FILE_REGULAR] by auto
  let ?n = "f_inode e"
  have e: "valid_ino ?n" "content s (ino_ix ?n) = []" "fs_inv s" using c(2) by (simp_all add: created_def)
  let ?s = "upd_inode ?n (\<lambda>ino. ino\<lparr>i_atime := 5\<rparr>) s"
  have "fs_read_file 5 ?n (replicate 4 NUL) 4 s = Inr (0, replicate 4 NUL, ?s)"
    using fs_read_file_content [OF fs_invD(1) [OF e(3)] e(1), of 4 "replicate 4 NUL" 5] e(2) by simp
  then have r: "bkfs_run static_bkfs [(0, Create ''a'' 1 FILE_REGULAR, Code FS_SUCCESS),
      (5, Read ?n (replicate 4 NUL) 4, Bytes 0 (replicate 4 NUL))] ?s"
    using c(1) by (auto intro!: bkfs_run.intros)
  show ?thesis using fs_run_refines_store [OF r] r by blast
qed

end
