(* ===== verification/Console.thy ===== *)
theory Console imports Config begin

text \<open>
  The text console and the virtual terminals of src/lib/prdio.h: cursor and colour, the video
  memory at 0xB8000, the port writes that place the hardware cursor, the table of terminals with
  their saved screens, and the printing functions. All of them work on the record \<open>console\<close>, so
  what they leave alone in the rest of the machine needs no lemma.
\<close>

section \<open>State\<close>

text \<open>Accesses to the I/O ports, most recent first in the trace.\<close>

datatype io =
    OutB u16 u8
  | OutW u16 u16
  | OutL u16 u32
  | InB u16 u8

record tty =
  tty_row :: nat
  tty_column :: nat
  tty_color :: u8
  tty_buffer :: "nat \<Rightarrow> nat \<Rightarrow> u16"
  tty_input_buffer :: carray
  tty_input_pos :: int
  tty_current_inode :: u32
  tty_logged_in :: bool

text \<open>
  \<open>terminal_buffer\<close> is video memory, indexed in cells of two bytes from 0xB8000. Row and column
  are of type \<open>size_t\<close>; they stay below 25 and 80, so they are natural numbers here.
\<close>

record console =
  terminal_buffer :: "nat \<Rightarrow> u16"
  terminal_row :: nat
  terminal_column :: nat
  terminal_color :: u8
  ttys :: "tty list"
  current_tty :: nat
  smouse_mode :: bool
  io_trace :: "io list"

text \<open>Static storage before \<open>kernel_main\<close>; the video memory is whatever the firmware left in it.\<close>

definition zero_tty :: tty where
  "zero_tty = \<lparr>tty_row = 0, tty_column = 0, tty_color = 0, tty_buffer = (\<lambda>_ _. 0),
     tty_input_buffer = replicate MAX_CMD_LEN NUL, tty_input_pos = 0,
     tty_current_inode = 0, tty_logged_in = False\<rparr>"

definition static_console :: "(nat \<Rightarrow> u16) \<Rightarrow> console" where
  "static_console vram = \<lparr>terminal_buffer = vram, terminal_row = 0, terminal_column = 0,
     terminal_color = push_bit 4 COLOR_BLACK OR COLOR_WHITE, ttys = replicate MAX_TTYS zero_tty,
     current_tty = 0, smouse_mode = False, io_trace = []\<rparr>"

section \<open>Ports and the cursor\<close>

definition outb :: "u16 \<Rightarrow> u8 \<Rightarrow> console \<Rightarrow> console" where
  "outb port val c = c\<lparr>io_trace := OutB port val # io_trace c\<rparr>"

definition outw :: "u16 \<Rightarrow> u16 \<Rightarrow> console \<Rightarrow> console" where
  "outw port val c = c\<lparr>io_trace := OutW port val # io_trace c\<rparr>"

definition outl :: "u16 \<Rightarrow> u32 \<Rightarrow> console \<Rightarrow> console" where
  "outl port val c = c\<lparr>io_trace := OutL port val # io_trace c\<rparr>"

definition io_wait :: "console \<Rightarrow> console" where
  "io_wait = outb 0x80 0"

definition move_cursor :: "nat \<Rightarrow> nat \<Rightarrow> console \<Rightarrow> console" where
  "move_cursor x y =
     (let pos = (of_nat (y * SCREEN_WIDTH + x) :: u16)
      in steps [outb 0x3D4 0x0F, outb 0x3D5 (ucast (pos AND 0xFF)),
                outb 0x3D4 0x0E, outb 0x3D5 (ucast (drop_bit 8 pos AND 0xFF))])"

section \<open>Cells\<close>

text \<open>
  \<open>c | (terminal_color << 8)\<close> stored in 16 bits: the \<open>char\<close> is signed, so a character above 0x7F
  sets every bit of the attribute.
\<close>

definition cell :: "char \<Rightarrow> u8 \<Rightarrow> u16" where
  "cell c color = word_of_int (schar c) OR push_bit 8 (ucast color)"

definition poke :: "nat \<Rightarrow> u16 \<Rightarrow> console \<Rightarrow> console" where
  "poke i v c = c\<lparr>terminal_buffer := (terminal_buffer c)(i := v)\<rparr>"

definition blank :: "console \<Rightarrow> u16" where
  "blank c = cell (CHR '' '') (terminal_color c)"

section \<open>Screen operations\<close>

definition terminal_setcolor :: "u8 \<Rightarrow> u8 \<Rightarrow> console \<Rightarrow> console" where
  "terminal_setcolor fg bg c =
     (let color = push_bit 4 bg OR (fg AND 0x0F)
      in c\<lparr>terminal_color := color,
           ttys := (ttys c)[current_tty c := (ttys c ! current_tty c)\<lparr>tty_color := color\<rparr>]\<rparr>)"

definition terminal_clear :: "console \<Rightarrow> console" where
  "terminal_clear = steps
     [\<lambda>c. fold (\<lambda>y. fold (\<lambda>x c. poke (y * SCREEN_WIDTH + x) (blank c) c) [0..<SCREEN_WIDTH])
            [0..<SCREEN_HEIGHT] c,
      \<lambda>c. c\<lparr>terminal_row := 0, terminal_column := 0\<rparr>,
      move_cursor 0 0]"

definition terminal_scroll :: "console \<Rightarrow> console" where
  "terminal_scroll = steps
     [\<lambda>c. fold (\<lambda>y. fold (\<lambda>x c. poke ((y - 1) * SCREEN_WIDTH + x)
                (terminal_buffer c (y * SCREEN_WIDTH + x)) c) [0..<SCREEN_WIDTH])
            [1..<SCREEN_HEIGHT] c,
      \<lambda>c. fold (\<lambda>x c. poke ((SCREEN_HEIGHT - 1) * SCREEN_WIDTH + x) (blank c) c) [0..<SCREEN_WIDTH] c,
      \<lambda>c. c\<lparr>terminal_row := SCREEN_HEIGHT - 1, terminal_column := 0\<rparr>]"

text \<open>\<open>if (++terminal_row == SCREEN_HEIGHT) terminal_scroll();\<close>\<close>

definition next_row :: "console \<Rightarrow> console" where
  "next_row c =
     (let c1 = c\<lparr>terminal_row := terminal_row c + 1\<rparr>
      in if terminal_row c1 = SCREEN_HEIGHT then terminal_scroll c1 else c1)"

definition cursor_index :: "console \<Rightarrow> nat" where
  "cursor_index c = terminal_row c * SCREEN_WIDTH + terminal_column c"

definition put_newline :: "console \<Rightarrow> console" where
  "put_newline c = next_row (c\<lparr>terminal_column := 0\<rparr>)"

definition put_backspace :: "console \<Rightarrow> console" where
  "put_backspace c =
     (if terminal_column c > 0
      then (let c1 = c\<lparr>terminal_column := terminal_column c - 1\<rparr>
            in poke (cursor_index c1) (blank c1) c1)
      else if terminal_row c > 0
      then (let c1 = c\<lparr>terminal_row := terminal_row c - 1, terminal_column := SCREEN_WIDTH - 1\<rparr>
            in poke (cursor_index c1) (blank c1) c1)
      else c)"

definition put_glyph :: "char \<Rightarrow> console \<Rightarrow> console" where
  "put_glyph ch c =
     (let c1 = poke (cursor_index c) (cell ch (terminal_color c)) c;
          c2 = c1\<lparr>terminal_column := terminal_column c1 + 1\<rparr>
      in if terminal_column c2 = SCREEN_WIDTH then next_row (c2\<lparr>terminal_column := 0\<rparr>) else c2)"

definition terminal_putchar :: "char \<Rightarrow> console \<Rightarrow> console" where
  "terminal_putchar ch c =
     (if smouse_mode c then c
      else
        (let c1 = (if ch = CHR 0x0A then put_newline c
                   else if ch = CHR 0x08 then put_backspace c
                   else put_glyph ch c)
         in move_cursor (terminal_column c1) (terminal_row c1) c1))"

text \<open>The loops over the characters; \<open>terminal_write\<close> reads the first \<open>size\<close> bytes of its array.\<close>

definition terminal_write :: "char list \<Rightarrow> nat \<Rightarrow> console \<Rightarrow> fault + console" where
  "terminal_write data n c =
     (if smouse_mode c then Inr c
      else sfold (\<lambda>i c. sbind (read_at data i) (\<lambda>ch. Inr (terminal_putchar ch c))) [0..<n] c)"

definition terminal_writestring :: "string \<Rightarrow> console \<Rightarrow> console" where
  "terminal_writestring s c = (if smouse_mode c then c else fold terminal_putchar s c)"

section \<open>Formatted output\<close>

text \<open>
  The arguments of a call: a 32 bit value, read as \<open>int\<close> by \<open>%d\<close>, as \<open>char\<close> by \<open>%c\<close> and as unsigned
  by \<open>%x\<close>, or a string pointer.
\<close>

datatype arg =
    Word u32
  | Str string

text \<open>\<open>*ptr++ = c\<close> in the array \<open>buffer[256]\<close>: the text written so far.\<close>

definition emit :: "char \<Rightarrow> string \<Rightarrow> fault + string" where
  "emit ch out = (if length out < 256 then Inr (out @ [ch]) else Inl OutOfBounds)"

definition emit_all :: "string \<Rightarrow> string \<Rightarrow> fault + string" where
  "emit_all s out = sfold emit s out"

definition hex_digits :: string where
  "hex_digits = ''0123456789ABCDEF''"

definition hex_string :: "u32 \<Rightarrow> string" where
  "hex_string num = map (\<lambda>i. hex_digits ! unat (drop_bit (i * 4) num AND 0xF)) (rev [0..<8])"

definition take_arg :: "arg list \<Rightarrow> fault + arg \<times> arg list" where
  "take_arg args = (case args of [] \<Rightarrow> Inl MissingArgument | a # as \<Rightarrow> Inr (a, as))"

definition word_arg :: "arg \<Rightarrow> fault + u32" where
  "word_arg a = (case a of Word w \<Rightarrow> Inr w | Str s \<Rightarrow> Inl MissingArgument)"

definition str_arg :: "arg \<Rightarrow> fault + string" where
  "str_arg a = (case a of Word w \<Rightarrow> Inl MissingArgument | Str s \<Rightarrow> Inr s)"

text \<open>One conversion: the letter after the percent sign. An unknown letter is skipped.\<close>

definition convert :: "char \<Rightarrow> arg list \<Rightarrow> string \<Rightarrow> fault + string \<times> arg list" where
  "convert ch args out =
     (if ch = CHR ''d'' then
        sbind (take_arg args) (\<lambda>(a, as). sbind (word_arg a) (\<lambda>w.
        sbind (int_to_str (sint w) (replicate 16 NUL)) (\<lambda>num_str.
        sbind (emit_all (cstr num_str) out) (\<lambda>o'. Inr (o', as)))))
      else if ch = CHR ''s'' then
        sbind (take_arg args) (\<lambda>(a, as). sbind (str_arg a) (\<lambda>s.
        sbind (emit_all s out) (\<lambda>o'. Inr (o', as))))
      else if ch = CHR ''c'' then
        sbind (take_arg args) (\<lambda>(a, as). sbind (word_arg a) (\<lambda>w.
        sbind (emit (char_of (unat w)) out) (\<lambda>o'. Inr (o', as))))
      else if ch = CHR ''x'' then
        sbind (take_arg args) (\<lambda>(a, as). sbind (word_arg a) (\<lambda>w.
        sbind (emit_all (hex_string w) out) (\<lambda>o'. Inr (o', as))))
      else if ch = CHR ''%'' then sbind (emit (CHR ''%'') out) (\<lambda>o'. Inr (o', args))
      else Inr (out, args))"

text \<open>
  The loop over the format. A percent sign at its end makes the loop step over the terminator and
  read on behind the string.
\<close>

fun format_loop :: "string \<Rightarrow> arg list \<Rightarrow> string \<Rightarrow> fault + string" where
  "format_loop [] args out = Inr out"
| "format_loop (ch # fmt) args out =
     (if ch = CHR ''%''
      then (case fmt of
              [] \<Rightarrow> Inl OutOfBounds
            | f # fmt' \<Rightarrow> sbind (convert f args out) (\<lambda>(o', as). format_loop fmt' as o'))
      else sbind (emit ch out) (format_loop fmt args))"

definition terminal_printf :: "string \<Rightarrow> arg list \<Rightarrow> console \<Rightarrow> fault + console" where
  "terminal_printf fmt args c =
     (if smouse_mode c then Inr c
      else sbind (format_loop fmt args []) (\<lambda>out.
           sbind (emit NUL out) (\<lambda>buffer. Inr (terminal_writestring (cstr buffer) c))))"

section \<open>Virtual terminals\<close>

definition initialize_ttys :: "console \<Rightarrow> console" where
  "initialize_ttys c =
     c\<lparr>ttys := map (\<lambda>t. t\<lparr>tty_row := 0, tty_column := 0,
                       tty_color := push_bit 4 COLOR_BLACK OR COLOR_WHITE, tty_input_pos := 0,
                       tty_current_inode := 1, tty_logged_in := False,
                       tty_buffer := (\<lambda>y x. if y < SCREEN_HEIGHT \<and> x < SCREEN_WIDTH then 0x2020
                                             else tty_buffer t y x)\<rparr>) (ttys c),
       current_tty := 0\<rparr>"

definition terminal_initialize :: "console \<Rightarrow> console" where
  "terminal_initialize = steps
     [\<lambda>c. c\<lparr>terminal_row := 0, terminal_column := 0,
           terminal_color := push_bit 4 COLOR_BLACK OR COLOR_WHITE\<rparr>,
      terminal_setcolor COLOR_WHITE COLOR_BLACK,
      terminal_clear,
      initialize_ttys]"

text \<open>
  Saving and restoring also carries the kernel's \<open>current_inode\<close>: it is an argument here and a
  result of the restore.
\<close>

definition upd_tty :: "nat \<Rightarrow> (tty \<Rightarrow> tty) \<Rightarrow> console \<Rightarrow> console" where
  "upd_tty i f c = c\<lparr>ttys := (ttys c)[i := f (ttys c ! i)]\<rparr>"

definition save_tty_state :: "u32 \<Rightarrow> console \<Rightarrow> console" where
  "save_tty_state cur_inode c =
     fold (\<lambda>y. fold (\<lambda>x c. upd_tty (current_tty c) (\<lambda>t. t\<lparr>tty_buffer := (\<lambda>y' x'.
              if y' = y \<and> x' = x then terminal_buffer c (y * SCREEN_WIDTH + x)
              else tty_buffer t y' x')\<rparr>) c) [0..<SCREEN_WIDTH]) [0..<SCREEN_HEIGHT]
       (upd_tty (current_tty c) (\<lambda>t. t\<lparr>tty_row := terminal_row c,
          tty_column := terminal_column c, tty_color := terminal_color c,
          tty_current_inode := cur_inode\<rparr>) c)"

definition restore_tty_state :: "console \<Rightarrow> u32 \<times> console" where
  "restore_tty_state c =
     (let t = ttys c ! current_tty c;
          c1 = c\<lparr>terminal_row := tty_row t, terminal_column := tty_column t,
                 terminal_color := tty_color t\<rparr>;
          c2 = fold (\<lambda>y. fold (\<lambda>x c. poke (y * SCREEN_WIDTH + x) (tty_buffer t y x) c)
                  [0..<SCREEN_WIDTH]) [0..<SCREEN_HEIGHT] c1
      in (tty_current_inode t, move_cursor (terminal_column c2) (terminal_row c2) c2))"

end
