(* ===== verification/Console_Props.thy ===== *)
theory Console_Props imports Console begin

text \<open>
  Closed forms of the screen loops, the bounds of the cursor and of the video memory written,
  what printing plain text shows, formatted output against a reference rendering, and the saved
  screens of the virtual terminals.
\<close>

section \<open>The screen loops\<close>

lemma poke_row:
  assumes "\<And>x m. x < w \<Longrightarrow> (\<forall>i. \<not> (b \<le> i \<and> i < b + w) \<longrightarrow> m i = terminal_buffer c i) \<Longrightarrow>
      g x (c\<lparr>terminal_buffer := m\<rparr>) = v x"
  shows "k \<le> w \<Longrightarrow> fold (\<lambda>x c. poke (b + x) (g x c) c) [0..<k] c =
    c\<lparr>terminal_buffer := (\<lambda>i. if b \<le> i \<and> i < b + k then v (i - b) else terminal_buffer c i)\<rparr>"
proof (induction k)
  case 0
  show ?case by (rule console.equality) (auto simp: fun_eq_iff)
next
  case (Suc k)
  then show ?case
    using assms [of k "\<lambda>i. if b \<le> i \<and> i < b + k then v (i - b) else terminal_buffer c i"]
    by (auto simp: poke_def fun_eq_iff)
qed

lemma poke_rows:
  assumes "\<And>y x m. g y x (c\<lparr>terminal_buffer := m\<rparr>) = v y x"
  shows "fold (\<lambda>y. fold (\<lambda>x c. poke (y * SCREEN_WIDTH + x) (g y x c) c) [0..<SCREEN_WIDTH]) [0..<h] c =
    c\<lparr>terminal_buffer := (\<lambda>i. if i < h * SCREEN_WIDTH then v (i div SCREEN_WIDTH) (i mod SCREEN_WIDTH)
                              else terminal_buffer c i)\<rparr>"
proof (induction h)
  case 0
  then show ?case by simp
next
  case (Suc h)
  let ?c = "c\<lparr>terminal_buffer := (\<lambda>i. if i < h * SCREEN_WIDTH then v (i div SCREEN_WIDTH) (i mod SCREEN_WIDTH)
                              else terminal_buffer c i)\<rparr>"
  have "fold (\<lambda>x c. poke (h * SCREEN_WIDTH + x) (g h x c) c) [0..<SCREEN_WIDTH] ?c =
    ?c\<lparr>terminal_buffer := (\<lambda>i. if h * SCREEN_WIDTH \<le> i \<and> i < h * SCREEN_WIDTH + SCREEN_WIDTH
        then v h (i - h * SCREEN_WIDTH) else terminal_buffer ?c i)\<rparr>"
    using assms by (intro poke_row [of SCREEN_WIDTH]) simp_all
  moreover have "i div SCREEN_WIDTH = h \<and> i mod SCREEN_WIDTH = i - h * SCREEN_WIDTH"
    if "h * SCREEN_WIDTH \<le> i" "i < h * SCREEN_WIDTH + SCREEN_WIDTH" for i :: nat
    using that by (auto simp: div_nat_eqI modulo_nat_def mult.commute)
  moreover have "[0..<Suc h] = [0..<h] @ [h]" by simp
  ultimately show ?case using Suc by (auto simp: fun_eq_iff simp del: upt.simps)
qed

lemma terminal_clear_eq:
  "terminal_clear c = move_cursor 0 0 (c\<lparr>terminal_buffer := (\<lambda>i. if i < 2000 then blank c
      else terminal_buffer c i), terminal_row := 0, terminal_column := 0\<rparr>)"
  using poke_rows [of "\<lambda>_ _. blank" c "\<lambda>_ _. blank c" SCREEN_HEIGHT]
  by (simp add: terminal_clear_def blank_def del: upt.simps upt_rec_numeral)

lemma scroll_rows:
  "fold (\<lambda>y. fold (\<lambda>x c. poke ((y - 1) * SCREEN_WIDTH + x)
       (terminal_buffer c (y * SCREEN_WIDTH + x)) c) [0..<SCREEN_WIDTH]) [1..<Suc h] c =
    c\<lparr>terminal_buffer := (\<lambda>i. if i < h * SCREEN_WIDTH then terminal_buffer c (i + SCREEN_WIDTH)
                              else terminal_buffer c i)\<rparr>"
proof (induction h)
  case 0
  then show ?case by simp
next
  case (Suc h)
  let ?c = "c\<lparr>terminal_buffer := (\<lambda>i. if i < h * SCREEN_WIDTH then terminal_buffer c (i + SCREEN_WIDTH)
                              else terminal_buffer c i)\<rparr>"
  have "fold (\<lambda>x c. poke ((Suc h - 1) * SCREEN_WIDTH + x) (terminal_buffer c (Suc h * SCREEN_WIDTH + x)) c)
      [0..<SCREEN_WIDTH] ?c =
    ?c\<lparr>terminal_buffer := (\<lambda>i. if (Suc h - 1) * SCREEN_WIDTH \<le> i \<and> i < (Suc h - 1) * SCREEN_WIDTH + SCREEN_WIDTH
        then terminal_buffer ?c (Suc h * SCREEN_WIDTH + (i - (Suc h - 1) * SCREEN_WIDTH))
        else terminal_buffer ?c i)\<rparr>"
    by (intro poke_row [of SCREEN_WIDTH]) (auto simp: add.commute)
  moreover have "[1..<Suc (Suc h)] = [1..<Suc h] @ [Suc h]" by simp
  ultimately show ?case using Suc
    by (auto simp: fun_eq_iff add.commute simp del: upt.simps)
qed

lemma terminal_scroll_eq:
  "terminal_scroll c = c\<lparr>terminal_buffer := (\<lambda>i. if i < 1920 then terminal_buffer c (i + SCREEN_WIDTH)
       else if i < 2000 then blank c else terminal_buffer c i),
     terminal_row := SCREEN_HEIGHT - 1, terminal_column := 0\<rparr>"
proof -
  let ?c = "c\<lparr>terminal_buffer := (\<lambda>i. if i < 1920 then terminal_buffer c (i + SCREEN_WIDTH)
                              else terminal_buffer c i)\<rparr>"
  have "fold (\<lambda>y. fold (\<lambda>x c. poke ((y - 1) * SCREEN_WIDTH + x)
       (terminal_buffer c (y * SCREEN_WIDTH + x)) c) [0..<SCREEN_WIDTH]) [1..<SCREEN_HEIGHT] c = ?c"
    using scroll_rows [where h = 24 and c = c] by (simp del: upt.simps upt_rec_numeral)
  moreover have "fold (\<lambda>x c. poke ((SCREEN_HEIGHT - 1) * SCREEN_WIDTH + x) (blank c) c) [0..<SCREEN_WIDTH] ?c =
     ?c\<lparr>terminal_buffer := (\<lambda>i. if 1920 \<le> i \<and> i < 2000 then blank c else terminal_buffer ?c i)\<rparr>"
    using poke_row [of SCREEN_WIDTH "(SCREEN_HEIGHT - 1) * SCREEN_WIDTH" ?c "\<lambda>_. blank" "\<lambda>_. blank c" SCREEN_WIDTH]
    by (simp add: blank_def del: upt.simps upt_rec_numeral)
  ultimately show ?thesis
    unfolding terminal_scroll_def by (auto simp: fun_eq_iff simp del: upt.simps upt_rec_numeral)
qed

section \<open>What printing leaves alone\<close>

lemma outb_frame [simp]:
  "terminal_buffer (outb p v c) = terminal_buffer c" "terminal_row (outb p v c) = terminal_row c"
  "terminal_column (outb p v c) = terminal_column c" "terminal_color (outb p v c) = terminal_color c"
  "ttys (outb p v c) = ttys c" "current_tty (outb p v c) = current_tty c"
  "smouse_mode (outb p v c) = smouse_mode c"
  by (simp_all add: outb_def)

lemma move_cursor_frame [simp]:
  "terminal_buffer (move_cursor x y c) = terminal_buffer c"
  "terminal_row (move_cursor x y c) = terminal_row c"
  "terminal_column (move_cursor x y c) = terminal_column c"
  "terminal_color (move_cursor x y c) = terminal_color c"
  "ttys (move_cursor x y c) = ttys c" "current_tty (move_cursor x y c) = current_tty c"
  "smouse_mode (move_cursor x y c) = smouse_mode c"
  by (simp_all add: move_cursor_def Let_def)

lemma next_row_frame [simp]:
  "terminal_color (next_row c) = terminal_color c" "ttys (next_row c) = ttys c"
  "current_tty (next_row c) = current_tty c" "smouse_mode (next_row c) = smouse_mode c"
  "terminal_column (next_row c) = (if terminal_row c = 24 then 0 else terminal_column c)"
  "terminal_row (next_row c) = (if terminal_row c = 24 then 24 else terminal_row c + 1)"
  by (simp_all add: next_row_def Let_def terminal_scroll_eq)

lemma terminal_putchar_frame [simp]:
  "terminal_color (terminal_putchar ch c) = terminal_color c" "ttys (terminal_putchar ch c) = ttys c"
  "current_tty (terminal_putchar ch c) = current_tty c"
  "smouse_mode (terminal_putchar ch c) = smouse_mode c"
  by (simp_all add: terminal_putchar_def put_newline_def put_backspace_def put_glyph_def poke_def Let_def)

lemma terminal_writestring_frame [simp]:
  "terminal_color (terminal_writestring s c) = terminal_color c"
  "ttys (terminal_writestring s c) = ttys c"
  "current_tty (terminal_writestring s c) = current_tty c"
  "smouse_mode (terminal_writestring s c) = smouse_mode c"
proof -
  have "terminal_color (fold terminal_putchar s c) = terminal_color c \<and>
      ttys (fold terminal_putchar s c) = ttys c \<and>
      current_tty (fold terminal_putchar s c) = current_tty c \<and>
      smouse_mode (fold terminal_putchar s c) = smouse_mode c"
    by (induction s arbitrary: c) simp_all
  then show "terminal_color (terminal_writestring s c) = terminal_color c"
    "ttys (terminal_writestring s c) = ttys c"
    "current_tty (terminal_writestring s c) = current_tty c"
    "smouse_mode (terminal_writestring s c) = smouse_mode c"
    by (simp_all add: terminal_writestring_def)
qed

lemma terminal_writestring_Nil [simp]: "terminal_writestring [] c = c"
  by (simp add: terminal_writestring_def)

text \<open>Printing two strings in a row is printing their concatenation.\<close>

lemma terminal_writestring_append:
  "terminal_writestring t (terminal_writestring s c) = terminal_writestring (s @ t) c"
  using terminal_writestring_frame(4) [of s c] by (simp add: terminal_writestring_def)

lemma terminal_writestring_Cons:
  "terminal_writestring (ch # s) c = terminal_writestring s (terminal_putchar ch c)"
  by (simp add: terminal_writestring_def) (simp add: terminal_putchar_def)

lemma terminal_write_eq:
  "n \<le> length data \<Longrightarrow> terminal_write data n c = Inr (terminal_writestring (take n data) c)"
proof (induction n)
  case 0
  then show ?case by (simp add: terminal_write_def)
next
  case (Suc n)
  show ?case
  proof (cases "smouse_mode c")
    case True
    then show ?thesis by (simp add: terminal_write_def terminal_writestring_def)
  next
    case False
    then have "sfold (\<lambda>i c. sbind (read_at data i) (\<lambda>ch. Inr (terminal_putchar ch c))) [0..<n] c =
        Inr (fold terminal_putchar (take n data) c)"
      using Suc by (simp add: terminal_write_def terminal_writestring_def)
    then show ?thesis using False Suc.prems
      by (simp add: terminal_write_def terminal_writestring_def sfold_append read_at_def take_Suc_conv_app_nth)
  qed
qed

section \<open>Bounds\<close>

definition cursor_ok :: "console \<Rightarrow> bool" where
  "cursor_ok c \<longleftrightarrow> terminal_row c < SCREEN_HEIGHT \<and> terminal_column c < SCREEN_WIDTH"

lemma next_row_ok: "cursor_ok c \<Longrightarrow> cursor_ok (next_row c)"
  by (simp add: cursor_ok_def)

lemma putchar_cursor_ok: "cursor_ok c \<Longrightarrow> cursor_ok (terminal_putchar ch c)"
  by (auto simp: cursor_ok_def terminal_putchar_def put_newline_def put_backspace_def put_glyph_def
      poke_def Let_def)

lemma writestring_cursor_ok: "cursor_ok c \<Longrightarrow> cursor_ok (terminal_writestring s c)"
  by (induction s arbitrary: c) (simp_all add: terminal_writestring_Cons putchar_cursor_ok)

lemma cursor_index_lt: "cursor_ok c \<Longrightarrow> cursor_index c < 2000"
  by (simp add: cursor_ok_def cursor_index_def)

lemma next_row_outside: "2000 \<le> i \<Longrightarrow> terminal_buffer (next_row c) i = terminal_buffer c i"
  by (simp add: next_row_def Let_def terminal_scroll_eq)

lemma putchar_outside:
  assumes "cursor_ok c" and "2000 \<le> i"
  shows "terminal_buffer (terminal_putchar ch c) i = terminal_buffer c i"
  using assms cursor_index_lt [OF assms(1)]
  by (auto simp: terminal_putchar_def put_newline_def put_backspace_def put_glyph_def poke_def Let_def
      next_row_outside cursor_index_def cursor_ok_def)

lemma writestring_outside:
  "cursor_ok c \<Longrightarrow> 2000 \<le> i \<Longrightarrow> terminal_buffer (terminal_writestring s c) i = terminal_buffer c i"
  by (induction s arbitrary: c) (simp_all add: terminal_writestring_Cons putchar_cursor_ok putchar_outside)

lemma terminal_clear_ok: "cursor_ok (terminal_clear c)"
  by (simp add: terminal_clear_eq cursor_ok_def)

section \<open>Plain text\<close>

text \<open>Text without control characters that fits the current row appears in it at the cursor.\<close>

definition plain :: "string \<Rightarrow> bool" where
  "plain s \<longleftrightarrow> CHR 0x0A \<notin> set s \<and> CHR 0x08 \<notin> set s"

lemma putchar_glyph:
  assumes "\<not> smouse_mode c" "ch \<noteq> CHR 0x0A" "ch \<noteq> CHR 0x08" "Suc (terminal_column c) < SCREEN_WIDTH"
  shows "terminal_row (terminal_putchar ch c) = terminal_row c"
    "terminal_column (terminal_putchar ch c) = Suc (terminal_column c)"
    "terminal_buffer (terminal_putchar ch c) =
      (terminal_buffer c)(cursor_index c := cell ch (terminal_color c))"
  using assms by (simp_all add: terminal_putchar_def put_glyph_def poke_def Let_def)

lemma writestring_plain:
  assumes "\<not> smouse_mode c" "plain s" "terminal_column c + length s < SCREEN_WIDTH"
  shows "terminal_row (terminal_writestring s c) = terminal_row c \<and>
    terminal_column (terminal_writestring s c) = terminal_column c + length s \<and>
    terminal_buffer (terminal_writestring s c) = (\<lambda>i.
      if cursor_index c \<le> i \<and> i < cursor_index c + length s
      then cell (s ! (i - cursor_index c)) (terminal_color c) else terminal_buffer c i)"
  using assms
proof (induction s arbitrary: c)
  case Nil
  then show ?case by (auto simp: fun_eq_iff)
next
  case (Cons ch s)
  let ?d = "terminal_putchar ch c"
  have ch: "ch \<noteq> CHR 0x0A" "ch \<noteq> CHR 0x08" "plain s" using Cons.prems by (auto simp: plain_def)
  have col: "Suc (terminal_column c) < SCREEN_WIDTH \<or> s = []"
    using Cons.prems(3) by (cases s) auto
  have col: "Suc (terminal_column c) < SCREEN_WIDTH" using Cons.prems(3) by simp
  note g = putchar_glyph [OF Cons.prems(1) ch(1,2) col]
  have ix: "cursor_index ?d = Suc (cursor_index c)" using g by (simp add: cursor_index_def)
  have "\<not> smouse_mode ?d" "terminal_column ?d + length s < SCREEN_WIDTH"
    using Cons.prems g by simp_all
  note IH = Cons.IH [OF this(1) ch(3) this(2)]
  have "terminal_buffer (terminal_writestring (ch # s) c) i =
      (if cursor_index c \<le> i \<and> i < cursor_index c + length (ch # s)
       then cell ((ch # s) ! (i - cursor_index c)) (terminal_color c) else terminal_buffer c i)" for i
    using IH g ix by (cases "i = cursor_index c") (auto simp: terminal_writestring_Cons nth_Cons' Suc_le_eq)
  then show ?case using IH g by (simp add: terminal_writestring_Cons fun_eq_iff)
qed

section \<open>Formatted output\<close>

text \<open>The reference rendering: what a call should print, when its arguments match the format.\<close>

definition conversion :: "char \<Rightarrow> arg list \<Rightarrow> (string \<times> arg list) option" where
  "conversion ch args =
     (if ch = CHR ''d'' then
        (case args of Word w # as \<Rightarrow> if sint w = INT_MIN then None else Some (dec_int (sint w), as) | _ \<Rightarrow> None)
      else if ch = CHR ''s'' then (case args of Str s # as \<Rightarrow> Some (s, as) | _ \<Rightarrow> None)
      else if ch = CHR ''c'' then (case args of Word w # as \<Rightarrow> Some ([char_of (unat w)], as) | _ \<Rightarrow> None)
      else if ch = CHR ''x'' then (case args of Word w # as \<Rightarrow> Some (hex_string w, as) | _ \<Rightarrow> None)
      else if ch = CHR ''%'' then Some (''%'', args)
      else Some ([], args))"

fun render :: "string \<Rightarrow> arg list \<Rightarrow> string option" where
  "render [] args = Some []"
| "render (ch # fmt) args =
     (if ch = CHR ''%''
      then (case fmt of
              [] \<Rightarrow> None
            | f # fmt' \<Rightarrow> (case conversion f args of
                None \<Rightarrow> None
              | Some (t, as) \<Rightarrow> map_option ((@) t) (render fmt' as)))
      else map_option ((#) ch) (render fmt args))"

lemma emit_all_eq:
  "length out \<le> 256 \<Longrightarrow> emit_all s out = (if length out + length s \<le> 256 then Inr (out @ s) else Inl OutOfBounds)"
  by (induction s arbitrary: out) (auto simp: emit_all_def emit_def)

lemma length_dec_int_u32: "sint (w :: u32) \<noteq> INT_MIN \<Longrightarrow> length (dec_int (sint w)) < 16"
proof -
  have "- (2 ^ 31) \<le> sint w" "sint w < 2 ^ 31"
    using sint_ge [of w] sint_lt [of w] by simp_all
  then have "nat \<bar>sint w\<bar> < 10 ^ 10" by simp
  then have "length (dec_nat (nat \<bar>sint w\<bar>)) \<le> 10" by (intro length_dec_nat_le) simp_all
  then show ?thesis by (cases "sint w < 0") (simp_all add: dec_int_def)
qed

lemma convert_eq:
  assumes "conversion ch args = Some (t, as)" and "length out \<le> 256"
  shows "convert ch args out = (if length out + length t \<le> 256 then Inr (out @ t, as) else Inl OutOfBounds)"
proof (cases "ch = CHR ''d''")
  case True
  then obtain w where w: "args = Word w # as" "sint w \<noteq> INT_MIN" "t = dec_int (sint w)"
    using assms(1) by (auto simp: conversion_def split: list.splits arg.splits if_splits)
  have "int_to_str (sint w) (replicate 16 NUL) =
      Inr (dec_int (sint w) @ NUL # drop (length (dec_int (sint w)) + 1) (replicate 16 NUL))"
    using w(2) length_dec_int_u32 [of w] by (simp add: int_to_str_eq)
  then show ?thesis
    using True w assms(2) by (simp add: convert_def take_arg_def word_arg_def emit_all_eq)
next
  case False
  have "emit_all [CHR ''%''] out = sbind (emit (CHR ''%'') out) Inr"
    by (simp add: emit_all_def sbind_def split: sum.splits)
  then show ?thesis
    using False assms
    by (auto simp: convert_def conversion_def take_arg_def word_arg_def str_arg_def emit_all_eq emit_def
        split: list.splits arg.splits if_splits)
qed

lemma format_loop_eq:
  "render fmt args = Some t \<Longrightarrow> length out \<le> 256 \<Longrightarrow>
   format_loop fmt args out = (if length out + length t \<le> 256 then Inr (out @ t) else Inl OutOfBounds)"
proof (induction fmt args out arbitrary: t rule: format_loop.induct)
  case (1 args out)
  then show ?case by simp
next
  case (2 ch fmt args out)
  show ?case
  proof (cases "ch = CHR ''%''")
    case True
    then obtain f fmt' t1 as t2 where f: "fmt = f # fmt'" "conversion f args = Some (t1, as)"
      "render fmt' as = Some t2" "t = t1 @ t2"
      using 2(3) by (auto split: list.splits option.splits)
    note c = convert_eq [OF f(2) 2(4)]
    show ?thesis
    proof (cases "length out + length t1 \<le> 256")
      case t1: True
      then have "format_loop fmt' as (out @ t1) =
          (if length (out @ t1) + length t2 \<le> 256 then Inr ((out @ t1) @ t2) else Inl OutOfBounds)"
        using c f True by (intro 2(1) [of f fmt' as t2 "out @ t1"]) simp_all
      then show ?thesis using True f c t1 by simp
    next
      case False
      then show ?thesis using True f c by simp
    qed
  next
    case False
    then obtain t' where t': "render fmt args = Some t'" "t = ch # t'"
      using 2(3) by auto
    show ?thesis
    proof (cases "length out < 256")
      case True
      then have "format_loop fmt args (out @ [ch]) =
          (if length (out @ [ch]) + length t' \<le> 256 then Inr ((out @ [ch]) @ t') else Inl OutOfBounds)"
        using False t' by (intro 2(2)) simp_all
      then show ?thesis using False True t' by (simp add: emit_def)
    next
      case len: False
      then show ?thesis using False t' by (simp add: emit_def)
    qed
  qed
qed

text \<open>
  \<open>terminal_printf\<close> prints the rendering when it fits the 256 byte array with its terminator, and
  leaves the array otherwise.
\<close>

lemma terminal_printf_eq:
  assumes "render fmt args = Some t" and "\<not> smouse_mode c"
  shows "terminal_printf fmt args c =
    (if length t < 256 then Inr (terminal_writestring (cstr t) c) else Inl OutOfBounds)"
proof -
  have "cstr (t @ [NUL]) = cstr t" by (induction t) (simp_all add: cstr_Cons)
  then show ?thesis
    using format_loop_eq [OF assms(1), of "[]"] assms(2)
    by (cases "length t < 256"; cases "length t \<le> 256") (simp_all add: terminal_printf_def emit_def)
qed

section \<open>Saved screens\<close>

text \<open>The part of the video memory a terminal keeps.\<close>

definition same_screen :: "(nat \<Rightarrow> u16) \<Rightarrow> (nat \<Rightarrow> u16) \<Rightarrow> bool" where
  "same_screen m m' \<longleftrightarrow> (\<forall>i<2000. m i = m' i)"

lemma upd_tty_frame [simp]:
  "terminal_buffer (upd_tty i f c) = terminal_buffer c" "terminal_row (upd_tty i f c) = terminal_row c"
  "terminal_column (upd_tty i f c) = terminal_column c" "terminal_color (upd_tty i f c) = terminal_color c"
  "current_tty (upd_tty i f c) = current_tty c" "smouse_mode (upd_tty i f c) = smouse_mode c"
  "length (ttys (upd_tty i f c)) = length (ttys c)" "io_trace (upd_tty i f c) = io_trace c"
  by (simp_all add: upd_tty_def)

lemma upd_tty_twice [simp]:
  "i < length (ttys c) \<Longrightarrow> upd_tty i f (upd_tty i g c) = upd_tty i (\<lambda>t. f (g t)) c"
  by (simp add: upd_tty_def)

lemma upd_tty_cong: "f (ttys c ! i) = g (ttys c ! i) \<Longrightarrow> upd_tty i f c = upd_tty i g c"
  by (simp add: upd_tty_def)

lemma save_row:
  "i < length (ttys c) \<Longrightarrow> current_tty c = i \<Longrightarrow>
   fold (\<lambda>x c. upd_tty (current_tty c) (\<lambda>t. t\<lparr>tty_buffer := (\<lambda>y' x'.
              if y' = y \<and> x' = x then terminal_buffer c (y * SCREEN_WIDTH + x)
              else tty_buffer t y' x')\<rparr>) c) [0..<w] c =
   upd_tty i (\<lambda>t. t\<lparr>tty_buffer := (\<lambda>y' x'. if y' = y \<and> x' < w then terminal_buffer c (y * SCREEN_WIDTH + x')
              else tty_buffer t y' x')\<rparr>) c"
proof (induction w)
  case 0
  show ?case by (rule console.equality) (simp_all add: upd_tty_def)
next
  case (Suc w)
  show ?case
    unfolding upt_Suc fold_append o_def using Suc
    by simp (rule upd_tty_cong, rule tty.equality, auto simp: fun_eq_iff less_Suc_eq)
qed

lemma save_rows:
  "i < length (ttys c) \<Longrightarrow> current_tty c = i \<Longrightarrow>
   fold (\<lambda>y. fold (\<lambda>x c. upd_tty (current_tty c) (\<lambda>t. t\<lparr>tty_buffer := (\<lambda>y' x'.
              if y' = y \<and> x' = x then terminal_buffer c (y * SCREEN_WIDTH + x)
              else tty_buffer t y' x')\<rparr>) c) [0..<SCREEN_WIDTH]) [0..<h] c =
   upd_tty i (\<lambda>t. t\<lparr>tty_buffer := (\<lambda>y' x'. if y' < h \<and> x' < SCREEN_WIDTH
              then terminal_buffer c (y' * SCREEN_WIDTH + x') else tty_buffer t y' x')\<rparr>) c"
proof (induction h)
  case 0
  show ?case by (rule console.equality) (simp_all add: upd_tty_def)
next
  case (Suc h)
  have "[0..<Suc h] = [0..<h] @ [h]" by simp
  then show ?case using Suc
    by (simp add: save_row del: upt.simps upt_rec_numeral)
      (rule upd_tty_cong, rule tty.equality, auto simp: fun_eq_iff less_Suc_eq)
qed

text \<open>The terminal \<open>t\<close> holds the state of the screen \<open>c\<close> and the working directory \<open>n\<close>.\<close>

definition holds_screen :: "tty \<Rightarrow> u32 \<Rightarrow> console \<Rightarrow> bool" where
  "holds_screen t n c \<longleftrightarrow> tty_row t = terminal_row c \<and> tty_column t = terminal_column c \<and>
     tty_color t = terminal_color c \<and> tty_current_inode t = n \<and>
     (\<forall>y<SCREEN_HEIGHT. \<forall>x<SCREEN_WIDTH. tty_buffer t y x = terminal_buffer c (y * SCREEN_WIDTH + x))"

lemma save_holds:
  assumes "current_tty c < length (ttys c)"
  shows "holds_screen (ttys (save_tty_state n c) ! current_tty c) n c"
    and "\<And>j. j \<noteq> current_tty c \<Longrightarrow> ttys (save_tty_state n c) ! j = ttys c ! j"
    and "tty_logged_in (ttys (save_tty_state n c) ! current_tty c) = tty_logged_in (ttys c ! current_tty c)"
  using assms unfolding save_tty_state_def
  by (simp_all add: save_rows holds_screen_def del: upt.simps upt_rec_numeral) (simp_all add: upd_tty_def)

lemma restore_eq:
  "restore_tty_state c =
    (let t = ttys c ! current_tty c
     in (tty_current_inode t, move_cursor (tty_column t) (tty_row t)
          (c\<lparr>terminal_row := tty_row t, terminal_column := tty_column t, terminal_color := tty_color t,
             terminal_buffer := (\<lambda>i. if i < 2000 then tty_buffer t (i div SCREEN_WIDTH) (i mod SCREEN_WIDTH)
                                     else terminal_buffer c i)\<rparr>)))"
  by (simp add: restore_tty_state_def Let_def
      poke_rows [of "\<lambda>y x _. tty_buffer (ttys c ! current_tty c) y x" _
        "tty_buffer (ttys c ! current_tty c)"] cong: if_cong del: upt.simps upt_rec_numeral)

lemma restore_holds:
  assumes "holds_screen (ttys d ! current_tty d) n c" and "restore_tty_state d = (n', d')"
  shows "n' = n" and "same_screen (terminal_buffer d') (terminal_buffer c)"
    and "terminal_row d' = terminal_row c" and "terminal_column d' = terminal_column c"
    and "terminal_color d' = terminal_color c"
proof -
  have "i mod SCREEN_WIDTH + i div SCREEN_WIDTH * SCREEN_WIDTH = i" for i :: nat by simp
  moreover have "i div SCREEN_WIDTH < SCREEN_HEIGHT" if "i < 2000" for i :: nat
    using that by (simp add: div_less_iff_less_mult)
  ultimately show "same_screen (terminal_buffer d') (terminal_buffer c)"
    using assms unfolding restore_eq by (auto simp: holds_screen_def same_screen_def Let_def add.commute)
qed (use assms in \<open>auto simp: restore_eq holds_screen_def Let_def\<close>)

end
