(* ===== verification/Machine.thy ===== *)
theory Machine imports Bkfs_Dir Console_Props begin

text \<open>
  The whole kernel state: the globals of src/lib/prdio.h, src/lib/prddef.h and
  src/internet/internet.h, with the console and the file system as parts, and the input that the
  devices will still deliver. The basic commands on it (printing, port reads, file operations,
  \<open>kernel_panic\<close>) are the vocabulary of the command theories.
\<close>

section \<open>State\<close>

record keyboard =
  shift_pressed :: bool
  ctrl_pressed :: bool
  alt_pressed :: bool
  caps_lock :: bool

record process =
  pid :: u32
  ppid :: u32
  pgid :: u32
  proc_name :: carray
  priority :: u32
  proc_state :: u32
  stack_ptr :: u64
  entry_point :: u64
  exit_code :: u32

record proctab =
  processes :: "process list"
  process_count :: nat
  current_process :: nat

record history =
  command_history :: "carray list"
  history_count :: nat
  history_pos :: nat

record net_device =
  dev_name :: carray
  mac :: "u8 list"
  ip :: u32
  gateway :: u32
  netmask :: u32
  dns :: u32
  connected :: bool
  dhcp_enabled :: bool

record disk =
  disk_name :: string
  total_bytes :: u64
  free_bytes :: u64

record mouse =
  mouse_enabled :: bool
  mouse_x :: int
  mouse_y :: int
  mouse_left_pressed :: bool
  mouse_right_pressed :: bool
  selection_start_x :: int
  selection_start_y :: int
  selection_end_x :: int
  selection_end_y :: int
  mouse_cycle :: nat
  mouse_byte :: "u8 list"
  last_smouse_clear :: u32

text \<open>\<open>io_in\<close> is what the next reads of an input port will return, in order.\<close>

record kernel =
  con :: console
  fs :: bkfs
  keys :: keyboard
  proc :: proctab
  hist :: history
  net_dev :: net_device
  disks :: "disk list"
  mice :: mouse
  timer_ticks :: u32
  boot_time :: u32
  next_node_addr :: u64
  io_in :: "u8 list"

definition zero_process :: process where
  "zero_process = \<lparr>pid = 0, ppid = 0, pgid = 0, proc_name = replicate 32 NUL, priority = 0,
     proc_state = 0, stack_ptr = 0, entry_point = 0, exit_code = 0\<rparr>"

definition zero_net :: net_device where
  "zero_net = \<lparr>dev_name = replicate 16 NUL, mac = replicate 6 0, ip = 0, gateway = 0, netmask = 0, dns = 0,
     connected = False, dhcp_enabled = False\<rparr>"

text \<open>
  The state the loader hands over: static storage with its initialisers, the video memory as the
  firmware left it, and the input to come.
\<close>

definition static_kernel :: "(nat \<Rightarrow> u16) \<Rightarrow> u8 list \<Rightarrow> kernel" where
  "static_kernel vram input = \<lparr>con = static_console vram, fs = static_bkfs,
     keys = \<lparr>shift_pressed = False, ctrl_pressed = False, alt_pressed = False, caps_lock = False\<rparr>,
     proc = \<lparr>processes = replicate MAX_PROCESSES zero_process, process_count = 0, current_process = 0\<rparr>,
     hist = \<lparr>command_history = replicate HISTORY_SIZE (replicate MAX_CMD_LEN NUL), history_count = 0,
             history_pos = 0\<rparr>,
     net_dev = zero_net,
     disks = [\<lparr>disk_name = ''sda'', total_bytes = 500 * 1024 * 1024, free_bytes = 250 * 1024 * 1024\<rparr>,
              \<lparr>disk_name = ''sdb'', total_bytes = 1024 * 1024 * 1024, free_bytes = 768 * 1024 * 1024\<rparr>],
     mice = \<lparr>mouse_enabled = False, mouse_x = 40, mouse_y = 12, mouse_left_pressed = False,
             mouse_right_pressed = False, selection_start_x = -1, selection_start_y = -1,
             selection_end_x = -1, selection_end_y = -1, mouse_cycle = 0,
             mouse_byte = replicate 3 0, last_smouse_clear = 0\<rparr>,
     timer_ticks = 0, boot_time = 0, next_node_addr = 0x100000, io_in = input\<rparr>"

section \<open>Printing and ports\<close>

definition on_con :: "(console \<Rightarrow> console) \<Rightarrow> kernel \<Rightarrow> kernel" where
  "on_con f k = k\<lparr>con := f (con k)\<rparr>"

definition on_fs :: "(bkfs \<Rightarrow> bkfs) \<Rightarrow> kernel \<Rightarrow> kernel" where
  "on_fs f k = k\<lparr>fs := f (fs k)\<rparr>"

definition show_text :: "string \<Rightarrow> kernel \<Rightarrow> kernel" where
  "show_text s = on_con (terminal_writestring s)"

definition say :: "string \<Rightarrow> (kernel, unit) cmd" where
  "say s = act (show_text s)"

definition setcolor :: "u8 \<Rightarrow> u8 \<Rightarrow> (kernel, unit) cmd" where
  "setcolor fg bg = act (on_con (terminal_setcolor fg bg))"

definition printf :: "string \<Rightarrow> arg list \<Rightarrow> (kernel, unit) cmd" where
  "printf fmt args k =
     (case terminal_printf fmt args (con k) of
        Inl e \<Rightarrow> Stop (Fault e) k
      | Inr c \<Rightarrow> Ret () (k\<lparr>con := c\<rparr>))"

definition inb :: "u16 \<Rightarrow> (kernel, u8) cmd" where
  "inb port k =
     (case io_in k of
        [] \<Rightarrow> Stop Await k
      | b # bs \<Rightarrow> Ret b (k\<lparr>io_in := bs, con := (con k)\<lparr>io_trace := InB port b # io_trace (con k)\<rparr>\<rparr>))"

definition cmos_read :: "u8 \<Rightarrow> (kernel, u8) cmd" where
  "cmos_read reg = andthen (act (on_con (outb CMOS_ADDRESS reg))) (inb CMOS_DATA)"

text \<open>\<open>kernel_panic\<close> prints its message and returns.\<close>

definition kernel_panic :: "string \<Rightarrow> (kernel, unit) cmd" where
  "kernel_panic message = cseq
     [setcolor COLOR_RED COLOR_WHITE,
      act (on_con terminal_clear),
      say ([CHR 0x0A, CHR 0x0A] @ ''*** KERNEL PANIC ***'' @ [CHR 0x0A]),
      say message,
      say ([CHR 0x0A, CHR 0x0A] @ ''Stack trace:'' @ [CHR 0x0A]),
      say ('' [<ffffffff>] ?'' @ [CHR 0x0A]),
      say ('' [<ffffffff>] ?'' @ [CHR 0x0A]),
      say ('' [<ffffffff>] ?'' @ [CHR 0x0A]),
      say ([CHR 0x0A] @ ''Kernel panic - not syncing: Fatal exception'' @ [CHR 0x0A])]"

section \<open>File operations\<close>

text \<open>A file operation that may fault, on the kernel; \<open>timer_ticks\<close> stamps the inode.\<close>

definition write_file :: "u32 \<Rightarrow> char list \<Rightarrow> u32 \<Rightarrow> (kernel, int) cmd" where
  "write_file n data sz k =
     (case fs_write_file (timer_ticks k) n data sz (fs k) of
        Inl e \<Rightarrow> Stop (Fault e) k
      | Inr (r, s) \<Rightarrow> Ret r (k\<lparr>fs := s\<rparr>))"

text \<open>
  Reading into a local array of \<open>cap\<close> bytes. Every caller goes on to use the first byte, which an
  inode number out of range leaves indeterminate (the error code 1 passes for a byte count).
\<close>

definition read_file :: "u32 \<Rightarrow> nat \<Rightarrow> u32 \<Rightarrow> (kernel, int \<times> carray) cmd" where
  "read_file n cap sz k =
     (if \<not> valid_ino n then Stop (Fault Uninitialised) k
      else case fs_read_file (timer_ticks k) n (replicate cap NUL) sz (fs k) of
        Inl e \<Rightarrow> Stop (Fault e) k
      | Inr (r, buf, s) \<Rightarrow> Ret (r, buf) (k\<lparr>fs := s\<rparr>))"

definition fs_create_file :: "string \<Rightarrow> u32 \<Rightarrow> u8 \<Rightarrow> (kernel, int) cmd" where
  "fs_create_file name parent_inode type k =
     (if \<not> is_valid_filename name
      then andthen (say (''Invalid filename: contains forbidden characters'' @ [CHR 0x0A])) (ret FS_ERROR) k
      else if file_exists_in_current_dir name (fs k)
      then andthen (say (''Change name'' @ [CHR 0x0A])) (ret FS_ERROR) k
      else case create_entry (timer_ticks k) name parent_inode type (fs k) of
        Inl e \<Rightarrow> Stop (Fault e) k
      | Inr (r, s) \<Rightarrow>
          (if r \<noteq> FS_SUCCESS then Ret r (k\<lparr>fs := s\<rparr>)
           else andthen
             (if file_count s = 0
              then andthen (setcolor COLOR_RED COLOR_BLACK) (kernel_panic
                (''CRITICAL: Root filesystem corrupted - no files left'' @ [CHR 0x0A] @
                 ''Attempt to access null pointer'' @ [CHR 0x0A] @ ''Kernel stack overflow detected''))
              else ret ())
             (ret FS_SUCCESS) (k\<lparr>fs := s\<rparr>)))"

definition fs_delete_file :: "u32 \<Rightarrow> (kernel, int) cmd" where
  "fs_delete_file inode_num k =
     (if \<not> valid_ino inode_num then Ret FS_ERROR k
      else
        (let k1 = on_fs (\<lambda>s. remove_entry inode_num (free_inode_blocks inode_num s)) k
         in andthen
              (if file_count (fs k1) = 0
               then andthen (setcolor COLOR_RED COLOR_BLACK) (kernel_panic
                 (''CRITICAL: Root filesystem corrupted - all files deleted'' @ [CHR 0x0A] @
                  ''bkFS: Cannot mount root bkfs'' @ [CHR 0x0A] @
                  ''Kernel panic - not syncing: Attempted to kill init!''))
               else ret ())
              (andthen (act (on_fs (fs_free_inode inode_num))) (ret FS_SUCCESS)) k1))"

section \<open>Laws of the basic commands\<close>

lemma say_eq [cmd_simps]: "say s k = Ret () (show_text s k)"
  by (simp add: say_def cmd_simps)

lemma setcolor_eq [cmd_simps]: "setcolor fg bg k = Ret () (on_con (terminal_setcolor fg bg) k)"
  by (simp add: setcolor_def cmd_simps)

lemma show_text_append: "show_text t (show_text s k) = show_text (s @ t) k"
  by (simp add: show_text_def on_con_def terminal_writestring_append)

lemma show_text_Nil [simp]: "show_text [] k = k"
  by (simp add: show_text_def on_con_def)

lemma show_text_frame [simp]:
  "fs (show_text s k) = fs k" "keys (show_text s k) = keys k" "proc (show_text s k) = proc k"
  "hist (show_text s k) = hist k" "net_dev (show_text s k) = net_dev k" "io_in (show_text s k) = io_in k"
  "mice (show_text s k) = mice k" "timer_ticks (show_text s k) = timer_ticks k"
  "next_node_addr (show_text s k) = next_node_addr k" "disks (show_text s k) = disks k"
  "smouse_mode (con (show_text s k)) = smouse_mode (con k)"
  "current_tty (con (show_text s k)) = current_tty (con k)"
  by (simp_all add: show_text_def on_con_def)

lemma on_con_frame [simp]:
  "fs (on_con f k) = fs k" "keys (on_con f k) = keys k" "proc (on_con f k) = proc k"
  "hist (on_con f k) = hist k" "net_dev (on_con f k) = net_dev k" "io_in (on_con f k) = io_in k"
  "mice (on_con f k) = mice k" "timer_ticks (on_con f k) = timer_ticks k" "con (on_con f k) = f (con k)"
  "next_node_addr (on_con f k) = next_node_addr k" "disks (on_con f k) = disks k"
  by (simp_all add: on_con_def)

lemma printf_eq:
  assumes "render fmt args = Some t" and "is_cstr t" and "\<not> smouse_mode (con k)"
  shows "printf fmt args k = (if length t < 256 then Ret () (show_text t k) else Stop (Fault OutOfBounds) k)"
proof -
  have "cstr t = t" using assms(2) by (auto simp: is_cstr_def cstr_def takeWhile_eq_all_conv)
  then show ?thesis
    using terminal_printf_eq [OF assms(1,3)] by (simp add: printf_def show_text_def on_con_def)
qed

text \<open>Deleting through the kernel is \<open>drop_file\<close> while an entry is left, as the invariant ensures.\<close>

lemma fs_delete_file_eq:
  assumes "fs_inv (fs k)" and "valid_ino n" and "inode_taken (fs k) (ino_ix n)"
  shows "fs_delete_file n k = Ret FS_SUCCESS (on_fs (drop_file n) k)"
proof -
  have d: "deleted (fs k) n (drop_file n (fs k))" by (rule drop_file_ok [OF assms])
  have "5 \<le> file_count (drop_file n (fs k))"
    using d fs_invD(2) by (simp add: deleted_def)
  moreover have "file_count (drop_file n (fs k)) = file_count (remove_entry n (free_inode_blocks n (fs k)))"
    using assms(2) by (simp add: drop_file_def fs_free_inode_def)
  ultimately show ?thesis
    using assms(2) by (simp add: fs_delete_file_def on_fs_def Let_def cmd_simps drop_file_def)
qed

lemma fs_create_file_eq:
  assumes "fs_inv (fs k)" and "is_valid_filename name" and "is_cstr name" and "length name \<le> 30"
    and "\<not> file_exists_in_current_dir name (fs k)" and "file_count (fs k) < MAX_FILES"
  shows "\<exists>e s. fs_create_file name parent type k = Ret FS_SUCCESS (k\<lparr>fs := s\<rparr>) \<and> created (fs k) e s \<and>
    entry_name e = name \<and> f_parent_inode e = parent \<and> f_type e = type"
proof -
  obtain e s where c: "create_entry (timer_ticks k) name parent type (fs k) = Inr (FS_SUCCESS, s)"
    "created (fs k) e s" "entry_name e = name" "f_parent_inode e = parent" "f_type e = type"
    using create_entry_ok [OF assms(1,6,3,4)] by blast
  have "file_count s \<noteq> 0" using c(2) fs_invD(2) [of s] by (auto simp: created_def)
  then have "fs_create_file name parent type k = Ret FS_SUCCESS (k\<lparr>fs := s\<rparr>)"
    using assms(2,5) c(1) by (simp add: fs_create_file_def cmd_simps)
  then show ?thesis using c by blast
qed

end
