(* ===== verification/Paths.thy ===== *)
theory Paths imports Machine begin

text \<open>
  The loop that spells the path of a directory, shared by \<open>pwd\<close> (src/bin/pwd.h) and the shell
  prompt: it climbs from parent to parent and may climb forever. Not returning is the value
  \<open>None\<close>; the theory characterises exactly when that happens.
\<close>

section \<open>The loop\<close>

text \<open>One round: \<open>strcpy(temp, "/"); strcat(temp, name); strcat(temp, path); strcpy(path, temp);\<close>\<close>

definition prepend_name :: "string \<Rightarrow> carray \<Rightarrow> fault + carray" where
  "prepend_name name path =
     sbind (strcpy (replicate MAX_PATH_LEN NUL) ''/'') (\<lambda>t0.
     sbind (strcat t0 name) (\<lambda>t1.
     sbind (strcat t1 (cstr path)) (\<lambda>t2.
     strcpy path (cstr t2))))"

partial_function (option) path_loop :: "bkfs \<Rightarrow> u32 \<Rightarrow> carray \<Rightarrow> (fault + carray) option" where
  "path_loop s inode path =
     (if inode = 1 then Some (Inr path)
      else case find_entry (\<lambda>f. f_inode f = inode) s of
             None \<Rightarrow> path_loop s inode path
           | Some i \<Rightarrow>
               (case prepend_name (entry_name (files s ! i)) path of
                  Inl e \<Rightarrow> Some (Inl e)
                | Inr path' \<Rightarrow> path_loop s (f_parent_inode (files s ! i)) path'))"

section \<open>When it ends\<close>

text \<open>The directory \<open>n\<close> is \<open>ns\<close> steps below inode 1, the names in order from the top.\<close>

inductive below_root :: "bkfs \<Rightarrow> u32 \<Rightarrow> string list \<Rightarrow> bool" for s where
  root: "below_root s 1 []"
| child: "n \<noteq> 1 \<Longrightarrow> find_entry (\<lambda>f. f_inode f = n) s = Some i \<Longrightarrow>
    below_root s (f_parent_inode (files s ! i)) ns \<Longrightarrow>
    below_root s n (ns @ [entry_name (files s ! i)])"

inductive_cases below_rootE: "below_root s n ns"

lemma below_root_unique: "below_root s n ns \<Longrightarrow> below_root s n ms \<Longrightarrow> ms = ns"
proof (induction arbitrary: ms rule: below_root.induct)
  case root
  then show ?case by (auto elim: below_rootE)
next
  case (child n i ns)
  from child.prems child.hyps(1,2) child.IH show ?case by (auto elim: below_rootE)
qed

definition path_text :: "string list \<Rightarrow> string" where
  "path_text ns = concat (map (\<lambda>n. ''/'' @ n) ns)"

lemma path_text_simps [simp]: "path_text [] = []" "path_text (ns @ [n]) = path_text ns @ ''/'' @ n"
  by (simp_all add: path_text_def)

lemma is_cstr_entry_name [simp]: "is_cstr (entry_name f)"
  by (simp add: entry_name_def)

text \<open>An array of 256 bytes that holds a string.\<close>

definition holds :: "carray \<Rightarrow> string \<Rightarrow> bool" where
  "holds a t \<longleftrightarrow> length a = MAX_PATH_LEN \<and> (\<exists>r. a = t @ NUL # r) \<and> is_cstr t"

lemma holds_cstr: "holds a t \<Longrightarrow> cstr a = t"
  by (auto simp: holds_def)

lemma strcpy_holds:
  assumes "length a = MAX_PATH_LEN" and "is_cstr t" and "length t < MAX_PATH_LEN"
  shows "\<exists>b. strcpy a t = Inr b \<and> holds b t"
  using assms strcpy_eq [of a t] by (auto simp: holds_def)

lemma strcat_holds:
  assumes "holds a t" and "is_cstr u"
  shows "if length t + length u < MAX_PATH_LEN then \<exists>b. strcat a u = Inr b \<and> holds b (t @ u)
    else strcat a u = Inl OutOfBounds"
proof -
  obtain r where r: "a = t @ NUL # r" "length a = MAX_PATH_LEN" "is_cstr t"
    using assms(1) by (auto simp: holds_def)
  then show ?thesis using strcat_eq [of t r u] assms(2) by (auto simp: holds_def is_cstr_def)
qed

lemma prepend_name_eq:
  assumes "holds path p" and "is_cstr name"
  shows "if length name + length p + 1 < MAX_PATH_LEN
    then \<exists>path'. prepend_name name path = Inr path' \<and> holds path' (''/'' @ name @ p)
    else prepend_name name path = Inl OutOfBounds"
proof -
  obtain t0 where t0: "strcpy (replicate MAX_PATH_LEN NUL) ''/'' = Inr t0" "holds t0 ''/''"
    using strcpy_holds [of "replicate MAX_PATH_LEN NUL" "''/''"] by (auto simp: is_cstr_def)
  have p: "cstr path = p" "is_cstr p" "length path = MAX_PATH_LEN"
    using assms(1) holds_cstr by (auto simp: holds_def)
  note c1 = strcat_holds [OF t0(2) assms(2)]
  show ?thesis
  proof (cases "length name + 1 < MAX_PATH_LEN")
    case False
    then show ?thesis using c1 t0(1) by (simp add: prepend_name_def)
  next
    case True
    then obtain t1 where t1: "strcat t0 name = Inr t1" "holds t1 (''/'' @ name)" using c1 by auto
    note c2 = strcat_holds [OF t1(2) p(2)]
    show ?thesis
    proof (cases "length name + length p + 1 < MAX_PATH_LEN")
      case False
      then show ?thesis using c2 t0(1) t1(1) p by (simp add: prepend_name_def)
    next
      case fits: True
      then obtain t2 where t2: "strcat t1 p = Inr t2" "holds t2 (''/'' @ name @ p)" using c2 by auto
      have "cstr t2 = ''/'' @ name @ p" "is_cstr (''/'' @ name @ p)"
        using t2(2) holds_cstr by (auto simp: holds_def)
      then obtain b where "strcpy path (cstr t2) = Inr b" "holds b (''/'' @ name @ p)"
        using strcpy_holds [OF p(3), of "''/'' @ name @ p"] fits by auto
      then show ?thesis using fits t0(1) t1(1) t2(1) p by (simp add: prepend_name_def)
    qed
  qed
qed

text \<open>With a chain to the root the loop ends, with the path or by leaving the 256 byte array.\<close>

lemma path_loop_ends:
  "below_root s n ns \<Longrightarrow> holds path p \<Longrightarrow>
   if length (path_text ns) + length p < MAX_PATH_LEN
   then \<exists>path'. path_loop s n path = Some (Inr path') \<and> holds path' (path_text ns @ p)
   else path_loop s n path = Some (Inl OutOfBounds)"
proof (induction arbitrary: path p rule: below_root.induct)
  case root
  have "path_loop s 1 path = Some (Inr path)" by (simp add: path_loop.simps)
  then show ?case using root by (auto simp: holds_def)
next
  case (child n i ns)
  let ?nm = "entry_name (files s ! i)"
  note c = prepend_name_eq [OF child.prems is_cstr_entry_name [of "files s ! i"]]
  have step: "path_loop s n path = (case prepend_name ?nm path of Inl e \<Rightarrow> Some (Inl e)
      | Inr path' \<Rightarrow> path_loop s (f_parent_inode (files s ! i)) path')"
    using child.hyps(1,2) by (subst path_loop.simps) simp
  show ?case
  proof (cases "length ?nm + length p + 1 < MAX_PATH_LEN")
    case False
    then show ?thesis using c step by simp
  next
    case True
    then obtain path' where p': "prepend_name ?nm path = Inr path'" "holds path' (''/'' @ ?nm @ p)"
      using c by auto
    show ?thesis
      using child.IH [OF p'(2)] step p'(1)
      by (cases "length (path_text ns) + length (''/'' @ ?nm @ p) < MAX_PATH_LEN") auto
  qed
qed

text \<open>Without one it does not end, unless the growing path leaves the array first.\<close>

lemmas path_loop_induct = path_loop.raw_induct [rotated, consumes 1, case_names step]

lemma path_loop_Some:
  "path_loop s n path = Some r \<Longrightarrow> (\<exists>ns. below_root s n ns) \<or> (\<exists>e. r = Inl e)"
proof (induction rule: path_loop_induct)
  case (step f s n path r)
  show ?case
  proof (cases "n = 1")
    case True
    then show ?thesis using below_root.root by blast
  next
    case n: False
    show ?thesis
    proof (cases "find_entry (\<lambda>f. f_inode f = n) s")
      case None
      then show ?thesis using step n by auto
    next
      case (Some i)
      show ?thesis
      proof (cases "prepend_name (entry_name (files s ! i)) path")
        case (Inl e)
        then have "r = Inl e" using step(2) n Some by simp
        then show ?thesis by blast
      next
        case (Inr path')
        then have "f s (f_parent_inode (files s ! i)) path' = Some r"
          using step(2) n Some by simp
        from step(1) [OF this] show ?thesis using below_root.child [OF n Some] by blast
      qed
    qed
  qed
qed

text \<open>An inode without an entry: the inner loop finds nothing and the outer one repeats.\<close>

lemma path_loop_lost:
  assumes "n \<noteq> 1" and "find_entry (\<lambda>f. f_inode f = n) s = None"
  shows "path_loop s n path = None"
proof (rule ccontr)
  assume "path_loop s n path \<noteq> None"
  then obtain r where "path_loop s n path = Some r" by auto
  then have "\<not> (n \<noteq> 1 \<and> find_entry (\<lambda>f. f_inode f = n) s = None)"
  proof (induction rule: path_loop_induct)
    case (step f s n path r)
    show ?case
    proof (rule notI)
      assume a: "n \<noteq> 1 \<and> find_entry (\<lambda>f. f_inode f = n) s = None"
      then have "f s n path = Some r" using step(2) by simp
      then show False using step(1) [of s n path] a by blast
    qed
  qed
  then show False using assms by blast
qed

end
