(* ===== verification/FileCmds.thy ===== *)
theory FileCmds imports Paths begin

text \<open>
  The shell commands on files: \<open>ls\<close>, \<open>pwd\<close>, \<open>cd\<close>, \<open>cat\<close> (src/bin), \<open>touch\<close>, \<open>mkdir\<close>, \<open>rm\<close> and the
  redirections \<open>echo > f\<close>, \<open>echo >> f\<close>, \<open>cat > f\<close> (src/kernel). A pointer that may be \<open>NULL\<close> is an
  option.
\<close>

abbreviation NL :: string where "NL \<equiv> [CHR 0x0A]"

section \<open>Looking up\<close>

definition entry_at :: "nat \<Rightarrow> kernel \<Rightarrow> file_entry" where
  "entry_at i k = files (fs k) ! i"

text \<open>The loop over the entries of the working directory with a given name.\<close>

definition find_in_cwd :: "string \<Rightarrow> (file_entry \<Rightarrow> bool) \<Rightarrow> kernel \<Rightarrow> nat option" where
  "find_in_cwd name p k =
     find_entry (\<lambda>f. f_parent_inode f = current_inode (fs k) \<and> strcmp (entry_name f) name = 0 \<and> p f) (fs k)"

definition is_regular :: "file_entry \<Rightarrow> bool" where
  "is_regular f \<longleftrightarrow> f_type f = FILE_REGULAR"

definition is_dir :: "file_entry \<Rightarrow> bool" where
  "is_dir f \<longleftrightarrow> f_type f = FILE_DIR"

section \<open>Listing and moving around\<close>

definition execute_ls :: "(kernel, unit) cmd" where
  "execute_ls = cseq
     [say '''',
      (\<lambda>k. for_each (\<lambda>i k.
         if f_parent_inode (entry_at i k) = current_inode (fs k)
         then cseq [say (entry_name (entry_at i k)),
                    say (if is_dir (entry_at i k) then ''/ '' else ''  '')] k
         else Ret () k) [0..<file_count (fs k)] k),
      say NL]"

definition execute_pwd :: "(kernel, unit) cmd" where
  "execute_pwd k =
     (case path_loop (fs k) (current_inode (fs k)) (''/'' @ replicate 255 NUL) of
        None \<Rightarrow> Stop NoReturn k
      | Some (Inl e) \<Rightarrow> Stop (Fault e) k
      | Some (Inr path) \<Rightarrow> cseq [say '''', say (cstr path), say NL] k)"

definition chdir :: "u32 \<Rightarrow> kernel \<Rightarrow> kernel" where
  "chdir n = on_fs (\<lambda>s. s\<lparr>current_inode := n\<rparr>)"

definition execute_cd :: "string option \<Rightarrow> (kernel, unit) cmd" where
  "execute_cd dirname k =
     (case dirname of
        None \<Rightarrow> Ret () (chdir 1 k)
      | Some d \<Rightarrow>
          (if length d = 0 then Ret () (chdir 1 k)
           else if strcmp d ''..'' = 0
           then (case find_entry (\<lambda>f. f_inode f = current_inode (fs k)) (fs k) of
                   Some i \<Rightarrow> Ret () (chdir (f_parent_inode (entry_at i k)) k)
                 | None \<Rightarrow> say (''Already at root directory'' @ NL) k)
           else (case find_in_cwd d is_dir k of
                   Some i \<Rightarrow> Ret () (chdir (f_inode (entry_at i k)) k)
                 | None \<Rightarrow> cseq [say ''Directory not found: '', say d, say NL] k)))"

section \<open>Showing a file\<close>

definition print_bytes :: "carray \<Rightarrow> int \<Rightarrow> (kernel, unit) cmd" where
  "print_bytes buffer n k =
     (case terminal_write buffer (nat n) (con k) of
        Inl e \<Rightarrow> Stop (Fault e) k
      | Inr c \<Rightarrow> Ret () (k\<lparr>con := c\<rparr>))"

definition execute_cat :: "string option \<Rightarrow> (kernel, unit) cmd" where
  "execute_cat filename k =
     (case filename of
        None \<Rightarrow> say (''Usage: cat <filename>'' @ NL) k
      | Some name \<Rightarrow>
          (case find_in_cwd name is_regular k of
             Some i \<Rightarrow>
               bindc (read_file (f_inode (entry_at i k)) BLOCK_SIZE (of_nat BLOCK_SIZE))
                 (\<lambda>(bytes_read, buffer).
                    andthen (if bytes_read > 0 then print_bytes buffer bytes_read else ret ())
                      (say NL)) k
           | None \<Rightarrow> printf (''File not found: %s'' @ NL) [Str name] k))"

section \<open>Creating\<close>

definition execute_mkfile :: "string \<Rightarrow> (kernel, unit) cmd" where
  "execute_mkfile filename k =
     (if \<not> is_valid_filename filename
      then say (''Invalid filename: contains forbidden characters'' @ NL) k
      else if file_exists_in_current_dir filename (fs k) then say NL k
      else bindc (fs_create_file filename (current_inode (fs k)) FILE_REGULAR) (\<lambda>r.
             if r = FS_SUCCESS
             then printf (''File '' @ [CHR 0x27] @ ''%s'' @ [CHR 0x27] @ '' created'' @ NL) [Str filename]
             else say (''Failed to create file'' @ NL)) k)"

definition execute_mkdir :: "string \<Rightarrow> (kernel, unit) cmd" where
  "execute_mkdir dirname k =
     (if \<not> is_valid_filename dirname
      then say (''Invalid directory name: contains forbidden characters'' @ NL) k
      else if file_exists_in_current_dir dirname (fs k) then say (''Change name'' @ NL) k
      else bindc (fs_create_file dirname (current_inode (fs k)) FILE_DIR) (\<lambda>r.
             if r = FS_SUCCESS
             then printf ([CHR 0x27] @ ''%s'' @ [CHR 0x27] @ '' created'' @ NL) [Str dirname]
             else say (''Failed!'' @ NL)) k)"

section \<open>Removing\<close>

text \<open>
  The recursive call gets a pointer into the table of files, which is read again each time the
  name is used: after entries have been shifted it may denote another name.
\<close>

datatype name_ptr =
    Text string
  | NameOf nat

definition deref :: "name_ptr \<Rightarrow> kernel \<Rightarrow> string" where
  "deref p k = (case p of Text s \<Rightarrow> s | NameOf j \<Rightarrow> entry_name (entry_at j k))"

text \<open>
  \<open>execute_rm\<close> and its inner loop over the entries of a directory, on fuel: neither the recursion
  nor the loop is bounded. \<open>j--\<close> followed by the \<open>j++\<close> of the loop is the same \<open>j\<close> again.
\<close>

fun execute_rm :: "nat \<Rightarrow> name_ptr \<Rightarrow> bool \<Rightarrow> (kernel, unit) cmd"
  and rm_children :: "nat \<Rightarrow> u32 \<Rightarrow> nat \<Rightarrow> (kernel, unit) cmd" where
  "execute_rm 0 name recursive k = Stop OutOfFuel k"
| "execute_rm (Suc n) name recursive k =
     (case find_in_cwd (deref name k) (\<lambda>_. True) k of
        None \<Rightarrow> printf (''File not found: %s'' @ NL) [Str (deref name k)] k
      | Some i \<Rightarrow>
          (if is_dir (entry_at i k) \<and> \<not> recursive
           then say (''Cannot remove directory: use '' @ [CHR 0x27] @ ''rm -rf'' @ [CHR 0x27] @
                     '' for directories'' @ NL) k
           else
             andthen
               (if is_dir (entry_at i k) \<and> recursive then rm_children n (f_inode (entry_at i k)) 0 else ret ())
               (bindc (\<lambda>k. fs_delete_file (f_inode (entry_at i k)) k) (\<lambda>r k.
                  if r = FS_SUCCESS
                  then printf ([CHR 0x27] @ ''%s'' @ [CHR 0x27] @ '' deleted'' @ NL) [Str (deref name k)] k
                  else say (''Failed to delete'' @ NL) k)) k))"
| "rm_children 0 dir_inode j k = Stop OutOfFuel k"
| "rm_children (Suc n) dir_inode j k =
     (if j < file_count (fs k)
      then (if f_parent_inode (entry_at j k) = dir_inode
            then andthen (execute_rm n (NameOf j) True) (rm_children n dir_inode j) k
            else rm_children n dir_inode (Suc j) k)
      else Ret () k)"

section \<open>Redirections\<close>

text \<open>The tail the redirections share once the file has been created: write and report.\<close>

definition write_new :: "u32 \<Rightarrow> string \<Rightarrow> (kernel, unit) cmd \<Rightarrow> string \<Rightarrow> (kernel, unit) cmd" where
  "write_new n text ok failed = bindc (write_file n text (of_nat (length text)))
     (\<lambda>r. if r = FS_SUCCESS then ok else say failed)"

definition execute_redirect_output :: "string option \<Rightarrow> string option \<Rightarrow> (kernel, unit) cmd" where
  "execute_redirect_output filename text k =
     (case (filename, text) of
        (Some name, Some t) \<Rightarrow>
          (case find_in_cwd name is_regular k of
             Some i \<Rightarrow>
               write_new (f_inode (entry_at i k)) t (ret ()) (''Failed to write to file'' @ NL) k
           | None \<Rightarrow>
               bindc (fs_create_file name (current_inode (fs k)) FILE_REGULAR) (\<lambda>r k.
                 if r = FS_SUCCESS
                 then write_new (f_inode (entry_at (file_count (fs k) - 1) k)) t
                        (say (''File created and text written'' @ NL))
                        (''File created but failed to write text'' @ NL) k
                 else say (''Failed to create file'' @ NL) k) k)
      | _ \<Rightarrow> say (''Usage: echo text > filename'' @ NL) k)"

text \<open>The new contents an append assembles in a local array: the old bytes, a newline if they do not
  end in one, the text.\<close>

definition append_buffer :: "int \<Rightarrow> carray \<Rightarrow> string \<Rightarrow> fault + carray" where
  "append_buffer bytes_read bytes text =
     sbind (write_at bytes (nat bytes_read) NUL) (\<lambda>current.
     sbind (strcpy (replicate MAX_FILE_SIZE NUL) (cstr current)) (\<lambda>new0.
     sbind (if bytes_read > 0 \<and> current ! nat (bytes_read - 1) \<noteq> CHR 0x0A then strcat new0 NL else Inr new0)
       (\<lambda>new1. strcat new1 text)))"

definition append_to :: "u32 \<Rightarrow> string \<Rightarrow> (kernel, unit) cmd \<Rightarrow> (kernel, unit) cmd" where
  "append_to n text ok =
     bindc (read_file n MAX_FILE_SIZE (of_nat (MAX_FILE_SIZE - 1))) (\<lambda>(bytes_read, bytes).
     bindc (lift_sum (append_buffer bytes_read bytes text)) (\<lambda>new_content.
     bindc (write_file n new_content (of_nat (length (cstr new_content)))) (\<lambda>r.
       if r = FS_SUCCESS then ok else say (''Failed to append to file'' @ NL))))"

definition execute_append_output :: "string option \<Rightarrow> string option \<Rightarrow> (kernel, unit) cmd" where
  "execute_append_output filename text k =
     (case (filename, text) of
        (Some name, Some t) \<Rightarrow>
          (case find_in_cwd name is_regular k of
             Some i \<Rightarrow> append_to (f_inode (entry_at i k)) t (ret ()) k
           | None \<Rightarrow>
               bindc (fs_create_file name (current_inode (fs k)) FILE_REGULAR) (\<lambda>r k.
                 if r = FS_SUCCESS
                 then write_new (f_inode (entry_at (file_count (fs k) - 1) k)) t
                        (say (''File created and text written'' @ NL))
                        (''File created but failed to write text'' @ NL) k
                 else say (''Failed to create file'' @ NL) k) k)
      | _ \<Rightarrow> say (''Usage: echo text >> filename'' @ NL) k)"

text \<open>Both branches of \<open>execute_cat_redirect\<close> create a missing destination in the same way.\<close>

definition create_with :: "string \<Rightarrow> string \<Rightarrow> string \<Rightarrow> (kernel, unit) cmd" where
  "create_with src dst bytes k =
     bindc (fs_create_file dst (current_inode (fs k)) FILE_REGULAR) (\<lambda>r k.
       if r = FS_SUCCESS
       then (case find_in_cwd dst is_regular k of
               None \<Rightarrow> Ret () k
             | Some i \<Rightarrow> write_new (f_inode (entry_at i k)) bytes
                 (printf (''File %s created with content from %s'' @ NL) [Str dst, Str src])
                 (''File created but failed to write content'' @ NL) k)
       else say (''Failed to create file'' @ NL) k) k"

definition execute_cat_redirect :: "string option \<Rightarrow> string option \<Rightarrow> bool \<Rightarrow> (kernel, unit) cmd" where
  "execute_cat_redirect source_file dest_file appending k =
     (case (source_file, dest_file) of
        (Some src, Some dst) \<Rightarrow>
          bindc (\<lambda>k. case find_in_cwd src is_regular k of
                   None \<Rightarrow> Ret (0, replicate MAX_FILE_SIZE NUL) k
                 | Some i \<Rightarrow> read_file (f_inode (entry_at i k)) MAX_FILE_SIZE (of_nat (MAX_FILE_SIZE - 1)) k)
            (\<lambda>(bytes_read, source_content) k.
               if bytes_read = 0
               then printf (''Source file not found or empty: %s'' @ NL) [Str src] k
               else bindc (lift_sum (write_at source_content (nat bytes_read) NUL)) (\<lambda>source k.
                 (case find_in_cwd dst is_regular k of
                    None \<Rightarrow> create_with src dst (cstr source) k
                  | Some d \<Rightarrow>
                      (if appending
                       then append_to (f_inode (entry_at d k)) (cstr source)
                              (printf (''Content from %s appended to %s'' @ NL) [Str src, Str dst]) k
                       else write_new (f_inode (entry_at d k)) (cstr source)
                              (printf (''Content from %s written to %s'' @ NL) [Str src, Str dst])
                              (''Failed to write to file'' @ NL) k))) k) k
      | _ \<Rightarrow> say (''Usage: cat <source_file> > <dest_file> or cat <source_file> >> <dest_file>'' @ NL) k)"

end
