(* ===== verification/ProcNet.thy ===== *)
theory ProcNet imports FileCmds begin

text \<open>
  The process table with fork, exit and signals and the commands \<open>ps\<close>, \<open>jobs\<close>, \<open>kill\<close>
  (src/kernel/kernel.c), and the simulated network device with \<open>dhcpcd\<close>, \<open>ifconfig\<close>, \<open>ping\<close>
  (src/internet/internet.h).
\<close>

abbreviation TAB :: string where "TAB \<equiv> [CHR 0x09]"

section \<open>Processes\<close>

definition on_proc :: "(proctab \<Rightarrow> proctab) \<Rightarrow> kernel \<Rightarrow> kernel" where
  "on_proc f k = k\<lparr>proc := f (proc k)\<rparr>"

text \<open>
  The child's slot may be the parent's own (no process yet): the copy, the new \<open>pid\<close> and the read of
  the parent's \<open>pid\<close> happen in this order. The counter is incremented before the \<open>pid\<close> is computed.
\<close>

definition sys_fork :: "proctab \<Rightarrow> u32 \<times> proctab" where
  "sys_fork t =
     (if process_count t \<ge> MAX_PROCESSES then (-1, t)
      else
        (let child = process_count t; count = process_count t + 1;
             ps1 = (processes t)[child := processes t ! current_process t];
             ps2 = ps1[child := (ps1 ! child)\<lparr>pid := of_nat (count + 1)\<rparr>];
             ps3 = ps2[child := (ps2 ! child)\<lparr>ppid := pid (ps2 ! current_process t)\<rparr>]
         in (pid (ps3 ! child), t\<lparr>processes := ps3, process_count := count\<rparr>)))"

definition upd_proc :: "nat \<Rightarrow> (process \<Rightarrow> process) \<Rightarrow> proctab \<Rightarrow> proctab" where
  "upd_proc i f t = t\<lparr>processes := (processes t)[i := f (processes t ! i)]\<rparr>"

definition sys_exit :: "u32 \<Rightarrow> proctab \<Rightarrow> proctab" where
  "sys_exit status t =
     upd_proc (current_process t) (\<lambda>p. p\<lparr>proc_state := 2, exit_code := status\<rparr>) t"

text \<open>Taking a process out: the later ones are shifted down.\<close>

definition remove_proc :: "nat \<Rightarrow> proctab \<Rightarrow> proctab" where
  "remove_proc i t = t\<lparr>processes := fold (\<lambda>j ps. ps[j := ps ! (j + 1)]) [i..<process_count t - 1] (processes t),
     process_count := process_count t - 1\<rparr>"

definition signal_proc :: "nat \<Rightarrow> u32 \<Rightarrow> proctab \<Rightarrow> proctab" where
  "signal_proc i sig t =
     (if sig = SIGINT \<or> sig = SIGKILL then remove_proc i t
      else if sig = SIGSTOP then upd_proc i (\<lambda>p. p\<lparr>proc_state := 1\<rparr>) t
      else if sig = SIGCONT then upd_proc i (\<lambda>p. p\<lparr>proc_state := 0\<rparr>) t
      else t)"

definition find_proc :: "u32 \<Rightarrow> proctab \<Rightarrow> nat option" where
  "find_proc n t = first_index (\<lambda>i. pid (processes t ! i) = n) (process_count t)"

definition send_signal :: "u32 \<Rightarrow> u32 \<Rightarrow> (kernel, unit) cmd" where
  "send_signal n sig k =
     (case find_proc n (proc k) of
        Some i \<Rightarrow> Ret () (on_proc (signal_proc i sig) k)
      | None \<Rightarrow> printf (''Process %d not found'' @ NL) [Word n] k)"

definition execute_kill :: "string \<Rightarrow> string \<Rightarrow> (kernel, unit) cmd" where
  "execute_kill pid_str sig_str =
     bindc (lift_sum (atoi pid_str)) (\<lambda>n.
     bindc (lift_sum (atoi sig_str)) (\<lambda>sig.
       send_signal (word_of_int n) (word_of_int sig)))"

text \<open>\<open>klog\<close> fills a local table of level names and does nothing else.\<close>

definition klog :: "int \<Rightarrow> string \<Rightarrow> (kernel, unit) cmd" where
  "klog level message = ret ()"

definition state_name :: "u32 \<Rightarrow> string" where
  "state_name st = (if st = 0 then ''RUN'' else if st = 1 then ''STOP'' else ''ZOMB'')"

definition proc_name_of :: "process \<Rightarrow> string" where
  "proc_name_of p = cstr (proc_name p)"

definition execute_ps :: "(kernel, unit) cmd" where
  "execute_ps = cseq
     [say (''PID '' @ TAB @ '' PPID '' @ TAB @ '' PGID '' @ TAB @ '' STATE '' @ TAB @ '' NAME '' @ NL),
      (\<lambda>k. for_each (\<lambda>i k.
         let p = processes (proc k) ! i
         in printf (''%d'' @ TAB @ ''%d'' @ TAB @ ''%d'' @ TAB @ ''%s'' @ TAB @ ''%s'' @ NL)
              [Word (pid p), Word (ppid p), Word (pgid p), Str (state_name (proc_state p)),
               Str (proc_name_of p)] k) [0..<process_count (proc k)] k)]"

definition execute_jobs :: "(kernel, unit) cmd" where
  "execute_jobs k = for_each (\<lambda>i k.
     let p = processes (proc k) ! i
     in if pgid p = pid p
        then printf (''[%d] %s %s'' @ NL)
               [Word (of_nat i), Str (if proc_state p = 1 then ''Stopped'' else ''Running''),
                Str (proc_name_of p)] k
        else Ret () k) [0..<process_count (proc k)] k"

section \<open>Addresses as text\<close>

text \<open>A function on the array that starts at an offset: \<open>int_to_str(n, p)\<close> with \<open>p\<close> inside \<open>buf\<close>.\<close>

definition at_offset :: "nat \<Rightarrow> (carray \<Rightarrow> fault + carray) \<Rightarrow> carray \<Rightarrow> fault + carray" where
  "at_offset off f buf = sbind (f (drop off buf)) (\<lambda>t. Inr (take off buf @ t))"

text \<open>One number at the pointer \<open>p\<close> and \<open>p += strlen(p)\<close>.\<close>

definition put_octet :: "u32 \<Rightarrow> nat \<times> carray \<Rightarrow> fault + (nat \<times> carray)" where
  "put_octet n st =
     (let (p, buf) = st
      in sbind (at_offset p (int_to_str (int (unat n))) buf)
           (\<lambda>b. Inr (p + length (cstr (drop p b)), b)))"

definition put_dot :: "nat \<times> carray \<Rightarrow> fault + (nat \<times> carray)" where
  "put_dot st = (let (p, buf) = st in sbind (write_at buf p (CHR ''.'')) (\<lambda>b. Inr (p + 1, b)))"

definition ip_to_str :: "u32 \<Rightarrow> carray \<Rightarrow> fault + carray" where
  "ip_to_str addr buf =
     sbind (put_octet (drop_bit 24 addr AND 0xFF) (0, buf)) (\<lambda>st. sbind (put_dot st) (\<lambda>st.
     sbind (put_octet (drop_bit 16 addr AND 0xFF) st) (\<lambda>st. sbind (put_dot st) (\<lambda>st.
     sbind (put_octet (drop_bit 8 addr AND 0xFF) st) (\<lambda>st. sbind (put_dot st) (\<lambda>(p, b).
     at_offset p (int_to_str (int (unat (addr AND 0xFF)))) b))))))"

section \<open>The network commands\<close>

definition dhcp_discover :: "net_device \<Rightarrow> net_device" where
  "dhcp_discover d = d\<lparr>ip := 0xC0A80064, gateway := 0xC0A80001, netmask := 0xFFFFFF00,
     dns := 0x08080808, connected := True\<rparr>"

definition on_net :: "(net_device \<Rightarrow> net_device) \<Rightarrow> kernel \<Rightarrow> kernel" where
  "on_net f k = k\<lparr>net_dev := f (net_dev k)\<rparr>"

definition execute_dhcpcd :: "string option \<Rightarrow> (kernel, unit) cmd" where
  "execute_dhcpcd interface =
     (case interface of
        None \<Rightarrow> say (''Usage: dhcpcd <interface>'' @ NL)
      | Some ifc \<Rightarrow>
          (if strcmp ifc ''eth0'' \<noteq> 0 then printf (''Interface %s not found'' @ NL) [Str ifc]
           else cseq
             [printf (''Starting DHCP on %s...'' @ NL) [Str ifc],
              act (on_net dhcp_discover),
              (\<lambda>k. if connected (net_dev k)
                   then bindc (lift_sum (ip_to_str (ip (net_dev k)) (replicate 16 NUL))) (\<lambda>ip_str.
                          printf (''Interface %s configured: %s'' @ NL) [Str ifc, Str (cstr ip_str)]) k
                   else say (''DHCP failed'' @ NL) k)]))"

definition hex_digit :: "u8 \<Rightarrow> char" where
  "hex_digit d = (if d < 10 then char_of (48 + unat d) else char_of (97 + (unat d - 10)))"

definition mac_text :: "u8 list \<Rightarrow> string" where
  "mac_text m = concat (map (\<lambda>i. [hex_digit (drop_bit 4 (m ! i)), hex_digit (m ! i AND 0x0F)] @
     (if i < 5 then '':'' else [])) [0..<6])"

definition not_configured :: carray where
  "not_configured = ''Not configured'' @ [NUL, NUL]"

definition execute_ifconfig :: "(kernel, unit) cmd" where
  "execute_ifconfig k =
     (let d = net_dev k
      in if \<not> dhcp_enabled d then say (''No network interfaces found'' @ NL) k
         else bindc (lift_sum
             (if connected d
              then sbind (ip_to_str (ip d) not_configured) (\<lambda>a.
                   sbind (ip_to_str (gateway d) not_configured) (\<lambda>b.
                   sbind (ip_to_str (netmask d) not_configured) (\<lambda>c. Inr (a, b, c))))
              else Inr (not_configured, not_configured, not_configured)))
           (\<lambda>(ip_str, gateway_str, netmask_str). cseq
             [printf (''eth0:'' @ NL) [],
              printf (''  MAC:     %s'' @ NL) [Str (mac_text (mac d))],
              printf (''  IP:      %s'' @ NL) [Str (cstr ip_str)],
              printf (''  Gateway: %s'' @ NL) [Str (cstr gateway_str)],
              printf (''  Netmask: %s'' @ NL) [Str (cstr netmask_str)],
              printf (''  Status:  %s'' @ NL) [Str (if connected d then ''Connected'' else ''Disconnected'')]]) k)"

definition execute_ping :: "string option \<Rightarrow> (kernel, unit) cmd" where
  "execute_ping host k =
     (if \<not> connected (net_dev k)
      then say (''Network not configured. Run '' @ [CHR 0x27] @ ''dhcpcd eth0'' @ [CHR 0x27] @ '' first'' @ NL) k
      else case host of
        None \<Rightarrow> say (''Usage: ping <host>'' @ NL) k
      | Some h \<Rightarrow> cseq
          [printf (''PING simulator %s'' @ NL) [Str h],
           say (''64 bytes from 192.168.0.1: icmp_seq=1 ttl=64 time=1.23 ms'' @ NL),
           say (''64 bytes from 192.168.0.1: icmp_seq=2 ttl=64 time=1.45 ms'' @ NL),
           say (''64 bytes from 192.168.0.1: icmp_seq=3 ttl=64 time=1.67 ms'' @ NL),
           say '''',
           say (''3 packets transmitted, 3 received, 0% packet loss'' @ NL)] k)"

section \<open>Signals\<close>

definition active :: "proctab \<Rightarrow> process list" where
  "active t = take (process_count t) (processes t)"

definition proctab_ok :: "proctab \<Rightarrow> bool" where
  "proctab_ok t \<longleftrightarrow> length (processes t) = MAX_PROCESSES \<and> process_count t \<le> MAX_PROCESSES"

lemma find_proc_Some:
  "find_proc n t = Some i \<Longrightarrow> i < process_count t \<and> pid (processes t ! i) = n \<and> (\<forall>j<i. pid (processes t ! j) \<noteq> n)"
  by (simp add: find_proc_def first_index_Some)

lemma remove_proc_active:
  assumes ok: "proctab_ok t" and i: "i < process_count t"
  shows "proctab_ok (remove_proc i t) \<and> active (remove_proc i t) = take i (active t) @ drop (Suc i) (active t)"
proof -
  let ?k = "process_count t - 1"
  have f: "processes (remove_proc i t) =
      take i (processes t) @ take (?k - i) (drop (Suc i) (processes t)) @ drop ?k (processes t)"
  proof -
    have "i \<le> ?k" "?k < length (processes t)" using i ok by (auto simp: proctab_ok_def)
    then show ?thesis using shift_down [of i ?k "processes t"] by (simp add: remove_proc_def)
  qed
  have "length (fold (\<lambda>j ps. ps[j := ps ! (j + 1)]) js ps) = length ps" for js and ps :: "process list"
    by (induction js arbitrary: ps) simp_all
  then have "length (processes (remove_proc i t)) = MAX_PROCESSES"
    using ok by (simp add: proctab_ok_def remove_proc_def)
  moreover have "take ?k (processes (remove_proc i t)) = take i (processes t) @ take (?k - i) (drop (Suc i) (processes t))"
    using f i ok by (simp add: proctab_ok_def) (auto simp: min_def)
  moreover have "?k \<le> MAX_PROCESSES" using ok unfolding proctab_ok_def by linarith
  ultimately show ?thesis using i ok by (simp add: active_def remove_proc_def proctab_ok_def drop_take)
qed

section \<open>Dotted addresses\<close>

definition dotted :: "u32 \<Rightarrow> string" where
  "dotted addr = dec_nat (unat (drop_bit 24 addr AND 0xFF)) @ ''.'' @ dec_nat (unat (drop_bit 16 addr AND 0xFF)) @ ''.'' @
     dec_nat (unat (drop_bit 8 addr AND 0xFF)) @ ''.'' @ dec_nat (unat (addr AND 0xFF))"

lemma octet_small: "unat (w AND 0xFF :: u32) < 256"
proof -
  have "w AND 0xFF \<le> (0xFF :: u32)" by (rule word_and_le1)
  then show ?thesis by (simp add: word_le_nat_alt)
qed

lemma dec_nat_3: "n < 1000 \<Longrightarrow> length (dec_nat n) \<le> 3"
  using length_dec_nat_le [of n 3] by simp

lemma dec_int_nat: "dec_int (int n) = dec_nat n"
  by (simp add: dec_int_def)

text \<open>A number written behind a prefix of the array.\<close>

lemma octet_at:
  assumes "n < 256" and "length (dec_nat n) < length r"
  shows "at_offset (length t) (int_to_str (int n)) (t @ r) =
    Inr (t @ dec_nat n @ NUL # drop (length (dec_nat n) + 1) r)"
  using assms by (simp add: at_offset_def int_to_str_eq dec_int_nat)

lemma put_octet_eq:
  assumes "length (dec_nat (unat (w AND 0xFF))) < length r"
  shows "put_octet (w AND 0xFF) (length t, t @ r) =
    Inr (length t + length (dec_nat (unat (w AND 0xFF))),
      t @ dec_nat (unat (w AND 0xFF)) @ NUL # drop (length (dec_nat (unat (w AND 0xFF))) + 1) r)"
proof -
  have "cstr (dec_nat n @ NUL # x) = dec_nat n" for n x
    using is_cstr_digits [of n] by simp
  then show ?thesis
    using octet_at [OF octet_small [of w] assms, of t] by (simp add: put_octet_def)
qed

lemma put_dot_eq: "put_dot (length t, t @ c # r) = Inr (Suc (length t), t @ CHR ''.'' # r)"
  by (simp add: put_dot_def write_at_def)

lemma put_octet_dot:
  assumes "length (dec_nat (unat (w AND 0xFF))) < length r"
  defines "d \<equiv> dec_nat (unat (w AND 0xFF)) @ ''.''"
  shows "sbind (put_octet (w AND 0xFF) (length t, t @ r)) put_dot =
    Inr (length (t @ d), (t @ d) @ drop (length d) r)"
  using put_octet_eq [OF assms(1), of t]
    put_dot_eq [of "t @ dec_nat (unat (w AND 0xFF))" NUL "drop (length (dec_nat (unat (w AND 0xFF))) + 1) r"]
  by (simp add: d_def)

lemma ip_to_str_eq:
  assumes "16 \<le> length buf"
  shows "length (dotted addr) < 16 \<and>
    ip_to_str addr buf = Inr (dotted addr @ NUL # drop (length (dotted addr) + 1) buf)"
proof -
  let ?o = "\<lambda>n. dec_nat (unat (drop_bit n addr AND 0xFF))"
  have l: "length (?o n) \<le> 3" for n using octet_small [of "drop_bit n addr"] by (intro dec_nat_3) simp
  let ?d1 = "?o 24 @ ''.''" let ?d2 = "?o 16 @ ''.''" let ?d3 = "?o 8 @ ''.''"
  have a0: "drop_bit 0 addr = addr" by simp
  have len: "length (?d1 @ ?d2 @ ?d3) \<le> 12" using l [of 24] l [of 16] l [of 8] by simp
  have s1: "sbind (put_octet (drop_bit 24 addr AND 0xFF) (0, buf)) put_dot = Inr (length ?d1, ?d1 @ drop (length ?d1) buf)"
    using put_octet_dot [of "drop_bit 24 addr" buf "[]"] l [of 24] assms by simp
  have s2: "sbind (put_octet (drop_bit 16 addr AND 0xFF) (length ?d1, ?d1 @ drop (length ?d1) buf)) put_dot =
      Inr (length (?d1 @ ?d2), (?d1 @ ?d2) @ drop (length (?d1 @ ?d2)) buf)"
    using put_octet_dot [of "drop_bit 16 addr" "drop (length ?d1) buf" ?d1] l [of 24] l [of 16] assms
    by (simp add: add.commute add.left_commute)
  have s3: "sbind (put_octet (drop_bit 8 addr AND 0xFF) (length (?d1 @ ?d2), (?d1 @ ?d2) @ drop (length (?d1 @ ?d2)) buf)) put_dot =
      Inr (length (?d1 @ ?d2 @ ?d3), (?d1 @ ?d2 @ ?d3) @ drop (length (?d1 @ ?d2 @ ?d3)) buf)"
    using put_octet_dot [of "drop_bit 8 addr" "drop (length (?d1 @ ?d2)) buf" "?d1 @ ?d2"] l [of 24] l [of 16] l [of 8] assms
    by (simp add: add.commute add.left_commute)
  have s4: "at_offset (length (?d1 @ ?d2 @ ?d3)) (int_to_str (int (unat (addr AND 0xFF))))
      ((?d1 @ ?d2 @ ?d3) @ drop (length (?d1 @ ?d2 @ ?d3)) buf) =
      Inr ((?d1 @ ?d2 @ ?d3) @ ?o 0 @ NUL # drop (length (?o 0) + 1) (drop (length (?d1 @ ?d2 @ ?d3)) buf))"
    using octet_at [OF octet_small [of addr], of "drop (length (?d1 @ ?d2 @ ?d3)) buf" "?d1 @ ?d2 @ ?d3"]
      l [of 0] len assms unfolding a0 by simp
  have b: "sbind (sbind x f) g = sbind x (\<lambda>a. sbind (f a) g)" for x :: "fault + 'x" and f g
    by (cases x) simp_all
  have "ip_to_str addr buf =
    sbind (sbind (put_octet (drop_bit 24 addr AND 0xFF) (0, buf)) put_dot) (\<lambda>st.
    sbind (sbind (put_octet (drop_bit 16 addr AND 0xFF) st) put_dot) (\<lambda>st.
    sbind (sbind (put_octet (drop_bit 8 addr AND 0xFF) st) put_dot) (\<lambda>(p, b).
     at_offset p (int_to_str (int (unat (addr AND 0xFF)))) b)))"
    by (simp only: ip_to_str_def b)
  then show ?thesis
    using s1 s2 s3 s4 len l [of 0] by (simp add: dotted_def add.commute add.left_commute)
qed

end
