(* ===== verification/InfoCmds.thy ===== *)
theory InfoCmds imports ProcNet begin

text \<open>
  The commands that only report or drive a device: clock, memory and disk reports, \<open>fetch\<close>
  (src/kernel/kernel.c), \<open>help\<close>, \<open>info\<close>, \<open>echo\<close>, the speaker, power off and reboot (src/bin). Those
  that wait for a key are completed in the theory of the shell.
\<close>

section \<open>The clock\<close>

text \<open>\<open>x = bcd_to_bin(x)\<close> on an \<open>uint8_t\<close>.\<close>

definition bcd8 :: "u8 \<Rightarrow> u8" where
  "bcd8 x = word_of_int (bcd_to_bin (uint x))"

text \<open>A number in an array of \<open>cap\<close> bytes on the stack.\<close>

definition number :: "nat \<Rightarrow> int \<Rightarrow> (kernel, carray) cmd" where
  "number cap n = lift_sum (int_to_str n (replicate cap NUL))"

definition execute_date :: "(kernel, unit) cmd" where
  "execute_date =
     bindc (cmos_read 0x00) (\<lambda>second. bindc (cmos_read 0x02) (\<lambda>minute. bindc (cmos_read 0x04) (\<lambda>hour.
     bindc (cmos_read 0x07) (\<lambda>day. bindc (cmos_read 0x08) (\<lambda>month. bindc (cmos_read 0x09) (\<lambda>year.
     bindc (number 3 (uint (bcd8 hour))) (\<lambda>hour_str.
     bindc (number 3 (uint (bcd8 minute))) (\<lambda>min_str.
     bindc (number 3 (uint (bcd8 second))) (\<lambda>sec_str.
     bindc (number 3 (uint (bcd8 day))) (\<lambda>day_str.
     bindc (number 3 (uint (bcd8 month))) (\<lambda>month_str.
     bindc (number 5 (uint (bcd8 year) + 2000)) (\<lambda>year_str. cseq
       [say '''', say (cstr day_str), say ''/'', say (cstr month_str), say ''/'', say (cstr year_str),
        say '' '', say (cstr hour_str), say '':'', say (cstr min_str), say '':'', say (cstr sec_str),
        say NL]))))))))))))"

definition execute_time :: "(kernel, unit) cmd" where
  "execute_time =
     bindc (cmos_read 0x04) (\<lambda>hour. bindc (cmos_read 0x02) (\<lambda>minute. bindc (cmos_read 0x00) (\<lambda>second.
     bindc (number 3 (uint (bcd8 hour))) (\<lambda>hour_str.
     bindc (number 3 (uint (bcd8 minute))) (\<lambda>min_str.
     bindc (number 3 (uint (bcd8 second))) (\<lambda>sec_str. cseq
       [say '''', say (cstr hour_str), say '':'', say (cstr min_str), say '':'', say (cstr sec_str),
        say NL]))))))"

section \<open>Reports\<close>

definition execute_whoami :: "(kernel, unit) cmd" where
  "execute_whoami = say (''root'' @ NL)"

text \<open>\<open>sec_str\<close> is printed without having been written.\<close>

definition execute_uptime :: "(kernel, unit) cmd" where
  "execute_uptime = andthen (say '''') (halt (Fault Uninitialised))"

definition execute_ver :: "(kernel, unit) cmd" where
  "execute_ver = cseq [setcolor COLOR_GREEN COLOR_BLACK,
     say (''Srunix86 LiveCD x86_64 v0.0.5-1'' @ NL)]"

definition execute_cls :: "(kernel, unit) cmd" where
  "execute_cls = act (on_con terminal_clear)"

definition used_memory_kb :: "kernel \<Rightarrow> u32" where
  "used_memory_kb k = ucast ((next_node_addr k - 0x100000) div 1024)"

definition execute_memory :: "(kernel, unit) cmd" where
  "execute_memory k =
     (let used = used_memory_kb k; free = TOTAL_MEMORY_KB - used
      in bindc (number 16 (sint used)) (\<lambda>used_str.
         bindc (number 16 (sint free)) (\<lambda>free_str.
         bindc (number 16 (sint TOTAL_MEMORY_KB)) (\<lambda>total_str. cseq
           [say '''', say ''total: '', say (cstr total_str), say ('' KB'' @ NL),
            say ''used:  '', say (cstr used_str), say ('' KB'' @ NL),
            say ''free:  '', say (cstr free_str), say ('' KB'' @ NL)]))) k)"

text \<open>\<open>bytes / (1024 * 1024)\<close> passed as \<open>int\<close>.\<close>

definition megabytes :: "u64 \<Rightarrow> int" where
  "megabytes b = sint (ucast (b div (1024 * 1024)) :: u32)"

definition execute_disk :: "(kernel, unit) cmd" where
  "execute_disk = cseq
     [say '''', say ('' '' @ NL),
      (\<lambda>k. for_each (\<lambda>i k. let d = disks k ! i
         in bindc (number 16 (megabytes (total_bytes d))) (\<lambda>total_str.
            bindc (number 16 (megabytes (total_bytes d - free_bytes d))) (\<lambda>used_str.
            bindc (number 16 (megabytes (free_bytes d))) (\<lambda>free_str. cseq
              [say (disk_name d), say '':'',
               say ''  Total: '', say (cstr total_str), say ('' MB'' @ NL),
               say ''  Used:  '', say (cstr used_str), say ('' MB'' @ NL),
               say ''  Free:  '', say (cstr free_str), say ('' MB'' @ NL),
               (\<lambda>k. if i < length (disks k) - 1 then say NL k else Ret () k)]))) k)
         [0..<length (disks k)] k)]"

definition execute_sysinfo :: "(kernel, unit) cmd" where
  "execute_sysinfo = cseq
     [say (''System Info:'' @ NL),
      (\<lambda>k. let used = used_memory_kb k; free = TOTAL_MEMORY_KB - used
         in bindc (number 16 (sint used)) (\<lambda>used_str.
            bindc (number 16 (sint free)) (\<lambda>total_str. cseq
              [say ''Memory: '', say (cstr used_str), say '' KB used, '', say (cstr total_str),
               say ('' KB total'' @ NL)])) k),
      say ''Uptime: '',
      say (NL @ ''Disks:'' @ NL),
      (\<lambda>k. for_each (\<lambda>i k. let d = disks k ! i
         in printf (''- %s: %d MB total, %d MB free'' @ NL)
              [Str (disk_name d), Word (word_of_int (megabytes (total_bytes d))),
               Word (word_of_int (megabytes (free_bytes d)))] k) [0..<length (disks k)] k)]"

section \<open>fetch\<close>

text \<open>
  \<open>regs[12]\<close> after the three \<open>cpuid\<close> instructions, as bytes; the processor's answer (\<open>eax\<close>, \<open>ebx\<close>, \<open>ecx\<close>,
  \<open>edx\<close>) is a parameter.
\<close>

definition reg_bytes :: "u32 \<Rightarrow> char list" where
  "reg_bytes r = map (\<lambda>i. char_of (unat (drop_bit (8 * i) r AND 0xFF))) [0..<4]"

definition cpu_regs :: "(u32 \<Rightarrow> u32 \<times> u32 \<times> u32 \<times> u32) \<Rightarrow> char list" where
  "cpu_regs cpuid = concat (map (\<lambda>leaf. case cpuid leaf of (a, b, c, d) \<Rightarrow>
     reg_bytes a @ reg_bytes b @ reg_bytes c @ reg_bytes d) [0x80000002, 0x80000003, 0x80000004])"

text \<open>
  \<open>get_cpu_name\<close>: the 48 bytes the processor returned are the first argument. Only the local copy of the
  pointer moves past leading blanks, so they stay; the trailing ones are cut by a terminator.
\<close>

fun trim_end :: "carray \<Rightarrow> nat \<Rightarrow> nat \<Rightarrow> nat" where
  "trim_end buf p 0 = 0"
| "trim_end buf p (Suc e) = (if Suc e > p \<and> buf ! Suc e = CHR '' '' then trim_end buf p e else Suc e)"

definition get_cpu_name :: "char list \<Rightarrow> carray \<Rightarrow> fault + carray" where
  "get_cpu_name regs buffer =
     sbind (memcpy buffer 0 regs 0 48) (\<lambda>b0.
     sbind (write_at b0 48 NUL) (\<lambda>b1.
       let p = length (takeWhile (\<lambda>c. c = CHR '' '') b1);
           n = length (cstr (drop p b1))
       in if n = 0 then write_at b1 p NUL
          else write_at b1 (trim_end b1 p (p + n - 1) + 1) NUL))"

definition get_memory_info :: "kernel \<Rightarrow> u32 \<times> u32" where
  "get_memory_info k = (TOTAL_MEMORY_KB, ucast ((next_node_addr k - 0x100000) div 1024))"

definition get_resolution :: "carray \<Rightarrow> fault + carray" where
  "get_resolution buffer = strcpy buffer ''1920x1080''"

definition fetch_line :: "string \<Rightarrow> string \<Rightarrow> (kernel, unit) cmd" where
  "fetch_line label text = cseq
     [setcolor COLOR_YELLOW COLOR_BLACK, say label, setcolor COLOR_WHITE COLOR_BLACK, say text]"

definition execute_fetch :: "char list \<Rightarrow> (kernel, unit) cmd" where
  "execute_fetch regs k =
     bindc (lift_sum (get_cpu_name regs (replicate 64 NUL))) (\<lambda>cpu_name.
     (case get_memory_info k of (total_mem_kb, used_mem_kb) \<Rightarrow>
     bindc (lift_sum (get_resolution (replicate 32 NUL))) (\<lambda>resolution. cseq
       [setcolor COLOR_BRIGHT_GREEN COLOR_BLACK, say (''              srunix@(unknown)'' @ NL),
        setcolor COLOR_WHITE COLOR_BLACK, say (''              ----------- '' @ NL),
        fetch_line ''  ___ ___     OS:'' ('' Srunix86 v0.0.5-1 amd64'' @ NL),
        fetch_line '' / __| _ |    Host:'' ('' PC x86_64'' @ NL),
        fetch_line '' |__ |   /    Kernel:'' ('' Srunix Kernel 0.0.5-1'' @ NL),
        fetch_line '' |___/_|_| _  License:'' ('' BSD license'' @ NL),
        fetch_line '' | | | | || | Packages:'' ('' - '' @ NL),
        fetch_line '' | |_| | .` | Shell:'' ('' ush 6.0-02'' @ NL),
        fetch_line ''  |___/|_|._| Resolution: '' (cstr resolution), say NL,
        fetch_line '' |_ _| || /   Terminal: '' ''/dev/tty'',
        (\<lambda>k. bindc (number 4 (int (current_tty (con k)) + 1)) (\<lambda>tty_num. say (cstr tty_num)) k), say NL,
        fetch_line ''  | | >  <    CPU: '' (cstr cpu_name), say NL,
        fetch_line '' |___/_/|_|   GPU: '' (''VGA (text mode)'' @ NL),
        fetch_line ''              Memory: '' '''',
        bindc (number 16 (sint used_mem_kb)) (\<lambda>mem_used_str.
        bindc (number 16 (sint total_mem_kb)) (\<lambda>mem_total_str. cseq
          [say (cstr mem_used_str), say '' KB / '', say (cstr mem_total_str), say ('' KB'' @ NL)]))]))) k"

section \<open>help, echo\<close>

definition say_all :: "string list \<Rightarrow> (kernel, unit) cmd" where
  "say_all = for_each say"

definition execute_help :: "int \<Rightarrow> (kernel, unit) cmd" where
  "execute_help page =
     (if page = 1 then cseq
        [setcolor COLOR_BRIGHT_GREEN COLOR_BLACK, say (''Commands (page 1/2):'' @ NL),
         setcolor COLOR_GRAY COLOR_BLACK,
         say_all [''help [page] - Show help'' @ NL, ''cls - Clear screen'' @ NL, ''ver - Show version'' @ NL,
           ''ls - List files'' @ NL, ''pwd - Print working directory'' @ NL, ''cd - Change directory'' @ NL,
           ''echo - Display message'' @ NL, ''cat - Display file contents'' @ NL,
           ''date - Show current date/time'' @ NL, ''time - Show current time'' @ NL,
           ''whoami - Show current user'' @ NL, ''mem - Show memory usage'' @ NL],
         setcolor COLOR_BRIGHT_GREEN COLOR_BLACK,
         say (''Type '' @ [CHR 0x27] @ ''help 2'' @ [CHR 0x27] @ '' for more commands'' @ NL),
         setcolor COLOR_WHITE COLOR_BLACK]
      else if page = 2 then cseq
        [setcolor COLOR_BRIGHT_GREEN COLOR_BLACK, say (''Commands (page 2/2):'' @ NL),
         setcolor COLOR_GRAY COLOR_BLACK,
         say_all [''kptest - Test Kernel Panic'' @ NL, ''lsblk - Show disk information'' @ NL,
           ''pause - Wait for keypress'' @ NL, ''poweroff - Shut down'' @ NL, ''reboot - Reboot'' @ NL,
           ''exit - Log out'' @ NL, ''srunix86 - restart the shell'', ''touch - Create file'' @ NL,
           ''dhcpcd - Automatically configures the fake Internet'' @ NL,
           ''ping - emulator for sending packets to the server'' @ NL, ''mkdir - Create directory'' @ NL,
           ''rm - Delete file (use -rf for directories)'' @ NL, ''beep - Play test sound'' @ NL,
           ''smouse - Test a mouse support'' @ NL],
         setcolor COLOR_WHITE COLOR_BLACK]
      else say (''Invalid help page'' @ NL))"

text \<open>The words after the command, run together: the separator printed is the empty string.\<close>

definition execute_echo :: "string list \<Rightarrow> (kernel, unit) cmd" where
  "execute_echo args = cseq
     [for_each (\<lambda>i. cseq [say (args ! i), say '''']) [1..<length args], say NL]"

section \<open>Screens of info and Z\<close>

definition info_line :: "string \<Rightarrow> string \<Rightarrow> (kernel, unit) cmd" where
  "info_line art text = cseq
     [setcolor COLOR_YELLOW COLOR_BLACK, say art, setcolor COLOR_WHITE COLOR_BLACK, say (text @ NL)]"

definition display_info :: "(kernel, unit) cmd" where
  "display_info = cseq
     [setcolor COLOR_YELLOW COLOR_BLACK,
      say_all [''  *##*                 ****                *##*  '' @ NL,
        ''   *####*****      *##########*      *****#####   '' @ NL,
        ''    *###  ******   ***** #*####*#  +****  ###*    '' @ NL,
        ''     *##     #*****        @*####*        ##*     '' @ NL,
        ''      *#*       ##****       #*####*     *#*      '' @ NL,
        ''       ***  ***#*  *#***  ***  *####**  *#*       '' @ NL,
        ''          *#####*    *  *****    **** *##*        '' @ NL,
        ''        *#####*       ****#          ###*         ''],
      setcolor COLOR_WHITE COLOR_BLACK, say (''OS: Srunix86'' @ NL),
      info_line ''      *#####*       ****%  ***      *#*# ***      '' ''Release: 0.0.5-1'',
      info_line ''    #*####*  ***  **#*#    @*##*  ****  *###*#    '' ''License: BSD-3-Clause license'',
      info_line ''   *#####*   *##*  **        *###* #*    *####*   '' ''Langs: ASM, Linker and C'',
      info_line ''  *####*       *#* *#*        *#* #*     *####*   '' ''POSIX support'',
      info_line ''   *####*    *# *###*        **  *##*   *#####*   '' ''FS: bkFS 0.3.1 '',
      info_line ''    %*###*  ****  *##*@    #*#**  ***  *####*#    '' ''Loader: GRUB2'',
      info_line ''      *** %*#*      ***  #****       *#####*      '' ''Arch: x86_64'',
      info_line ''         *###          #****       *#####*        '' ''Uploaded: /boot/krn.img'',
      setcolor COLOR_YELLOW COLOR_BLACK,
      say_all [''        *##* ****    *****  *    *#####*          '' @ NL,
        ''       *#*  **####*  ***  ***#*  *#***  ***       '' @ NL,
        ''      *#*     *####*#       ****##       *#*      '' @ NL,
        ''     *##        *####*@        *****#     ##*     '' @ NL,
        ''    *###  ****+  #*####** *****   ******  ###*    '' @ NL,
        ''   #####*****      *##########*      *****####*   '' @ NL,
        ''   *##***%           *######*            ****#*   '' @ NL,
        ''  ***                  ****                   **  '' @ NL]]"

definition zov :: "(kernel, unit) cmd" where
  "zov = cseq
     [setcolor COLOR_WHITE COLOR_GRAY, say (replicate 9 CHR 0x0A),
      setcolor COLOR_WHITE COLOR_YELLOW, say (replicate 8 CHR 0x0A),
      setcolor COLOR_WHITE COLOR_WHITE, say (replicate 8 CHR 0x0A),
      setcolor COLOR_WHITE COLOR_BLACK]"

section \<open>Speaker and power\<close>

definition beep :: "u32 \<Rightarrow> (kernel, unit) cmd" where
  "beep frequency =
     (let divisor = 1193180 div frequency
      in cseq
        [act (on_con (outb 0x43 0xB6)),
         act (on_con (outb 0x42 (ucast (divisor AND 0xFF)))),
         act (on_con (outb 0x42 (ucast (drop_bit 8 divisor AND 0xFF)))),
         bindc (inb 0x61) (\<lambda>tmp.
           if tmp \<noteq> (tmp OR 3) then act (on_con (outb 0x61 (tmp OR 3))) else ret ())])"

definition no_sound :: "(kernel, unit) cmd" where
  "no_sound = bindc (inb 0x61) (\<lambda>tmp. act (on_con (outb 0x61 (tmp AND 0xFC))))"

definition execute_beep :: "(kernel, unit) cmd" where
  "execute_beep = cseq [beep 1000, no_sound]"

definition execute_poweroff :: "(kernel, unit) cmd" where
  "execute_poweroff = cseq
     [say '''',
      act (on_con (outw 0x604 0x2000)),
      act (on_con (outw 0xB004 0x2000)),
      act (on_con (outw 0x4004 0x3400)),
      halt NoReturn]"

text \<open>Waiting for the keyboard controller: the loop consumes input until bit 1 is clear.\<close>

fun wait_input_clear :: "nat \<Rightarrow> (kernel, unit) cmd" where
  "wait_input_clear 0 k = Stop OutOfFuel k"
| "wait_input_clear (Suc n) k =
     bindc (inb 0x64) (\<lambda>temp. if temp AND 0x02 \<noteq> 0 then wait_input_clear n else ret ()) k"

text \<open>Each round takes one byte of the input, so its length and one more is fuel enough.\<close>

definition execute_reboot :: "(kernel, unit) cmd" where
  "execute_reboot = cseq
     [say (''Reboot'' @ NL),
      (\<lambda>k. wait_input_clear (Suc (length (io_in k))) k),
      act (on_con (outb 0x64 0xFE)),
      halt NoReturn]"

section \<open>When the clock commands overrun their arrays\<close>

lemma bcd8_value: "uint (bcd8 x) = uint x mod 16 + uint x div 16 * 10"
proof -
  have "uint x < 256" using uint_lt2p [of x] by simp
  then have "uint x mod 16 + uint x div 16 * 10 < 256" by simp
  moreover have "0 \<le> uint x div 16" by (simp add: pos_imp_zdiv_nonneg_iff)
  then have "0 \<le> uint x mod 16 + uint x div 16 * 10" by (intro add_nonneg_nonneg) simp_all
  moreover have "uint (word_of_int m :: u8) = m" if "0 \<le> m" "m < 256" for m
    using that by (simp add: uint_word_of_int)
  ultimately show ?thesis unfolding bcd8_def bcd_to_bin_eq by blast
qed

text \<open>A byte that encodes two decimal digits.\<close>

definition valid_bcd :: "u8 \<Rightarrow> bool" where
  "valid_bcd x \<longleftrightarrow> uint x mod 16 < 10 \<and> uint x div 16 < 10"

lemma two_digits: "number 3 (int n) k = (if n < 100 then Ret (dec_nat n @ NUL # drop (Suc (length (dec_nat n))) (replicate 3 NUL)) k
    else Stop (Fault OutOfBounds) k)"
proof (cases "n < 100")
  case True
  then have "length (dec_nat n) \<le> 2" using length_dec_nat_le [of n 2] by simp
  then show ?thesis using True by (simp add: number_def lift_sum_def int_to_str_eq dec_int_nat)
next
  case False
  then have "2 < length (dec_nat n)" using length_dec_nat_ge [of 2 n] by simp
  then show ?thesis using False by (simp add: number_def lift_sum_def int_to_str_eq dec_int_nat)
qed

end
