(* ===== verification/Mouse.thy ===== *)
theory Mouse imports Machine begin

text \<open>
  The PS/2 mouse of src/lib/prdio.h: the polling reads, the packet handler with its three cycles,
  the pointer and the selection drawn into video memory. Nothing in the kernel calls \<open>init_mouse\<close>.
\<close>

section \<open>Talking to the controller\<close>

text \<open>\<open>while (timeout--)\<close>: at most \<open>timeout\<close> reads of the status port.\<close>

fun mouse_wait_loop :: "nat \<Rightarrow> u8 \<Rightarrow> (kernel, unit) cmd" where
  "mouse_wait_loop 0 type k = Ret () k"
| "mouse_wait_loop (Suc timeout) type k =
     bindc (inb 0x64) (\<lambda>st.
       if (if type = 0 then st AND 1 = 1 else st AND 2 = 0) then ret ()
       else mouse_wait_loop timeout type) k"

definition mouse_wait :: "u8 \<Rightarrow> (kernel, unit) cmd" where
  "mouse_wait type = mouse_wait_loop 100000 type"

definition mouse_write :: "u8 \<Rightarrow> (kernel, unit) cmd" where
  "mouse_write data = cseq
     [mouse_wait 1, act (on_con (outb 0x64 0xD4)), mouse_wait 1, act (on_con (outb 0x60 data))]"

definition mouse_read :: "(kernel, u8) cmd" where
  "mouse_read = andthen (mouse_wait 0) (inb 0x60)"

definition on_mouse :: "(mouse \<Rightarrow> mouse) \<Rightarrow> kernel \<Rightarrow> kernel" where
  "on_mouse f k = k\<lparr>mice := f (mice k)\<rparr>"

definition init_mouse :: "(kernel, unit) cmd" where
  "init_mouse = cseq
     [mouse_wait 1, act (on_con (outb 0x64 0xA8)),
      mouse_wait 1, act (on_con (outb 0x64 0x20)),
      mouse_wait 0,
      bindc (inb 0x60) (\<lambda>b. let status = b OR 2 in cseq
        [mouse_wait 1, act (on_con (outb 0x64 0x60)),
         mouse_wait 1, act (on_con (outb 0x60 status))]),
      mouse_write 0xF6, bindc mouse_read (\<lambda>_. ret ()),
      mouse_write 0xF4, bindc mouse_read (\<lambda>_. ret ()),
      act (on_mouse (\<lambda>m. m\<lparr>mouse_enabled := True\<rparr>))]"

section \<open>The selection\<close>

definition selection_active :: "mouse \<Rightarrow> bool" where
  "selection_active m \<longleftrightarrow> \<not> (selection_start_x m = -1 \<or> selection_end_x m = -1)"

text \<open>The cells the two loops visit, in their order; \<open>uint16_t pos\<close>.\<close>

definition selection_cells :: "mouse \<Rightarrow> nat list" where
  "selection_cells m =
     (let sx = min (selection_start_x m) (selection_end_x m);
          ex = max (selection_start_x m) (selection_end_x m);
          sy = min (selection_start_y m) (selection_end_y m);
          ey = max (selection_start_y m) (selection_end_y m)
      in concat (map (\<lambda>y. map (\<lambda>x. unat (word_of_int (y * int SCREEN_WIDTH + x) :: u16))
           [(if y = sy then sx else 0)..(if y = ey then ex else int SCREEN_WIDTH - 1)]) [sy..ey]))"

definition recolor :: "u16 \<Rightarrow> nat \<Rightarrow> console \<Rightarrow> console" where
  "recolor attribute pos c = poke pos ((terminal_buffer c pos AND 0xFF) OR attribute) c"

definition draw_selection :: "kernel \<Rightarrow> kernel" where
  "draw_selection k =
     (if \<not> selection_active (mice k) then k
      else on_con (fold (recolor (push_bit 8 (push_bit 4 (ucast COLOR_BLACK) OR ucast COLOR_WHITE)))
                     (selection_cells (mice k))) k)"

definition clear_selection :: "kernel \<Rightarrow> kernel" where
  "clear_selection k =
     (if \<not> selection_active (mice k) then k
      else on_con (\<lambda>c. fold (\<lambda>pos c. recolor (push_bit 8 (ucast (terminal_color c))) pos c)
                     (selection_cells (mice k)) c) k)"

definition update_selection :: "kernel \<Rightarrow> kernel" where
  "update_selection k =
     (if \<not> selection_active (mice k) then k else draw_selection (clear_selection k))"

section \<open>The pointer\<close>

definition mouse_pos :: "mouse \<Rightarrow> nat" where
  "mouse_pos m = unat (word_of_int (mouse_y m * int SCREEN_WIDTH + mouse_x m) :: u16)"

definition draw_mouse :: "kernel \<Rightarrow> kernel" where
  "draw_mouse k =
     (if \<not> mouse_enabled (mice k) then k
      else on_con (poke (mouse_pos (mice k)) (0xDB OR push_bit 8 (ucast COLOR_WHITE))) k)"

definition clear_mouse :: "kernel \<Rightarrow> kernel" where
  "clear_mouse k =
     (if \<not> mouse_enabled (mice k) then k
      else on_con (\<lambda>c. poke (mouse_pos (mice k)) (terminal_buffer c (mouse_pos (mice k))) c) k)"

section \<open>Packets\<close>

text \<open>
  A movement byte: a signed \<open>char\<close> widened to \<open>int\<close>, with \<open>0xFFFFFF00\<close> or-ed in when the sign bit of
  the packet is set; C division by two rounds towards zero.
\<close>

definition movement :: "u8 \<Rightarrow> bool \<Rightarrow> int" where
  "movement b neg = (let d = (scast b :: u32) in sint (if neg then d OR 0xFFFFFF00 else d))"

definition c_half :: "int \<Rightarrow> int" where
  "c_half d = (if d < 0 then - ((- d) div 2) else d div 2)"

definition clamp :: "int \<Rightarrow> int \<Rightarrow> int" where
  "clamp bound x = (let x1 = (if x < 0 then 0 else x) in if x1 \<ge> bound then bound - 1 else x1)"

definition apply_packet :: "kernel \<Rightarrow> kernel" where
  "apply_packet k =
     (let m = mice k; b0 = mouse_byte m ! 0;
          left = (b0 AND 0x01 \<noteq> 0);
          dx = movement (mouse_byte m ! 1) (b0 AND 0x10 \<noteq> 0);
          dy = - movement (mouse_byte m ! 2) (b0 AND 0x20 \<noteq> 0);
          x = clamp (int SCREEN_WIDTH) (mouse_x m + c_half dx);
          y = clamp (int SCREEN_HEIGHT) (mouse_y m + c_half dy);
          m1 = m\<lparr>mouse_left_pressed := left, mouse_right_pressed := (b0 AND 0x02 \<noteq> 0), mouse_x := x, mouse_y := y\<rparr>;
          k1 = k\<lparr>mice := m1\<rparr>;
          k2 = (if left
                then on_mouse (\<lambda>m.
                  (if selection_start_x m = -1
                   then m\<lparr>selection_start_x := x, selection_start_y := y\<rparr> else m)
                  \<lparr>selection_end_x := x, selection_end_y := y\<rparr>) k1
                else if selection_start_x m1 \<noteq> -1
                then on_mouse (\<lambda>m. m\<lparr>selection_start_x := -1, selection_start_y := -1,
                       selection_end_x := -1, selection_end_y := -1\<rparr>) (clear_selection k1)
                else k1)
      in on_mouse (\<lambda>m. m\<lparr>mouse_cycle := 0\<rparr>) k2)"

definition mouse_handler :: "(kernel, unit) cmd" where
  "mouse_handler k =
     (if mouse_cycle (mice k) = 0
      then bindc mouse_read (\<lambda>b. act (on_mouse (\<lambda>m.
             let m1 = m\<lparr>mouse_byte := (mouse_byte m)[0 := b]\<rparr>
             in if b AND 0x08 = 0 then m1 else m1\<lparr>mouse_cycle := 1\<rparr>))) k
      else if mouse_cycle (mice k) = 1
      then bindc mouse_read (\<lambda>b. act (on_mouse (\<lambda>m.
             m\<lparr>mouse_byte := (mouse_byte m)[1 := b], mouse_cycle := 2\<rparr>))) k
      else if mouse_cycle (mice k) = 2
      then bindc mouse_read (\<lambda>b. act (\<lambda>k.
             apply_packet (on_mouse (\<lambda>m. m\<lparr>mouse_byte := (mouse_byte m)[2 := b]\<rparr>) k))) k
      else Ret () k)"

text \<open>The block the keyboard loop runs when the mouse is enabled and the controller has a byte.\<close>

definition mouse_event :: "(kernel, unit) cmd" where
  "mouse_event = bindc (inb 0x60) (\<lambda>_. cseq
     [mouse_handler, act clear_mouse, act draw_mouse, act update_selection])"

definition poll_mouse :: "(kernel, unit) cmd" where
  "poll_mouse k =
     (if mouse_enabled (mice k)
      then bindc (inb 0x64) (\<lambda>st. if st AND 1 \<noteq> 0 then mouse_event else ret ()) k
      else Ret () k)"

section \<open>Bounds\<close>

text \<open>The pointer is on the screen, and so are the corners of the selection while there is one.\<close>

definition mouse_ok :: "mouse \<Rightarrow> bool" where
  "mouse_ok m \<longleftrightarrow> 0 \<le> mouse_x m \<and> mouse_x m < int SCREEN_WIDTH \<and> 0 \<le> mouse_y m \<and> mouse_y m < int SCREEN_HEIGHT \<and>
     (selection_active m \<longrightarrow>
        0 \<le> selection_start_x m \<and> selection_start_x m < int SCREEN_WIDTH \<and>
        0 \<le> selection_start_y m \<and> selection_start_y m < int SCREEN_HEIGHT \<and>
        0 \<le> selection_end_x m \<and> selection_end_x m < int SCREEN_WIDTH \<and>
        0 \<le> selection_end_y m \<and> selection_end_y m < int SCREEN_HEIGHT) \<and>
     (selection_start_x m = -1 \<longleftrightarrow> selection_end_x m = -1)"

lemma clamp_bounds: "0 < n \<Longrightarrow> 0 \<le> clamp n x \<and> clamp n x < n"
  by (auto simp: clamp_def Let_def)

lemma selection_frame [simp]:
  "mice (clear_selection k) = mice k" "mice (draw_selection k) = mice k" "mice (update_selection k) = mice k"
  "mice (on_mouse f k) = f (mice k)" "con (on_mouse f k) = con k"
  by (simp_all add: clear_selection_def draw_selection_def update_selection_def on_mouse_def)

lemma apply_packet_ok:
  assumes "mouse_ok (mice k)"
  shows "mouse_ok (mice (apply_packet k))"
proof -
  let ?m = "mice k"
  define x where "x = clamp (int SCREEN_WIDTH) (mouse_x ?m + c_half (movement (mouse_byte ?m ! 1) (mouse_byte ?m ! 0 AND 0x10 \<noteq> 0)))"
  define y where "y = clamp (int SCREEN_HEIGHT) (mouse_y ?m + c_half (- movement (mouse_byte ?m ! 2) (mouse_byte ?m ! 0 AND 0x20 \<noteq> 0)))"
  have xy: "0 \<le> x" "x < int SCREEN_WIDTH" "0 \<le> y" "y < int SCREEN_HEIGHT"
    using clamp_bounds [of "int SCREEN_WIDTH"] clamp_bounds [of "int SCREEN_HEIGHT"] by (simp_all add: x_def y_def)
  then have n: "x \<noteq> -1" by simp
  show ?thesis
    using assms xy n unfolding apply_packet_def x_def [symmetric] y_def [symmetric] Let_def
    by (simp add: mouse_ok_def selection_active_def)
qed

lemma selection_cells_bound:
  assumes "mouse_ok m" and "selection_active m" and "p \<in> set (selection_cells m)"
  shows "p < 2000"
proof -
  obtain y x where p: "p = unat (word_of_int (y * int SCREEN_WIDTH + x) :: u16)"
    "min (selection_start_y m) (selection_end_y m) \<le> y" "y \<le> max (selection_start_y m) (selection_end_y m)"
    "(if y = min (selection_start_y m) (selection_end_y m) then min (selection_start_x m) (selection_end_x m) else 0) \<le> x"
    "x \<le> (if y = max (selection_start_y m) (selection_end_y m) then max (selection_start_x m) (selection_end_x m)
          else int SCREEN_WIDTH - 1)"
    using assms(3) unfolding selection_cells_def Let_def set_concat set_map set_upto by auto
  have b: "0 \<le> y" "y < int SCREEN_HEIGHT" "0 \<le> x" "x < int SCREEN_WIDTH"
    using p(2-5) assms(1,2) by (auto simp: mouse_ok_def split: if_splits)
  then have "0 \<le> y * int SCREEN_WIDTH + x" "y * int SCREEN_WIDTH + x < 2000" by auto
  moreover have "unat (word_of_int m :: u16) = nat m" if "0 \<le> m" "m < 2000" for m
    using that by (simp add: unat_eq_nat_uint uint_word_of_int)
  ultimately have "p = nat (y * int SCREEN_WIDTH + x)" unfolding p(1) by blast
  then show ?thesis using \<open>y * int SCREEN_WIDTH + x < 2000\<close> by linarith
qed

lemma recolor_outside: "i \<notin> set ps \<Longrightarrow> terminal_buffer (fold (recolor a) ps c) i = terminal_buffer c i"
  by (induction ps arbitrary: c) (auto simp: recolor_def poke_def)

end
