(* ===== verification/Boot.thy ===== *)
theory Boot imports FileCmds begin

text \<open>
  What \<open>kernel_main\<close> (src/kernel/kernel.c) does before the first login: console, network device,
  the tables of bkFS and the initial directory tree, the timer. The tree is given in closed form,
  and with it the state the login screen starts from.
\<close>

section \<open>Initialisation\<close>

definition network_init :: "(kernel, unit) cmd" where
  "network_init k =
     (case strcpy (replicate 16 NUL) ''eth0'' of
        Inl e \<Rightarrow> Stop (Fault e) k
      | Inr name \<Rightarrow> Ret () (k\<lparr>net_dev := zero_net\<lparr>dev_name := name,
          mac := [0x52, 0x54, 0x00, 0x12, 0x34, 0x56], dhcp_enabled := True\<rparr>\<rparr>))"

text \<open>
  \<open>uint32_t divisor = PIT_FREQUENCY / TIMER_HZ\<close> with \<open>TIMER_HZ\<close> the \<open>double\<close> 18.2: the quotient
  truncated.
\<close>

definition timer_divisor :: u32 where
  "timer_divisor = of_nat (PIT_FREQUENCY * 10 div 182)"

definition init_timer :: "(kernel, unit) cmd" where
  "init_timer = cseq
     [act (on_con (outb PIT_COMMAND 0x36)),
      act (on_con (outb PIT_CHANNEL0 (ucast (timer_divisor AND 0xFF)))),
      act (on_con (outb PIT_CHANNEL0 (ucast (drop_bit 8 timer_divisor AND 0xFF)))),
      act (\<lambda>k. k\<lparr>boot_time := timer_ticks k\<rparr>)]"

text \<open>The two \<open>memset\<close> calls and the counters.\<close>

definition reset_tables :: "bkfs \<Rightarrow> bkfs" where
  "reset_tables s = s\<lparr>inodes := replicate MAX_INODES zero_inode,
     block_used := replicate MAX_BLOCKS False, free_blocks := of_nat MAX_BLOCKS,
     free_inodes := of_nat MAX_INODES\<rparr>"

definition create_each :: "u32 \<Rightarrow> u8 \<Rightarrow> string list \<Rightarrow> (kernel, unit) cmd" where
  "create_each parent type = for_each (\<lambda>name. bindc (fs_create_file name parent type) (\<lambda>_. ret ()))"

text \<open>The search for the entry \<open>dev\<close> or \<open>bin\<close> by name alone; 0 when there is none.\<close>

definition inode_of_name :: "string \<Rightarrow> kernel \<Rightarrow> u32" where
  "inode_of_name name k =
     (case find_entry (\<lambda>f. strcmp (entry_name f) name = 0) (fs k) of
        None \<Rightarrow> 0 | Some i \<Rightarrow> f_inode (entry_at i k))"

definition boot_tree :: "(kernel, unit) cmd" where
  "boot_tree = cseq
     [create_each 1 FILE_DIR [''root''],
      act (chdir 1),
      create_each 1 FILE_DIR [''bin'', ''etc'', ''home'', ''dev'', ''tmp'', ''sys''],
      create_each 1 FILE_REGULAR [''fetch''],
      (\<lambda>k. let dev_inode = inode_of_name ''dev'' k
           in (if dev_inode \<noteq> 0
               then create_each dev_inode FILE_REGULAR
                 [''sda'', ''sda1'', ''sdb1'', ''sdb'', ''vga'', ''vga1'', ''vga2'', ''null'', ''random'']
               else ret ()) k),
      (\<lambda>k. let bin_inode = inode_of_name ''bin'' k
           in (if bin_inode \<noteq> 0
               then cseq
                 [create_each bin_inode FILE_REGULAR [''ush'', ''ls'', ''cat'', ''echo'', ''fetch''],
                  (\<lambda>k. case find_entry (\<lambda>f. f_parent_inode f = bin_inode \<and>
                              strcmp (entry_name f) ''fetch'' = 0) (fs k) of
                         None \<Rightarrow> Ret () k
                       | Some i \<Rightarrow> bindc (write_file (f_inode (entry_at i k)) (''priveeet'' @ NL)
                                       (of_nat (length (''priveeet'' @ NL)))) (\<lambda>_. ret ()) k)]
               else ret ()) k)]"

definition kernel_boot :: "(kernel, unit) cmd" where
  "kernel_boot = cseq
     [act (on_con terminal_initialize),
      network_init,
      act (on_fs reset_tables),
      boot_tree,
      init_timer]"

section \<open>The table in closed form\<close>

definition boot_entry :: "string \<Rightarrow> nat \<Rightarrow> u32 \<Rightarrow> u8 \<Rightarrow> file_entry" where
  "boot_entry name n parent type = zero_file\<lparr>f_name := name @ replicate (32 - length name) NUL,
     f_inode := of_nat n, f_parent_inode := parent, f_type := type\<rparr>"

definition boot_inode :: "file_entry \<Rightarrow> inode" where
  "boot_inode e = zero_inode\<lparr>i_mode := (if f_type e = FILE_DIR then 0x4000 else 0x8000)\<rparr>"

definition boot_table :: "file_entry list \<Rightarrow> bkfs" where
  "boot_table es = static_bkfs\<lparr>free_inodes := of_nat MAX_INODES - of_nat (length es),
     files := replicate 5 zero_file @ es @ replicate (123 - length es) zero_file,
     inodes := map boot_inode es @ replicate (128 - length es) zero_inode,
     file_count := 5 + length es\<rparr>"

lemma boot_table_Nil: "boot_table [] = static_bkfs"
  unfolding boot_table_def static_bkfs_def
  by (simp del: replicate.simps flip: replicate_add)

lemma boot_table_frame [simp]:
  "current_inode (boot_table es) = 1" "blocks (boot_table es) = blocks static_bkfs"
  "file_count (boot_table es) = 5 + length es"
  by (simp_all add: boot_table_def static_bkfs_def)

lemma boot_files: "5 \<le> i \<Longrightarrow> i < 5 + length es \<Longrightarrow> files (boot_table es) ! i = es ! (i - 5)"
  by (simp add: boot_table_def nth_append)

lemma boot_files_static: "i < 5 \<Longrightarrow> files (boot_table es) ! i = zero_file"
  by (simp add: boot_table_def nth_append del: replicate.simps)

lemma entry_name_boot [simp]:
  "is_cstr name \<Longrightarrow> length name \<le> 30 \<Longrightarrow> entry_name (boot_entry name n parent type) = name"
proof -
  assume a: "is_cstr name" "length name \<le> 30"
  then obtain k where "32 - length name = Suc k" by (cases "32 - length name") auto
  then show ?thesis using a(1) by (simp add: entry_name_def boot_entry_def)
qed

lemma boot_entry_simps [simp]:
  "f_inode (boot_entry name n parent type) = of_nat n"
  "f_parent_inode (boot_entry name n parent type) = parent"
  "f_type (boot_entry name n parent type) = type"
  by (simp_all add: boot_entry_def)

lemma update_middle: "length xs = n \<Longrightarrow> (xs @ y # zs)[n := x] = xs @ x # zs"
  by (metis list_update_length)

lemma create_boot:
  assumes "length es < 123" and "is_cstr name" and "length name \<le> 30"
  shows "create_entry 0 name parent type (boot_table es) =
    Inr (FS_SUCCESS, boot_table (es @ [boot_entry name (Suc (length es)) parent type]))"
proof -
  let ?n = "length es"
  have fi: "first_index (\<lambda>i. i_mode (inodes (boot_table es) ! i) = 0) MAX_INODES = Some ?n"
    using assms(1) by (simp add: first_index_Some boot_table_def nth_append boot_inode_def zero_inode_def)
  have fr: "free_inodes (boot_table es) \<noteq> 0"
  proof
    assume "free_inodes (boot_table es) = 0"
    then have "(128 :: u32) = of_nat ?n" by (simp add: boot_table_def)
    then have "unat (128 :: u32) = unat (of_nat ?n :: u32)" by simp
    then show False using assms(1) by simp
  qed
  obtain r where r: "123 - ?n = Suc r" using assms(1) by (cases "123 - ?n") auto
  then have r': "r = 122 - ?n" "128 - ?n = Suc (127 - ?n)" using assms(1) by linarith+
  have fs5: "files (boot_table es) = (replicate 5 zero_file @ es) @ zero_file # replicate (122 - ?n) zero_file"
    unfolding boot_table_def using r r' by simp
  have at: "files (boot_table es) ! (5 + ?n) = zero_file"
    unfolding fs5 by (simp add: nth_append)
  have ino: "inodes (boot_table es) = map boot_inode es @ zero_inode # replicate (127 - ?n) zero_inode"
    unfolding boot_table_def using r'(2) by simp
  have nm: "strncpy (replicate 32 NUL) name 31 = Inr (name @ replicate (32 - length name) NUL)"
  proof -
    have "strncpy (replicate 32 NUL) name 31 = Inr (name @ replicate (31 - length name) NUL @ drop 31 (replicate 32 NUL))"
      using strncpy_ok [of name 31 "replicate 32 NUL"] assms(3) by simp
    also have "drop 31 (replicate 32 NUL) = replicate 1 NUL" by (simp only: drop_replicate) simp
    also have "name @ replicate (31 - length name) NUL @ replicate 1 NUL = name @ replicate (32 - length name) NUL"
    proof -
      have "32 - length name = Suc (31 - length name)" using assms(3) by simp
      then show ?thesis by (simp add: replicate_append_same)
    qed
    finally show ?thesis .
  qed
  have w: "word_of_int (int ?n + 1) = (1 + of_nat ?n :: u32)" by simp
  have len: "length (inodes (boot_table es)) = MAX_INODES" using assms(1) by (simp add: boot_table_def)
  define e where "e = zero_file\<lparr>f_name := name @ replicate (32 - length name) NUL, f_inode := 1 + of_nat ?n,
      f_parent_inode := parent, f_type := type, f_size := 0\<rparr>"
  have e: "e = boot_entry name (Suc ?n) parent type"
    by (simp add: e_def boot_entry_def zero_file_def)
  have "create_entry 0 name parent type (boot_table es) =
    Inr (FS_SUCCESS, (boot_table es)\<lparr>free_inodes := free_inodes (boot_table es) - 1,
      files := (files (boot_table es))[5 + ?n := e], inodes := (inodes (boot_table es))[?n := boot_inode e],
      file_count := Suc (5 + ?n)\<rparr>)"
    using assms(1) fi fr at nm len
    by (simp add: create_entry_def fs_alloc_inode_def Let_def w upd_inode_def get_inode_def zero_file_def
        boot_inode_def zero_inode_def e_def add.commute)
  also have "(boot_table es)\<lparr>free_inodes := free_inodes (boot_table es) - 1,
      files := (files (boot_table es))[5 + ?n := e], inodes := (inodes (boot_table es))[?n := boot_inode e],
      file_count := Suc (5 + ?n)\<rparr> = boot_table (es @ [e])"
  proof (rule bkfs.equality)
    have "((replicate 5 zero_file @ es) @ zero_file # replicate (122 - ?n) zero_file)[5 + ?n := e] =
        (replicate 5 zero_file @ es) @ e # replicate (122 - ?n) zero_file"
      by (rule update_middle) simp
    then show "files ((boot_table es)\<lparr>free_inodes := free_inodes (boot_table es) - 1,
      files := (files (boot_table es))[5 + ?n := e], inodes := (inodes (boot_table es))[?n := boot_inode e],
      file_count := Suc (5 + ?n)\<rparr>) = files (boot_table (es @ [e]))"
      unfolding fs5 by (simp add: boot_table_def)
    have "(map boot_inode es @ zero_inode # replicate (127 - ?n) zero_inode)[?n := boot_inode e] =
        map boot_inode es @ boot_inode e # replicate (127 - ?n) zero_inode"
      by (rule update_middle) simp
    then show "inodes ((boot_table es)\<lparr>free_inodes := free_inodes (boot_table es) - 1,
      files := (files (boot_table es))[5 + ?n := e], inodes := (inodes (boot_table es))[?n := boot_inode e],
      file_count := Suc (5 + ?n)\<rparr>) = inodes (boot_table (es @ [e]))"
      unfolding ino by (simp add: boot_table_def)
  qed (simp_all add: boot_table_def static_bkfs_def)
  finally show ?thesis unfolding e .
qed

section \<open>The tree at the first login\<close>

fun boot_specs :: "nat \<Rightarrow> u32 \<Rightarrow> u8 \<Rightarrow> string list \<Rightarrow> file_entry list" where
  "boot_specs n parent type [] = []"
| "boot_specs n parent type (name # names) =
     boot_entry name (Suc n) parent type # boot_specs (Suc n) parent type names"

lemma find_entry_boot:
  assumes "\<not> p zero_file"
  shows "find_entry p (boot_table es) = (case first_index (\<lambda>i. p (es ! i)) (length es) of
     None \<Rightarrow> None | Some i \<Rightarrow> Some (5 + i))"
proof (cases "first_index (\<lambda>i. p (es ! i)) (length es)")
  case None
  have "\<not> p (files (boot_table es) ! i)" if "i < 5 + length es" for i
    using that assms None boot_files_static [of i es] boot_files [of i es]
    by (cases "i < 5") (auto simp: first_index_None)
  then have "first_index (\<lambda>i. p (files (boot_table es) ! i)) (5 + length es) = None"
    by (simp add: first_index_None)
  then show ?thesis using None by (simp add: find_entry_def)
next
  case (Some i)
  then have i: "i < length es" "p (es ! i)" "\<forall>j<i. \<not> p (es ! j)" by (simp_all add: first_index_Some)
  have "\<not> p (files (boot_table es) ! j)" if "j < 5 + i" for j
    using that assms i boot_files_static [of j es] boot_files [of j es] by (cases "j < 5") auto
  moreover have "p (files (boot_table es) ! (5 + i))" using i boot_files [of "5 + i" es] by simp
  ultimately have "first_index (\<lambda>i. p (files (boot_table es) ! i)) (5 + length es) = Some (5 + i)"
    using i(1) by (simp add: first_index_Some)
  then show ?thesis using Some by (simp add: find_entry_def)
qed

definition root_name :: "string \<Rightarrow> file_entry list \<Rightarrow> bool" where
  "root_name name es \<longleftrightarrow> (\<exists>e \<in> set es. f_parent_inode e = 1 \<and> entry_name e = name)"

lemma exists_boot:
  assumes "is_cstr name"
  shows "file_exists_in_current_dir name (boot_table es) \<longleftrightarrow> root_name name es"
proof -
  let ?p = "\<lambda>f. f_parent_inode f = current_inode (boot_table es) \<and> strcmp (entry_name f) name = 0"
  have "\<not> ?p zero_file" by (simp add: zero_file_def)
  note f = find_entry_boot [of ?p, OF this, of es]
  have z: "?p e \<longleftrightarrow> f_parent_inode e = 1 \<and> entry_name e = name" for e
    using strcmp_zero [OF is_cstr_entry_name assms] by simp
  show ?thesis
  proof (cases "first_index (\<lambda>i. ?p (es ! i)) (length es)")
    case None
    then have "file_exists_in_current_dir name (boot_table es) = False"
      unfolding file_exists_in_current_dir_def f by simp
    moreover have "\<not> root_name name es"
      using None unfolding first_index_None z by (auto simp: root_name_def in_set_conv_nth)
    ultimately show ?thesis by simp
  next
    case (Some i)
    then have "file_exists_in_current_dir name (boot_table es) = True"
      unfolding file_exists_in_current_dir_def f by simp
    moreover have "root_name name es"
      using Some unfolding first_index_Some z by (auto simp: root_name_def)
    ultimately show ?thesis by simp
  qed
qed

text \<open>The kernel at boot, with a given directory tree.\<close>

definition at_boot :: "file_entry list \<Rightarrow> kernel \<Rightarrow> bool" where
  "at_boot es k \<longleftrightarrow> fs k = boot_table es \<and> timer_ticks k = 0"

lemma create_step:
  assumes "at_boot es k" and "length es < 123" and "is_valid_filename name" and "is_cstr name" and "length name \<le> 30"
  shows "fs_create_file name parent type k =
    (if root_name name es then Ret FS_ERROR (show_text (''Change name'' @ NL) k)
     else Ret FS_SUCCESS (k\<lparr>fs := boot_table (es @ [boot_entry name (Suc (length es)) parent type])\<rparr>))"
  using assms create_boot [OF assms(2,4,5), of parent type] exists_boot [OF assms(4), of es]
  by (simp add: at_boot_def fs_create_file_def cmd_simps del: boot_entry_simps)

lemma create_each_step:
  assumes "\<forall>n \<in> set names. is_valid_filename n \<and> is_cstr n \<and> length n \<le> 30 \<and> \<not> root_name n es"
    and "parent = 1 \<longrightarrow> distinct names" and "length es + length names < 124"
  shows "at_boot es k \<Longrightarrow> create_each parent type names k =
    Ret () (k\<lparr>fs := boot_table (es @ boot_specs (length es) parent type names)\<rparr>)"
  using assms
proof (induction names arbitrary: es k)
  case Nil
  then show ?case by (simp add: create_each_def cmd_simps at_boot_def)
next
  case (Cons name names)
  let ?e = "boot_entry name (Suc (length es)) parent type"
  let ?k = "k\<lparr>fs := boot_table (es @ [?e])\<rparr>"
  have c: "fs_create_file name parent type k = Ret FS_SUCCESS ?k"
    using create_step [OF Cons.prems(1), of name parent type] Cons.prems(2,4) by simp
  have rn: "root_name n (es @ [?e]) \<longleftrightarrow> root_name n es \<or> (parent = 1 \<and> name = n)" for n
    using Cons.prems(2) by (auto simp: root_name_def)
  have "create_each parent type names ?k =
      Ret () (?k\<lparr>fs := boot_table ((es @ [?e]) @ boot_specs (length (es @ [?e])) parent type names)\<rparr>)"
    using Cons.prems rn by (intro Cons.IH) (auto simp: at_boot_def)
  then show ?case
    using c by (simp add: create_each_def andthen_def bindc_def cmd_simps )
qed

text \<open>Evaluation of the searches on an explicit tree.\<close>

fun find_pos :: "('a \<Rightarrow> bool) \<Rightarrow> 'a list \<Rightarrow> nat option" where
  "find_pos p [] = None"
| "find_pos p (x # xs) = (if p x then Some 0 else map_option Suc (find_pos p xs))"

lemma find_pos_Some: "find_pos p xs = Some i \<longleftrightarrow> i < length xs \<and> p (xs ! i) \<and> (\<forall>j<i. \<not> p (xs ! j))"
proof (induction xs arbitrary: i)
  case (Cons x xs)
  then show ?case by (cases i) (auto simp: All_less_Suc2)
qed simp

lemma find_pos_None: "find_pos p xs = None \<longleftrightarrow> (\<forall>x \<in> set xs. \<not> p x)"
  by (induction xs) auto

lemma first_index_find_pos: "first_index (\<lambda>i. p (xs ! i)) (length xs) = find_pos p xs"
proof (cases "find_pos p xs")
  case None
  then show ?thesis using find_pos_None [of p xs] by (simp add: first_index_None)
next
  case (Some i)
  then show ?thesis using find_pos_Some [of p xs i] by (simp add: first_index_Some)
qed

lemmas find_in_table = find_entry_boot [unfolded first_index_find_pos]

lemma inode_of_name_boot:
  assumes "fs k = boot_table es" and "is_cstr name" and "name \<noteq> []"
  shows "inode_of_name name k =
    (case find_pos (\<lambda>f. entry_name f = name) es of None \<Rightarrow> 0 | Some i \<Rightarrow> f_inode (es ! i))"
proof -
  have z: "strcmp (entry_name f) name = 0 \<longleftrightarrow> entry_name f = name" for f
    using strcmp_zero [OF is_cstr_entry_name assms(2)] .
  have nz: "\<not> entry_name zero_file = name" using assms(3) by (simp add: entry_name_def zero_file_def cstr_def)
  show ?thesis
  proof (cases "find_pos (\<lambda>f. entry_name f = name) es")
    case None
    then show ?thesis
      using assms(1) find_in_table [of "\<lambda>f. entry_name f = name" es] nz by (simp add: inode_of_name_def z)
  next
    case (Some i)
    then have "files (boot_table es) ! (5 + i) = es ! i"
      using boot_files [of "5 + i" es] by (simp add: find_pos_Some)
    then show ?thesis
      using Some assms(1) find_in_table [of "\<lambda>f. entry_name f = name" es] nz
      by (simp add: inode_of_name_def z entry_at_def)
  qed
qed

text \<open>The tree, and the one message its construction prints.\<close>

definition boot_entries :: "file_entry list" where
  "boot_entries = boot_specs 0 1 FILE_DIR [''root''] @
     boot_specs 1 1 FILE_DIR [''bin'', ''etc'', ''home'', ''dev'', ''tmp'', ''sys''] @
     boot_specs 7 1 FILE_REGULAR [''fetch''] @
     boot_specs 8 5 FILE_REGULAR [''sda'', ''sda1'', ''sdb1'', ''sdb'', ''vga'', ''vga1'', ''vga2'', ''null'', ''random''] @
     boot_specs 17 2 FILE_REGULAR [''ush'', ''ls'', ''cat'', ''echo'']"

lemmas boot_names = is_valid_filename_def invalid_chars_def is_cstr_def root_name_def

lemma chdir_boot: "fs k = boot_table es \<Longrightarrow> chdir 1 k = k"
  by (simp add: chdir_def on_fs_def boot_table_def static_bkfs_def)

lemma boot_tree_eq:
  assumes "at_boot [] k"
  shows "boot_tree k = Ret () (show_text (''Change name'' @ NL) (k\<lparr>fs := boot_table boot_entries\<rparr>))"
proof -
  define e1 where "e1 = boot_specs 0 1 FILE_DIR [''root'']"
  define e2 where "e2 = e1 @ boot_specs 1 1 FILE_DIR [''bin'', ''etc'', ''home'', ''dev'', ''tmp'', ''sys'']"
  define e3 where "e3 = e2 @ boot_specs 7 1 FILE_REGULAR [''fetch'']"
  define e4 where "e4 = e3 @ boot_specs 8 5 FILE_REGULAR
    [''sda'', ''sda1'', ''sdb1'', ''sdb'', ''vga'', ''vga1'', ''vga2'', ''null'', ''random'']"
  define e5 where "e5 = e4 @ boot_specs 17 2 FILE_REGULAR [''ush'', ''ls'', ''cat'', ''echo'']"
  have len: "length e1 = 1" "length e2 = 7" "length e3 = 8" "length e4 = 17" "length e5 = 21"
    by (simp_all add: e1_def e2_def e3_def e4_def e5_def)
  let ?k = "\<lambda>es. k\<lparr>fs := boot_table es\<rparr>"
  have ab: "at_boot es (?k es)" for es using assms by (simp add: at_boot_def)
  have "\<forall>n \<in> set [''root''].
      is_valid_filename n \<and> is_cstr n \<and> length n \<le> 30 \<and> \<not> root_name n []"
    by (simp add: boot_names )
  note step = create_each_step [OF this _ _ assms, of 1 FILE_DIR]
  have s1: "create_each 1 FILE_DIR [''root''] k = Ret () (?k e1)"
    using step by (simp add: len e1_def)
  have "\<forall>n \<in> set [''bin'', ''etc'', ''home'', ''dev'', ''tmp'', ''sys''].
      is_valid_filename n \<and> is_cstr n \<and> length n \<le> 30 \<and> \<not> root_name n e1"
    by (simp add: boot_names e1_def)
  note step = create_each_step [OF this _ _ ab, of 1 FILE_DIR]
  have s2: "create_each 1 FILE_DIR [''bin'', ''etc'', ''home'', ''dev'', ''tmp'', ''sys''] (?k e1) = Ret () (?k e2)"
    using step by (simp add: len e2_def)
  have "\<forall>n \<in> set [''fetch''].
      is_valid_filename n \<and> is_cstr n \<and> length n \<le> 30 \<and> \<not> root_name n e2"
    by (simp add: boot_names e1_def e2_def)
  note step = create_each_step [OF this _ _ ab, of 1 FILE_REGULAR]
  have s3: "create_each 1 FILE_REGULAR [''fetch''] (?k e2) = Ret () (?k e3)"
    using step by (simp add: len e3_def)
  have dev: "inode_of_name ''dev'' (?k e3) = 5"
    by (subst inode_of_name_boot [of _ e3]) (simp_all add: is_cstr_def e1_def e2_def e3_def)
  have "\<forall>n \<in> set [''sda'', ''sda1'', ''sdb1'', ''sdb'', ''vga'', ''vga1'', ''vga2'', ''null'', ''random''].
      is_valid_filename n \<and> is_cstr n \<and> length n \<le> 30 \<and> \<not> root_name n e3"
    by (simp add: boot_names e1_def e2_def e3_def)
  note step = create_each_step [OF this _ _ ab, of 5 FILE_REGULAR]
  have s4: "create_each 5 FILE_REGULAR [''sda'', ''sda1'', ''sdb1'', ''sdb'', ''vga'', ''vga1'', ''vga2'', ''null'', ''random''] (?k e3) = Ret () (?k e4)"
    using step by (simp add: len e4_def)
  have bin: "inode_of_name ''bin'' (?k e4) = 2"
    by (subst inode_of_name_boot [of _ e4]) (simp_all add: is_cstr_def e1_def e2_def e3_def e4_def)
  have "\<forall>n \<in> set [''ush'', ''ls'', ''cat'', ''echo''].
      is_valid_filename n \<and> is_cstr n \<and> length n \<le> 30 \<and> \<not> root_name n e4"
    by (simp add: boot_names e1_def e2_def e3_def e4_def)
  note step = create_each_step [OF this _ _ ab, of 2 FILE_REGULAR]
  have s5: "create_each 2 FILE_REGULAR [''ush'', ''ls'', ''cat'', ''echo''] (?k e4) = Ret () (?k e5)"
    using step by (simp add: len e5_def)
  have rn: "root_name ''fetch'' e5" by (simp add: boot_names e1_def e2_def e3_def e4_def e5_def)
  have s6: "fs_create_file ''fetch'' 2 FILE_REGULAR (?k e5) = Ret FS_ERROR (show_text (''Change name'' @ NL) (?k e5))"
    using create_step [OF ab, of e5 "''fetch''" 2 FILE_REGULAR] len rn
    by (simp add: is_valid_filename_def invalid_chars_def is_cstr_def)
  have "\<forall>e \<in> set e5. \<not> (f_parent_inode e = 2 \<and> entry_name e = ''fetch'')"
    by (simp add: is_cstr_def e1_def e2_def e3_def e4_def e5_def)
  then have none: "find_entry (\<lambda>f. f_parent_inode f = 2 \<and> strcmp (entry_name f) ''fetch'' = 0) (boot_table e5) = None"
    using strcmp_zero [OF is_cstr_entry_name, of "''fetch''"]
      find_in_table [of "\<lambda>f. f_parent_inode f = 2 \<and> strcmp (entry_name f) ''fetch'' = 0" e5]
    by (simp add: is_cstr_def zero_file_def find_pos_None [THEN iffD2])
  have ch: "create_each 2 FILE_REGULAR (names @ [n]) k' = bindc (create_each 2 FILE_REGULAR names)
      (\<lambda>_. create_each 2 FILE_REGULAR [n]) k'" for names n k'
    by (induction names arbitrary: k')
      (simp_all add: create_each_def andthen_def bindc_def ret_def split: outcome.splits)
  have s7: "create_each 2 FILE_REGULAR [''ush'', ''ls'', ''cat'', ''echo'', ''fetch''] (?k e4) =
      Ret () (show_text (''Change name'' @ NL) (?k e5))"
    using ch [of "[''ush'', ''ls'', ''cat'', ''echo'']" "''fetch''" "?k e4"] s5 s6
    by (simp add: bindc_def create_each_def andthen_def ret_def)
  have e5: "e5 = boot_entries"
    by (simp add: e1_def e2_def e3_def e4_def e5_def boot_entries_def)
  show ?thesis
    unfolding e5 [symmetric]
    using s1 s2 s3 s4 s7 dev bin none chdir_boot [of "?k e1" e1]
    by (simp add: boot_tree_def cmd_simps)
qed

end
