(* ===== verification/Shell.thy ===== *)
theory Shell imports InfoCmds Mouse Boot begin

text \<open>
  The interactive part of the kernel: the keyboard loop, terminal switching, the login screen, the
  shell and the command dispatcher. They call one another without bound (a login runs a shell, which
  reads keys, which may switch the terminal and log in again), so each body takes the other calls as
  the argument \<open>sys\<close>, every endless loop is a call of its own body, and \<open>run\<close> ties the knot on fuel.
\<close>

section \<open>Calls\<close>

text \<open>
  The calls with the locals they carry: the arrays being filled and the index. A call returns a
  character; where the C function is \<open>void\<close> it is \<open>NUL\<close>.
\<close>

datatype call =
    KeyboardGetchar
  | KeyboardLoop
  | SmouseKeyLoop
  | SmouseLoop
  | SwitchTty int
  | LoginScreen
  | LoginName carray nat
  | LoginPassword carray carray nat
  | ShellCall
  | ShellPrompt carray
  | ShellRead carray nat
  | ExecuteCommand string

type_synonym sys = "call \<Rightarrow> (kernel, char) cmd"

abbreviation finish :: "(kernel, char) cmd" where "finish \<equiv> ret NUL"

definition call_void :: "sys \<Rightarrow> call \<Rightarrow> (kernel, unit) cmd" where
  "call_void sys c = bindc (sys c) (\<lambda>_. ret ())"

definition void :: "(kernel, unit) cmd \<Rightarrow> (kernel, char) cmd" where
  "void m = andthen m finish"

section \<open>Keyboard\<close>

definition keyboard_map_lower :: carray where
  "keyboard_map_lower = [NUL, CHR 0x1B] @ ''1234567890-='' @ [CHR 0x08] @ [NUL] @ ''qwertyuiop[]'' @
     [CHR 0x0D] @ [NUL] @ ''asdfghjkl;'' @ [CHR 0x27, CHR 0x60] @ [NUL] @ [CHR 0x5C] @ ''zxcvbnm,./'' @
     [NUL, NUL, NUL] @ '' '' @ [NUL]"

definition keyboard_map_upper :: carray where
  "keyboard_map_upper = [NUL, CHR 0x1B] @ ''!@#$%^&*()_+'' @ [CHR 0x08] @ [NUL] @ ''QWERTYUIOP{}'' @
     [CHR 0x0D] @ [NUL] @ ''ASDFGHJKL:'' @ [CHR 0x22, CHR 0x7E] @ [NUL] @ ''|ZXCVBNM<>?'' @
     [NUL, NUL, NUL] @ '' '' @ [NUL]"

definition on_keys :: "(keyboard \<Rightarrow> keyboard) \<Rightarrow> kernel \<Rightarrow> kernel" where
  "on_keys f k = k\<lparr>keys := f (keys k)\<rparr>"

text \<open>\<open>continue\<close> and the end of the loop body: the latter polls the mouse first.\<close>

definition key_loop_end :: "sys \<Rightarrow> (kernel, char) cmd" where
  "key_loop_end sys = andthen poll_mouse (sys KeyboardLoop)"

definition key_mapped :: "sys \<Rightarrow> u8 \<Rightarrow> (kernel, char) cmd" where
  "key_mapped sys scancode k =
     (let uppercase = (shift_pressed (keys k) \<noteq> caps_lock (keys k))
      in if ctrl_pressed (keys k)
         then (if scancode \<ge> 0x10 \<and> scancode \<le> 0x1C then Ret (char_of (unat (scancode - 0x10 + 1))) k
               else sys KeyboardLoop k)
         else if alt_pressed (keys k) then sys KeyboardLoop k
         else bindc (lift_sum (read_at (if uppercase then keyboard_map_upper else keyboard_map_lower)
                                 (unat scancode)))
                (\<lambda>ch. if ch \<noteq> NUL then ret ch else key_loop_end sys) k)"

text \<open>\<open>if (scancode == KEY_F1) { switch_tty(0); continue; }\<close> to \<open>KEY_F9\<close>.\<close>

definition tty_key :: "u8 \<Rightarrow> int option" where
  "tty_key scancode =
     (if scancode \<ge> KEY_F1 \<and> scancode < KEY_F10 then Some (uint (scancode - KEY_F1)) else None)"

definition key_rest :: "sys \<Rightarrow> u8 \<Rightarrow> (kernel, char) cmd" where
  "key_rest sys scancode =
     (if scancode = KEY_ENTER then ret (CHR 0x0A)
      else if scancode = KEY_BACKSPACE then ret (CHR 0x08)
      else if scancode = KEY_ESC then ret (CHR 0x1B)
      else if scancode = KEY_SPACE then ret (CHR '' '')
      else case tty_key scancode of
        Some n \<Rightarrow> bindc (sys (SwitchTty n)) (\<lambda>_. sys KeyboardLoop)
      | None \<Rightarrow>
          (if scancode = KEY_F10 then ret (CHR 0xFA)
           else if scancode < 0x80 then key_mapped sys scancode
           else key_loop_end sys))"

definition key_released :: "u8 \<Rightarrow> keyboard \<Rightarrow> keyboard" where
  "key_released key s =
     (if key = KEY_LSHIFT \<or> key = KEY_RSHIFT then s\<lparr>shift_pressed := False\<rparr>
      else if key = KEY_CTRL then s\<lparr>ctrl_pressed := False\<rparr>
      else if key = KEY_ALT then s\<lparr>alt_pressed := False\<rparr>
      else s)"

definition key_code :: "sys \<Rightarrow> u8 \<Rightarrow> (kernel, char) cmd" where
  "key_code sys scancode =
     (if scancode AND 0x80 \<noteq> 0
      then andthen (act (on_keys (key_released (scancode AND 0x7F)))) (sys KeyboardLoop)
      else if scancode = KEY_LSHIFT \<or> scancode = KEY_RSHIFT
      then andthen (act (on_keys (\<lambda>s. s\<lparr>shift_pressed := True\<rparr>))) (sys KeyboardLoop)
      else if scancode = KEY_CTRL
      then andthen (act (on_keys (\<lambda>s. s\<lparr>ctrl_pressed := True\<rparr>))) (sys KeyboardLoop)
      else if scancode = KEY_ALT
      then andthen (act (on_keys (\<lambda>s. s\<lparr>alt_pressed := True\<rparr>))) (sys KeyboardLoop)
      else if scancode = KEY_CAPSLOCK
      then andthen (act (on_keys (\<lambda>s. s\<lparr>caps_lock := \<not> caps_lock s\<rparr>))) (sys KeyboardLoop)
      else if scancode = 0xE0
      then bindc (inb 0x60) (\<lambda>code.
             if code = KEY_UP then ret (CHR 0x11)
             else if code = KEY_DOWN then ret (CHR 0x12)
             else if code = KEY_LEFT then ret (CHR 0x13)
             else if code = KEY_RIGHT then ret (CHR 0x14)
             else key_rest sys code)
      else key_rest sys scancode)"

definition keyboard_loop :: "sys \<Rightarrow> (kernel, char) cmd" where
  "keyboard_loop sys = bindc (inb 0x64) (\<lambda>st.
     if st AND 0x01 \<noteq> 0 then bindc (inb 0x60) (key_code sys) else key_loop_end sys)"

definition keyboard_getchar :: "sys \<Rightarrow> (kernel, char) cmd" where
  "keyboard_getchar sys k = (if smouse_mode (con k) then sys SmouseKeyLoop k else sys KeyboardLoop k)"

definition smouse_key_loop :: "sys \<Rightarrow> (kernel, char) cmd" where
  "smouse_key_loop sys = andthen poll_mouse (sys SmouseKeyLoop)"

text \<open>
  \<open>execute_smouse\<close>; \<open>TIMER_HZ\<close> is 18.2, so the comparison holds from 19 ticks on.
\<close>

definition smouse_loop :: "sys \<Rightarrow> (kernel, char) cmd" where
  "smouse_loop sys k =
     (if \<not> smouse_mode (con k) then finish k
      else andthen (cseq
        [\<lambda>k. if unat (timer_ticks k - last_smouse_clear (mice k)) \<ge> 19
             then cseq [act (on_con terminal_clear),
                        act (\<lambda>k. on_mouse (\<lambda>m. m\<lparr>last_smouse_clear := timer_ticks k\<rparr>) k)] k
             else Ret () k,
         \<lambda>k. if mouse_enabled (mice k)
             then bindc (inb 0x64) (\<lambda>st. if st AND 1 \<noteq> 0
                    then bindc (inb 0x60) (\<lambda>_. act update_selection) else ret ()) k
             else Ret () k]) (sys SmouseLoop) k)"

definition execute_smouse :: "sys \<Rightarrow> (kernel, char) cmd" where
  "execute_smouse sys k =
     (if mouse_enabled (mice k)
      then andthen (cseq
        [act (on_con (\<lambda>c. c\<lparr>smouse_mode := True\<rparr>)), setcolor COLOR_WHITE COLOR_BLUE,
         act (on_con terminal_clear),
         act (\<lambda>k. on_mouse (\<lambda>m. m\<lparr>last_smouse_clear := timer_ticks k\<rparr>) k)]) (sys SmouseLoop) k
      else void (say (''Mouse is not enabled'' @ NL)) k)"

section \<open>Terminals\<close>

definition set_logged_in :: "bool \<Rightarrow> kernel \<Rightarrow> kernel" where
  "set_logged_in b = on_con (\<lambda>c. upd_tty (current_tty c) (\<lambda>t. t\<lparr>tty_logged_in := b\<rparr>) c)"

definition restore_tty :: "kernel \<Rightarrow> kernel" where
  "restore_tty k = (let (n, c) = restore_tty_state (con k) in chdir n (k\<lparr>con := c\<rparr>))"

definition switch_tty :: "sys \<Rightarrow> int \<Rightarrow> (kernel, char) cmd" where
  "switch_tty sys tty_num k =
     (if smouse_mode (con k) then finish k
      else if tty_num < 0 \<or> tty_num \<ge> int MAX_TTYS then finish k
      else andthen (cseq
        [act (\<lambda>k. on_con (save_tty_state (current_inode (fs k))) k),
         act (on_con (\<lambda>c. c\<lparr>current_tty := nat tty_num\<rparr>)),
         act restore_tty])
        (\<lambda>k. if \<not> tty_logged_in (ttys (con k) ! current_tty (con k)) then sys LoginScreen k else finish k) k)"

section \<open>Login\<close>

definition put_char :: "char \<Rightarrow> (kernel, unit) cmd" where
  "put_char ch = act (on_con (terminal_putchar ch))"

definition tty_number :: "(kernel, unit) cmd" where
  "tty_number k = bindc (number 2 (int (current_tty (con k)) + 1)) (\<lambda>tty_num. say (cstr tty_num)) k"

definition login_screen :: "sys \<Rightarrow> (kernel, char) cmd" where
  "login_screen sys = andthen (cseq
     [setcolor COLOR_GRAY COLOR_BLACK, act (on_con terminal_clear), say (NL @ NL), say ''Srunix86 tty'',
      tty_number, say NL, setcolor COLOR_GRAY COLOR_BLACK,
      say (''OpenSource Operation System.'' @ NL @ ''Please login: root, password 1'' @ NL @ NL),
      say ''login: ''])
     (sys (LoginName (replicate 32 NUL) 0))"

text \<open>One round of the first input loop; the array is \<open>username[32]\<close>.\<close>

definition login_name :: "sys \<Rightarrow> carray \<Rightarrow> nat \<Rightarrow> (kernel, char) cmd" where
  "login_name sys username pos = bindc (sys KeyboardGetchar) (\<lambda>c.
     if c = CHR 0x0A
     then andthen (cseq [put_char (CHR 0x0A), say ''Password: ''])
            (sys (LoginPassword username (replicate 32 NUL) 0))
     else if c = CHR 0x08
     then (if pos > 0 then andthen (put_char (CHR 0x08)) (sys (LoginName (username[pos - 1 := NUL]) (pos - 1)))
           else sys (LoginName username pos))
     else if pos < 31 then andthen (put_char c) (sys (LoginName (username[pos := c]) (pos + 1)))
     else sys (LoginName username pos))"

text \<open>The decision at the end of \<open>login_screen\<close>.\<close>

definition login_decide :: "sys \<Rightarrow> string \<Rightarrow> string \<Rightarrow> (kernel, char) cmd" where
  "login_decide sys username password = andthen (cseq
     [if strcmp username ''1'' = 0 \<and> strcmp password ''1'' = 0
      then cseq [setcolor COLOR_GREEN COLOR_BLACK, say (NL @ ''Welcome to Srunix86 livecd'' @ NL),
                 act (set_logged_in True)]
      else ret ()])
     (if strcmp username ''root'' = 0 \<and> strcmp password ''1'' = 0
      then andthen (cseq [say (NL @ ''Welcome to Srunix86 livecd'' @ NL), act (set_logged_in True)])
             (sys ShellCall)
      else andthen (say (NL @ ''login incorrect'' @ NL)) (sys LoginScreen))"

definition login_password :: "sys \<Rightarrow> carray \<Rightarrow> carray \<Rightarrow> nat \<Rightarrow> (kernel, char) cmd" where
  "login_password sys username password pos = bindc (sys KeyboardGetchar) (\<lambda>c.
     if c = CHR 0x0A
     then andthen (put_char (CHR 0x0A)) (login_decide sys (cstr username) (cstr password))
     else if c = CHR 0x08
     then (if pos > 0 then andthen (put_char (CHR 0x08)) (sys (LoginPassword username (password[pos - 1 := NUL]) (pos - 1)))
           else sys (LoginPassword username password pos))
     else if pos < 31
     then andthen (put_char (CHR ''*'')) (sys (LoginPassword username (password[pos := c]) (pos + 1)))
     else sys (LoginPassword username password pos))"

section \<open>History\<close>

definition push_history :: "string \<Rightarrow> history \<Rightarrow> fault + history" where
  "push_history cmd h =
     sbind (if history_count h < HISTORY_SIZE
            then sbind (strcpy (command_history h ! history_count h) cmd) (\<lambda>line.
                   Inr (h\<lparr>command_history := (command_history h)[history_count h := line],
                          history_count := history_count h + 1\<rparr>))
            else sbind (sfold (\<lambda>i cs. sbind (strcpy (cs ! i) (cstr (cs ! (i + 1)))) (\<lambda>line. Inr (cs[i := line])))
                          [0..<HISTORY_SIZE - 1] (command_history h)) (\<lambda>cs.
                 sbind (strcpy (cs ! (HISTORY_SIZE - 1)) cmd) (\<lambda>line.
                   Inr (h\<lparr>command_history := cs[HISTORY_SIZE - 1 := line]\<rparr>))))
       (\<lambda>h1. Inr (h1\<lparr>history_pos := history_count h1\<rparr>))"

definition add_to_history :: "string \<Rightarrow> (kernel, unit) cmd" where
  "add_to_history cmd k =
     (if smouse_mode (con k) then Ret () k
      else if length cmd = 0 then Ret () k
      else bindc (lift_sum (push_history cmd (hist k))) (\<lambda>h. act (\<lambda>k. k\<lparr>hist := h\<rparr>)) k)"

section \<open>The shell\<close>

text \<open>\<open>terminal_setcolor(fg, terminal_color >> 4)\<close>.\<close>

definition prompt_color :: "u8 \<Rightarrow> (kernel, unit) cmd" where
  "prompt_color fg k = setcolor fg (drop_bit 4 (terminal_color (con k))) k"

definition print_prompt :: "(kernel, unit) cmd" where
  "print_prompt = cseq
     [prompt_color COLOR_BRIGHT_RED, say ''root'', prompt_color COLOR_WHITE, say '':'',
      prompt_color COLOR_BRIGHT_BLUE, say (CHR 0x7E # []),
      (\<lambda>k. if current_inode (fs k) \<noteq> 1
           then (case path_loop (fs k) (current_inode (fs k)) (replicate MAX_PATH_LEN NUL) of
                   None \<Rightarrow> Stop NoReturn k
                 | Some (Inl e) \<Rightarrow> Stop (Fault e) k
                 | Some (Inr path) \<Rightarrow> say (cstr path) k)
           else Ret () k),
      prompt_color COLOR_WHITE, say ''# '', prompt_color COLOR_WHITE,
      act (on_con (\<lambda>c. move_cursor (terminal_column c) (terminal_row c) c))]"

definition shell :: "sys \<Rightarrow> (kernel, char) cmd" where
  "shell sys k =
     (if smouse_mode (con k) then finish k
      else andthen (cseq
        [setcolor COLOR_BRIGHT_RED COLOR_BLACK, say (NL @ ''Srunix86 tty''), tty_number, say NL,
         setcolor COLOR_GRAY COLOR_BLACK,
         say (''Type '' @ [CHR 0x22] @ ''help'' @ [CHR 0x22] @ '' to see all the commands in the OS.'' @ NL @ NL),
         setcolor COLOR_WHITE COLOR_BLACK]) (sys (ShellPrompt (replicate MAX_CMD_LEN NUL))) k)"

definition shell_prompt :: "sys \<Rightarrow> carray \<Rightarrow> (kernel, char) cmd" where
  "shell_prompt sys cmd = andthen print_prompt (sys (ShellRead cmd 0))"

text \<open>The two history keys: the line recalled replaces the input and is printed from column 0.\<close>

definition recall :: "sys \<Rightarrow> carray \<Rightarrow> nat \<Rightarrow> (kernel, char) cmd" where
  "recall sys cmd new_pos =
     andthen (act (\<lambda>k. k\<lparr>hist := (hist k)\<lparr>history_pos := new_pos\<rparr>\<rparr>))
       (\<lambda>k. bindc (lift_sum (strcpy cmd (cstr (command_history (hist k) ! new_pos)))) (\<lambda>line.
         andthen (cseq
           [act (on_con (\<lambda>c. c\<lparr>terminal_column := 0\<rparr>)), for_each put_char (cstr line)])
           (sys (ShellRead line (length (cstr line))))) k)"

text \<open>One round of the reading loop; leaving it at \<open>MAX_CMD_LEN - 1\<close> drops the line.\<close>

definition shell_read :: "sys \<Rightarrow> carray \<Rightarrow> nat \<Rightarrow> (kernel, char) cmd" where
  "shell_read sys cmd pos =
     (if \<not> pos < MAX_CMD_LEN - 1 then sys (ShellPrompt cmd)
      else bindc (sys KeyboardGetchar) (\<lambda>c k.
        if c = CHR 0x0A
        then andthen (put_char (CHR 0x0A))
          (bindc (lift_sum (write_at cmd pos NUL)) (\<lambda>line.
             andthen (add_to_history (cstr line))
               (bindc (sys (ExecuteCommand (cstr line))) (\<lambda>_. sys (ShellPrompt line))))) k
        else if c = CHR 0x08
        then (if pos > 0 then andthen (put_char (CHR 0x08)) (sys (ShellRead cmd (pos - 1))) k
              else sys (ShellRead cmd pos) k)
        else if c = CHR 0x11
        then (if history_pos (hist k) > 0 then recall sys cmd (history_pos (hist k) - 1) k
              else sys (ShellRead cmd pos) k)
        else if c = CHR 0x12
        then (if int (history_pos (hist k)) < int (history_count (hist k)) - 1
              then recall sys cmd (history_pos (hist k) + 1) k
              else sys (ShellRead cmd pos) k)
        else if c = CHR 0x13 \<or> c = CHR 0x14 then sys (ShellRead cmd pos) k
        else bindc (lift_sum (write_at cmd pos c)) (\<lambda>line.
               andthen (put_char c) (sys (ShellRead line (pos + 1)))) k))"

section \<open>The dispatcher\<close>

text \<open>Cutting the line at blanks, at most \<open>n\<close> words.\<close>

fun words_of :: "nat \<Rightarrow> string \<Rightarrow> string list" where
  "words_of 0 s = []"
| "words_of (Suc n) s =
     (case dropWhile (\<lambda>c. c = CHR '' '') s of
        [] \<Rightarrow> []
      | c # cs \<Rightarrow> takeWhile (\<lambda>c. c \<noteq> CHR '' '') (c # cs) # words_of n (dropWhile (\<lambda>c. c \<noteq> CHR '' '') (c # cs)))"

definition MAX_ARGS :: nat where "MAX_ARGS = 9"

text \<open>The first \<open>>\<close> or \<open>>>\<close> after the command: its position and whether it appends.\<close>

definition find_redirect :: "string list \<Rightarrow> (nat \<times> bool) option" where
  "find_redirect args =
     (case List.find (\<lambda>i. strcmp (args ! i) ''>'' = 0 \<or> strcmp (args ! i) ''>>'' = 0) [1..<length args] of
        None \<Rightarrow> None
      | Some i \<Rightarrow> Some (i, strcmp (args ! i) ''>'' \<noteq> 0))"

text \<open>The words between, joined by blanks in \<open>text[256]\<close>.\<close>

definition join_words :: "string list \<Rightarrow> nat \<Rightarrow> fault + carray" where
  "join_words args redirect_pos =
     sfold (\<lambda>i text. sbind (if i > 1 then strcat text '' '' else Inr text) (\<lambda>t. strcat t (args ! i)))
       [1..<redirect_pos] (replicate MAX_CMD_LEN NUL)"

definition is_cmd :: "string \<Rightarrow> string \<Rightarrow> bool" where
  "is_cmd arg name \<longleftrightarrow> strcmp_case_insensitive arg name = 0"

definition arg1 :: "string list \<Rightarrow> (string \<Rightarrow> (kernel, unit) cmd) \<Rightarrow> string \<Rightarrow> (kernel, char) cmd" where
  "arg1 args f usage = void (if length args > 1 then f (args ! 1) else say usage)"

definition rm_args :: "string list \<Rightarrow> string option \<times> bool" where
  "rm_args args =
     (if length args > 1
      then (if strcmp (args ! 1) ''-rf'' = 0 then (if length args > 2 then Some (args ! 2) else None, True)
            else (Some (args ! 1), False))
      else (None, False))"

definition cat_usage :: string where
  "cat_usage = ''Usage: cat <source_file> > <dest_file> or cat <source_file> >> <dest_file>'' @ NL"

definition execute_pause :: "sys \<Rightarrow> (kernel, unit) cmd" where
  "execute_pause sys = cseq [say (''System is paused'' @ NL), call_void sys KeyboardGetchar, say NL]"

definition execute_exit :: "sys \<Rightarrow> (kernel, char) cmd" where
  "execute_exit sys =
     andthen (cseq [say (''Welcome to Srunix86'' @ NL), act (set_logged_in False)]) (sys LoginScreen)"

text \<open>
  The chain of comparisons. The fuel bounds \<open>execute_rm\<close>, \<open>regs\<close> is the processor's name, \<open>cmd\<close> the
  line as typed, which only \<open>echo\<close> uses.
\<close>

definition dispatch :: "char list \<Rightarrow> nat \<Rightarrow> sys \<Rightarrow> string \<Rightarrow> string list \<Rightarrow> (kernel, char) cmd" where
  "dispatch regs fuel sys cmd args =
     (let a = args ! 0
      in if is_cmd a ''help''
         then void (bindc (if length args > 1 then lift_sum (atoi (args ! 1)) else ret 1) execute_help)
         else if is_cmd a ''cls'' \<or> is_cmd a ''clear'' then void execute_cls
         else if is_cmd a ''ver'' then void execute_ver
         else if is_cmd a ''ls'' then void execute_ls
         else if is_cmd a ''pwd'' then void execute_pwd
         else if is_cmd a ''cd'' then void (execute_cd (if length args > 1 then Some (args ! 1) else None))
         else if is_cmd a ''echo'' then void (execute_echo (words_of MAX_ARGS cmd))
         else if is_cmd a ''cat'' then arg1 args (\<lambda>f. execute_cat (Some f)) (''Usage: cat <filename>'' @ NL)
         else if is_cmd a ''date'' then void execute_date
         else if is_cmd a ''time'' then void execute_time
         else if is_cmd a ''whoami'' then void execute_whoami
         else if is_cmd a ''uptime'' then void execute_uptime
         else if is_cmd a ''sh'' \<or> is_cmd a ''srunix64'' then sys ShellCall
         else if is_cmd a ''mem'' \<or> is_cmd a ''memory'' then void execute_memory
         else if is_cmd a ''lsblk'' then void execute_disk
         else if is_cmd a ''pause''
         then void (execute_pause sys)
         else if is_cmd a ''poweroff'' \<or> is_cmd a ''shutdown'' then void execute_poweroff
         else if is_cmd a ''kptest''
         then void (kernel_panic (''CRITICAL: error!'' @ NL @ ''System is crashed'' @ NL @
                ''Kernel panic - not syncing: Attempted to kill init!''))
         else if is_cmd a ''reboot'' \<or> is_cmd a ''restart'' then void execute_reboot
         else if is_cmd a ''exit''
         then execute_exit sys
         else if is_cmd a ''info''
         then void (cseq [setcolor COLOR_WHITE COLOR_BLACK, display_info, call_void sys KeyboardGetchar])
         else if is_cmd a ''dhcpcd''
         then arg1 args (\<lambda>i. execute_dhcpcd (Some i)) (''Usage: dhcpcd <interface>'' @ NL)
         else if is_cmd a ''ifconfig'' then void execute_ifconfig
         else if is_cmd a ''ping'' then arg1 args (\<lambda>h. execute_ping (Some h)) (''Usage: ping <host>'' @ NL)
         else if is_cmd a ''touch'' then arg1 args execute_mkfile (''Usage: touch <filename>'' @ NL)
         else if is_cmd a ''fetch'' \<or> is_cmd a ''neofetch'' \<or> is_cmd a ''./fetch'' then void (execute_fetch regs)
         else if is_cmd a ''mkdir'' then arg1 args execute_mkdir (''Usage: mkdir <dirname>'' @ NL)
         else if is_cmd a ''rm''
         then void (case rm_args args of
                (Some f, recursive) \<Rightarrow> execute_rm fuel (Text f) recursive
              | (None, _) \<Rightarrow> say (''Usage: rm <filename> or rm -rf <dirname>'' @ NL))
         else if is_cmd a ''beep'' then void execute_beep
         else if is_cmd a ''Z'' then void (cseq [zov, call_void sys KeyboardGetchar])
         else if is_cmd a ''ps'' then void execute_ps
         else if is_cmd a ''jobs'' then void execute_jobs
         else if is_cmd a ''kill''
         then void (if length args \<ge> 3 then execute_kill (args ! 1) (args ! 2)
                    else say (''Usage: kill <pid> <signal>'' @ NL))
         else if is_cmd a ''smouse'' then execute_smouse sys
         else if a \<noteq> []
         then void (cseq [say ''Command not found: '', say a,
                say (NL @ ''Type '' @ [CHR 0x27] @ ''help'' @ [CHR 0x27] @ '' for commands'' @ NL)])
         else finish)"

definition execute_args :: "char list \<Rightarrow> nat \<Rightarrow> sys \<Rightarrow> string \<Rightarrow> string list \<Rightarrow> (kernel, char) cmd" where
  "execute_args regs fuel sys cmd args =
     (if args = [] then finish
      else case find_redirect args of
        None \<Rightarrow> dispatch regs fuel sys cmd args
      | Some (pos, appending) \<Rightarrow>
          (if pos < length args - 1 \<and> is_cmd (args ! 0) ''echo''
           then void (bindc (lift_sum (join_words args pos)) (\<lambda>text.
                  if appending then execute_append_output (Some (args ! (pos + 1))) (Some (cstr text))
                  else execute_redirect_output (Some (args ! (pos + 1))) (Some (cstr text))))
           else if pos < length args - 1 \<and> is_cmd (args ! 0) ''cat''
           then void (if pos = 1 \<and> length args = 3
                      then execute_cat_redirect (Some (args ! 1)) (Some (args ! 2)) appending
                      else say cat_usage)
           else dispatch regs fuel sys cmd args))"

definition execute_command :: "char list \<Rightarrow> nat \<Rightarrow> sys \<Rightarrow> string \<Rightarrow> (kernel, char) cmd" where
  "execute_command regs fuel sys cmd =
     bindc (lift_sum (strcpy (replicate MAX_CMD_LEN NUL) cmd)) (\<lambda>cmd_copy.
       execute_args regs fuel sys cmd (words_of MAX_ARGS (map lower_char (cstr cmd_copy))))"

section \<open>Tying the knot\<close>

definition body :: "char list \<Rightarrow> nat \<Rightarrow> sys \<Rightarrow> sys" where
  "body regs fuel sys c =
     (case c of
        KeyboardGetchar \<Rightarrow> keyboard_getchar sys
      | KeyboardLoop \<Rightarrow> keyboard_loop sys
      | SmouseKeyLoop \<Rightarrow> smouse_key_loop sys
      | SmouseLoop \<Rightarrow> smouse_loop sys
      | SwitchTty n \<Rightarrow> switch_tty sys n
      | LoginScreen \<Rightarrow> login_screen sys
      | LoginName username pos \<Rightarrow> login_name sys username pos
      | LoginPassword username password pos \<Rightarrow> login_password sys username password pos
      | ShellCall \<Rightarrow> shell sys
      | ShellPrompt cmd \<Rightarrow> shell_prompt sys cmd
      | ShellRead cmd pos \<Rightarrow> shell_read sys cmd pos
      | ExecuteCommand cmd \<Rightarrow> execute_command regs fuel sys cmd)"

primrec run :: "char list \<Rightarrow> nat \<Rightarrow> sys" where
  "run regs 0 = (\<lambda>c. halt OutOfFuel)"
| "run regs (Suc n) = body regs n (run regs n)"

declare run.simps [simp del]

lemma run_0: "run regs 0 c k = Stop OutOfFuel k"
  by (simp add: run.simps halt_def)

lemma run_Suc:
  "run regs (Suc n) KeyboardGetchar = keyboard_getchar (run regs n)"
  "run regs (Suc n) KeyboardLoop = keyboard_loop (run regs n)"
  "run regs (Suc n) SmouseKeyLoop = smouse_key_loop (run regs n)"
  "run regs (Suc n) SmouseLoop = smouse_loop (run regs n)"
  "run regs (Suc n) (SwitchTty t) = switch_tty (run regs n) t"
  "run regs (Suc n) LoginScreen = login_screen (run regs n)"
  "run regs (Suc n) (LoginName u p) = login_name (run regs n) u p"
  "run regs (Suc n) (LoginPassword u w p) = login_password (run regs n) u w p"
  "run regs (Suc n) ShellCall = shell (run regs n)"
  "run regs (Suc n) (ShellPrompt a) = shell_prompt (run regs n) a"
  "run regs (Suc n) (ShellRead a p) = shell_read (run regs n) a p"
  "run regs (Suc n) (ExecuteCommand s) = execute_command regs n (run regs n) s"
  by (simp_all add: run.simps body_def)

text \<open>The whole program: initialisation, the first login, and the loop on \<open>hlt\<close>.\<close>

definition kernel_main :: "char list \<Rightarrow> nat \<Rightarrow> (kernel, char) cmd" where
  "kernel_main regs n = andthen kernel_boot (bindc (run regs n LoginScreen) (\<lambda>_. halt NoReturn))"

end
