(* ===== verification/Approx.thy ===== *)
theory Approx imports Prelude begin

text \<open>
  The order behind fuel: one outcome approximates another when it is the same or has run out of
  fuel. Sequencing, choices and loops are monotone in it, so a model on fuel that returns a result
  returns the same one on any larger fuel.
\<close>

definition le_out :: "('s, 'a) outcome \<Rightarrow> ('s, 'a) outcome \<Rightarrow> bool" where
  "le_out x y \<longleftrightarrow> (\<exists>s. x = Stop OutOfFuel s) \<or> y = x"

named_theorems approx

lemma le_out_refl [simp]: "le_out x x"
  by (simp add: le_out_def)

lemma le_out_OutOfFuel [simp]: "le_out (Stop OutOfFuel s) y"
  by (simp add: le_out_def)

lemma le_out_trans: "le_out x y \<Longrightarrow> le_out y z \<Longrightarrow> le_out x z"
  by (auto simp: le_out_def)

lemma le_out_Ret: "le_out (Ret a s) y \<longleftrightarrow> y = Ret a s"
  by (auto simp: le_out_def)

lemma le_out_eq: "le_out x y \<Longrightarrow> \<forall>s. x \<noteq> Stop OutOfFuel s \<Longrightarrow> y = x"
  by (auto simp: le_out_def)

lemma le_out_bindc [approx]:
  assumes "le_out (m s) (m' s)" and "\<And>a s. le_out (f a s) (f' a s)"
  shows "le_out (bindc m f s) (bindc m' f' s)"
proof (cases "m s")
  case (Ret a s1)
  then have "m' s = Ret a s1" using assms(1) by (simp add: le_out_Ret)
  then show ?thesis using Ret assms(2) by (simp add: bindc_simps)
next
  case (Stop e s1)
  then show ?thesis using assms(1) by (auto simp: le_out_def bindc_simps)
qed

lemma le_out_andthen [approx]:
  assumes "le_out (m s) (m' s)" and "\<And>s. le_out (n s) (n' s)"
  shows "le_out (andthen m n s) (andthen m' n' s)"
  unfolding andthen_def using assms by (rule le_out_bindc)

lemma le_out_if [approx]:
  "(b \<Longrightarrow> le_out x x') \<Longrightarrow> (\<not> b \<Longrightarrow> le_out y y') \<Longrightarrow>
   le_out (if b then x else y) (if b then x' else y')"
  by simp

lemma le_out_if_cmd [approx]:
  "(b \<Longrightarrow> le_out (x s) (x' s)) \<Longrightarrow> (\<not> b \<Longrightarrow> le_out (y s) (y' s)) \<Longrightarrow>
   le_out ((if b then x else y) s) ((if b then x' else y') s)"
  by simp

lemma le_out_option [approx]:
  "le_out x x' \<Longrightarrow> (\<And>a. le_out (f a) (f' a)) \<Longrightarrow>
   le_out (case t of None \<Rightarrow> x | Some a \<Rightarrow> f a) (case t of None \<Rightarrow> x' | Some a \<Rightarrow> f' a)"
  by (cases t) simp_all

lemma le_out_option_cmd [approx]:
  "le_out (x s) (x' s) \<Longrightarrow> (\<And>a. le_out (f a s) (f' a s)) \<Longrightarrow>
   le_out ((case t of None \<Rightarrow> x | Some a \<Rightarrow> f a) s) ((case t of None \<Rightarrow> x' | Some a \<Rightarrow> f' a) s)"
  by (cases t) simp_all

lemma le_out_prod_cmd [approx]:
  "(\<And>a b. le_out (f a b s) (f' a b s)) \<Longrightarrow>
   le_out ((case t of (a, b) \<Rightarrow> f a b) s) ((case t of (a, b) \<Rightarrow> f' a b) s)"
  by (cases t) simp_all

lemma le_out_cseq_Cons [approx]:
  "le_out (m s) (m' s) \<Longrightarrow> (\<And>s. le_out (cseq ms s) (cseq ms' s)) \<Longrightarrow>
   le_out (cseq (m # ms) s) (cseq (m' # ms') s)"
  unfolding cseq.simps by (rule le_out_andthen)

section \<open>When a sequence returns\<close>

lemma bindc_Ret_iff: "bindc m f s = Ret b t \<longleftrightarrow> (\<exists>a s'. m s = Ret a s' \<and> f a s' = Ret b t)"
  by (cases "m s") (simp_all add: bindc_def)

lemma andthen_Ret_iff: "andthen m n s = Ret b t \<longleftrightarrow> (\<exists>a s'. m s = Ret a s' \<and> n s' = Ret b t)"
  by (simp add: andthen_def bindc_Ret_iff)

lemma lift_sum_Ret_iff: "lift_sum x s = Ret a t \<longleftrightarrow> x = Inr a \<and> t = s"
  by (cases x) (auto simp: lift_sum_def)

lemma ret_Ret_iff: "ret a s = Ret b t \<longleftrightarrow> b = a \<and> t = s"
  by (auto simp: ret_def)

lemmas returns_iff = bindc_Ret_iff andthen_Ret_iff lift_sum_Ret_iff ret_Ret_iff

end
