(* ===== verification/Fuel.thy ===== *)
theory Fuel imports Shell Approx begin

text \<open>
  The fuel of the interactive part only decides whether there is a result, not which: every body is
  monotone in the calls it makes, so \<open>run\<close> on more fuel agrees with \<open>run\<close> on less wherever the
  latter does not run out.
\<close>

section \<open>Removing files\<close>

lemma rm_mono:
  "le_out (execute_rm n p r k) (execute_rm (Suc n) p r k)"
  "le_out (rm_children n d j k) (rm_children (Suc n) d j k)"
proof (induction n arbitrary: p r d j k)
  case 0
  { case 1 show ?case by simp next case 2 show ?case by simp }
next
  case (Suc n)
  { case 1
    show ?case
      unfolding execute_rm.simps(2) [of "Suc n" p r k] execute_rm.simps(2) [of n p r k]
      by (intro approx Suc.IH le_out_refl)
  next
    case 2
    show ?case
      unfolding rm_children.simps(2) [of "Suc n" d j k] rm_children.simps(2) [of n d j k]
      by (intro approx Suc.IH le_out_refl)
  }
qed

section \<open>The bodies\<close>

text \<open>Calls that run out of fuel earlier and agree otherwise.\<close>

definition approx_sys :: "sys \<Rightarrow> sys \<Rightarrow> bool" where
  "approx_sys f g \<longleftrightarrow> (\<forall>c k. le_out (f c k) (g c k))"

lemma approx_sysD: "approx_sys f g \<Longrightarrow> le_out (f c k) (g c k)"
  by (simp add: approx_sys_def)

lemma keys_mono:
  assumes "approx_sys f g"
  shows "le_out (keyboard_getchar f k) (keyboard_getchar g k)"
    and "le_out (keyboard_loop f k) (keyboard_loop g k)"
    and "le_out (smouse_key_loop f k) (smouse_key_loop g k)"
  unfolding keyboard_getchar_def keyboard_loop_def smouse_key_loop_def key_code_def key_rest_def
    key_mapped_def key_loop_end_def Let_def
  by (intro approx approx_sysD [OF assms] le_out_refl)+

lemma smouse_mono:
  assumes "approx_sys f g"
  shows "le_out (smouse_loop f k) (smouse_loop g k)" and "le_out (execute_smouse f k) (execute_smouse g k)"
  unfolding smouse_loop_def execute_smouse_def
  by (intro approx approx_sysD [OF assms] le_out_refl)+

lemma login_mono:
  assumes "approx_sys f g"
  shows "le_out (switch_tty f t k) (switch_tty g t k)"
    and "le_out (login_screen f k) (login_screen g k)"
    and "le_out (login_name f u p k) (login_name g u p k)"
    and "le_out (login_password f u w p k) (login_password g u w p k)"
  unfolding switch_tty_def login_screen_def login_name_def login_password_def login_decide_def
  by (intro approx approx_sysD [OF assms] le_out_refl)+

lemma shell_mono:
  assumes "approx_sys f g"
  shows "le_out (shell f k) (shell g k)"
    and "le_out (shell_prompt f a k) (shell_prompt g a k)"
    and "le_out (shell_read f a p k) (shell_read g a p k)"
  unfolding shell_def shell_prompt_def shell_read_def recall_def
  by (intro approx approx_sysD [OF assms] le_out_refl)+

lemma dispatch_mono:
  assumes "approx_sys f g"
  shows "le_out (dispatch regs n f cmd args k) (dispatch regs (Suc n) g cmd args k)"
  unfolding dispatch_def execute_pause_def execute_exit_def Let_def void_def call_void_def arg1_def
  by (intro approx approx_sysD [OF assms] rm_mono smouse_mono [OF assms] le_out_refl)

lemma command_mono:
  assumes "approx_sys f g"
  shows "le_out (execute_command regs n f cmd k) (execute_command regs (Suc n) g cmd k)"
  unfolding execute_command_def execute_args_def void_def
  by (intro approx dispatch_mono [OF assms] le_out_refl)

lemma body_mono:
  assumes "approx_sys f g"
  shows "approx_sys (body regs n f) (body regs (Suc n) g)"
  unfolding approx_sys_def body_def
  using keys_mono [OF assms] smouse_mono [OF assms] login_mono [OF assms] shell_mono [OF assms]
    command_mono [OF assms]
  by (auto split: call.split)

section \<open>Fuel is monotone\<close>

lemma run_mono_step: "approx_sys (run regs n) (run regs (Suc n))"
proof (induction n)
  case 0
  show ?case by (simp add: approx_sys_def run_0)
next
  case (Suc n)
  show ?case using body_mono [OF Suc, of regs n] by (simp add: run.simps)
qed

lemma run_mono:
  assumes "n \<le> m"
  shows "le_out (run regs n c k) (run regs m c k)"
  using assms
proof (induction m rule: dec_induct)
  case base
  show ?case by simp
next
  case (step m)
  then show ?case using le_out_trans approx_sysD [OF run_mono_step] by blast
qed

end
