(* ===== verification/Typing.thy ===== *)
theory Typing imports Fuel begin

text \<open>
  A user at the keyboard: the bytes the controller delivers for a line of text, and what the
  reading loops of the login screen and of the shell make of them: any printable character, a shifted
  one with the key for shift pressed before and released after it. States are compared by their
  view, which leaves out the trace of port accesses, the input still to come and the modifiers.
\<close>

section \<open>Views\<close>

definition screen :: "console \<Rightarrow> console" where
  "screen c = c\<lparr>io_trace := []\<rparr>"

definition view :: "kernel \<Rightarrow> kernel" where
  "view k = k\<lparr>con := screen (con k), io_in := [],
     keys := \<lparr>shift_pressed = False, ctrl_pressed = False, alt_pressed = False, caps_lock = False\<rparr>\<rparr>"

text \<open>A console operation that neither reads the trace nor lets it reach the rest.\<close>

definition blind :: "(console \<Rightarrow> console) \<Rightarrow> bool" where
  "blind f \<longleftrightarrow> (\<forall>c. screen (f c) = screen (f (screen c)))"

lemma blind_comp: "blind f \<Longrightarrow> blind g \<Longrightarrow> blind (\<lambda>c. f (g c))"
  unfolding blind_def by metis

lemma screen_frame [simp]:
  "terminal_buffer (screen c) = terminal_buffer c" "terminal_row (screen c) = terminal_row c"
  "terminal_column (screen c) = terminal_column c" "terminal_color (screen c) = terminal_color c"
  "ttys (screen c) = ttys c" "current_tty (screen c) = current_tty c" "smouse_mode (screen c) = smouse_mode c"
  "screen (screen c) = screen c"
  by (simp_all add: screen_def)

lemma screen_outb [simp]: "screen (outb p v c) = screen c"
  by (simp add: screen_def outb_def)

lemma screen_move_cursor [simp]: "screen (move_cursor x y c) = screen c"
  by (simp add: move_cursor_def Let_def)

text \<open>Everything but the cursor movement commutes with setting the trace.\<close>

lemma scroll_trace: "terminal_scroll (c\<lparr>io_trace := t\<rparr>) = (terminal_scroll c)\<lparr>io_trace := t\<rparr>"
  by (rule console.equality) (simp_all add: terminal_scroll_eq blank_def fun_eq_iff)

lemma next_row_trace: "next_row (c\<lparr>io_trace := t\<rparr>) = (next_row c)\<lparr>io_trace := t\<rparr>"
proof -
  have u: "c\<lparr>io_trace := t, terminal_row := r\<rparr> = (c\<lparr>terminal_row := r\<rparr>)\<lparr>io_trace := t\<rparr>" for r by simp
  show ?thesis unfolding next_row_def Let_def u by (simp add: scroll_trace)
qed

lemma glyph_trace: "put_glyph ch (c\<lparr>io_trace := t\<rparr>) = (put_glyph ch c)\<lparr>io_trace := t\<rparr>"
proof -
  let ?m = "(terminal_buffer c)(cursor_index c := cell ch (terminal_color c))"
  have u: "c\<lparr>io_trace := t, terminal_buffer := m, terminal_column := r\<rparr> =
      (c\<lparr>terminal_buffer := m, terminal_column := r\<rparr>)\<lparr>io_trace := t\<rparr>" for m r by simp
  have i: "cursor_index (c\<lparr>io_trace := t\<rparr>) = cursor_index c" by (simp add: cursor_index_def)
  show ?thesis
    by (cases "Suc (terminal_column c) = SCREEN_WIDTH")
      (simp_all add: put_glyph_def Let_def poke_def i, simp_all only: u next_row_trace)
qed

lemma newline_trace: "put_newline (c\<lparr>io_trace := t\<rparr>) = (put_newline c)\<lparr>io_trace := t\<rparr>"
proof -
  have u: "c\<lparr>io_trace := t, terminal_column := r\<rparr> = (c\<lparr>terminal_column := r\<rparr>)\<lparr>io_trace := t\<rparr>" for r by simp
  show ?thesis unfolding put_newline_def u by (rule next_row_trace)
qed

lemma backspace_trace: "put_backspace (c\<lparr>io_trace := t\<rparr>) = (put_backspace c)\<lparr>io_trace := t\<rparr>"
  by (rule console.equality)
    (simp_all add: put_backspace_def Let_def poke_def cursor_index_def blank_def)

lemma blind_putchar: "blind (terminal_putchar ch)"
  unfolding blind_def
proof
  fix c
  have "screen (d\<lparr>io_trace := t\<rparr>) = screen d" for d t by (simp add: screen_def)
  moreover have "screen c = c\<lparr>io_trace := []\<rparr>" by (simp add: screen_def)
  ultimately show "screen (terminal_putchar ch c) = screen (terminal_putchar ch (screen c))"
    by (simp add: terminal_putchar_def Let_def glyph_trace newline_trace backspace_trace)
qed

lemma blind_writestring: "blind (terminal_writestring s)"
proof (induction s)
  case Nil
  show ?case by (simp add: blind_def)
next
  case (Cons ch s)
  have "blind (\<lambda>c. terminal_writestring s (terminal_putchar ch c))"
    by (rule blind_comp [OF Cons blind_putchar])
  then show ?case by (simp add: terminal_writestring_Cons)
qed

lemma blind_setcolor: "blind (terminal_setcolor fg bg)"
  by (simp add: blind_def terminal_setcolor_def Let_def screen_def)

lemma blind_clear: "blind terminal_clear"
  unfolding blind_def terminal_clear_eq screen_move_cursor
  by (intro allI console.equality) (simp_all add: blank_def fun_eq_iff, simp_all add: screen_def)

lemma blind_upd_tty: "blind (\<lambda>c. upd_tty (current_tty c) f c)"
  by (simp add: blind_def upd_tty_def screen_def)

lemmas blind_intros = blind_putchar blind_writestring blind_setcolor blind_clear blind_upd_tty

lemma view_sel:
  "con (view k) = screen (con k)" "fs (view k) = fs k" "proc (view k) = proc k"
  "hist (view k) = hist k" "net_dev (view k) = net_dev k" "disks (view k) = disks k"
  "mice (view k) = mice k" "timer_ticks (view k) = timer_ticks k" "boot_time (view k) = boot_time k"
  "next_node_addr (view k) = next_node_addr k" "io_in (view k) = []"
  "keys (view k) = \<lparr>shift_pressed = False, ctrl_pressed = False, alt_pressed = False, caps_lock = False\<rparr>"
  by (simp_all add: view_def)

lemma view_frame:
  assumes "view k = view k'"
  shows "screen (con k) = screen (con k')" "fs k = fs k'" "proc k = proc k'"
    "hist k = hist k'" "net_dev k = net_dev k'" "disks k = disks k'" "mice k = mice k'"
    "timer_ticks k = timer_ticks k'" "boot_time k = boot_time k'" "next_node_addr k = next_node_addr k'"
  by (metis assms view_sel)+

lemma view_on_con:
  assumes "blind f" and "view k = view k'"
  shows "view (on_con f k) = view (on_con f k')"
proof -
  have "screen (f (con k)) = screen (f (con k'))"
    using assms(1) view_frame(1) [OF assms(2)] unfolding blind_def by metis
  then show ?thesis
    using view_frame [OF assms(2)] by (intro kernel.equality) (simp_all add: view_sel on_con_def)
qed

section \<open>Keys\<close>

text \<open>The characters typed without and with shift: together the printable ones.\<close>

definition plain_chars :: string where
  "plain_chars = ''1234567890-=qwertyuiop[]asdfghjkl;'' @ [CHR 0x27, CHR 0x60, CHR 0x5C] @ ''zxcvbnm,./ ''"

definition shifted_chars :: string where
  "shifted_chars = ''!@#$%^&*()_+QWERTYUIOP{}ASDFGHJKL:'' @ [CHR 0x22, CHR 0x7E] @ ''|ZXCVBNM<>?''"

definition typeable :: string where
  "typeable = plain_chars @ shifted_chars"

text \<open>
  The keyboard itself: scan code set 1 of a keyboard with the US layout, row by row, the code of the
  first key of each row with the characters of the row without and with shift. It is written down here
  from the layout and does not mention the maps of the driver.
\<close>

definition us_rows :: "(nat \<times> string \<times> string) list" where
  "us_rows =
    [(0x02, ''1234567890-='', ''!@#$%^&*()_+''),
     (0x10, ''qwertyuiop[]'', ''QWERTYUIOP{}''),
     (0x1E, ''asdfghjkl;'' @ [CHR 0x27], ''ASDFGHJKL:'' @ [CHR 0x22]),
     (0x29, [CHR 0x60], [CHR 0x7E]),
     (0x2B, [CHR 0x5C], ''|''),
     (0x2C, ''zxcvbnm,./'', ''ZXCVBNM<>?''),
     (0x39, '' '', [])]"

definition us_keys :: "(char \<times> nat) list" where
  "us_keys = concat (map (\<lambda>(code, low, up). zip low [code..<code + length low] @ zip up [code..<code + length up]) us_rows)"

definition us_code :: "char \<Rightarrow> nat" where
  "us_code c = (case map_of us_keys c of Some i \<Rightarrow> i | None \<Rightarrow> 0)"

definition keycode :: "char \<Rightarrow> u8" where
  "keycode c = (if c = CHR 0x0A then 0x1C else of_nat (us_code c))"

text \<open>
  Each key event is a status byte with the output bit set and a scan code; the left shift key sends 0x2A
  when it is pressed and 0xAA when it is released.
\<close>

definition stroke :: "char \<Rightarrow> u8 list" where
  "stroke c = (if c \<in> set shifted_chars then [1, 0x2A, 1, keycode c, 1, 0xAA] else [1, keycode c])"

definition strokes :: "string \<Rightarrow> u8 list" where
  "strokes s = concat (map stroke s)"

lemma strokes_simps [simp]:
  "strokes [] = []" "strokes (c # s) = stroke c @ strokes s" "strokes (s @ t) = strokes s @ strokes t"
  by (simp_all add: strokes_def)

definition calm :: "kernel \<Rightarrow> bool" where
  "calm k \<longleftrightarrow> \<not> ctrl_pressed (keys k) \<and> \<not> alt_pressed (keys k) \<and> \<not> caps_lock (keys k) \<and> \<not> smouse_mode (con k)"

definition no_modifier :: "kernel \<Rightarrow> bool" where
  "no_modifier k \<longleftrightarrow> calm k \<and> \<not> shift_pressed (keys k)"

text \<open>The keyboard will deliver \<open>input\<close>, after the release of shift if that is still pressed.\<close>

definition ready :: "kernel \<Rightarrow> u8 list \<Rightarrow> bool" where
  "ready k input \<longleftrightarrow> calm k \<and> io_in k = (if shift_pressed (keys k) then 1 # 0xAA # input else input)"

lemma ready_no_modifier: "no_modifier k \<Longrightarrow> ready k (io_in k)"
  by (simp add: ready_def no_modifier_def)

lemma ready_unique: "ready k input \<Longrightarrow> no_modifier k \<Longrightarrow> io_in k = input"
  by (simp add: ready_def no_modifier_def)

lemma keyboard_maps:
  "length keyboard_map_lower = 59" "length keyboard_map_upper = 59"
  by (simp_all add: keyboard_map_lower_def keyboard_map_upper_def)

text \<open>The key of a typeable character is not a special one, and the driver's maps hold the character there.\<close>

definition special_keys :: "nat list" where
  "special_keys = [0x01, 0x0E, 0x1C, 0x1D, 0x2A, 0x36, 0x38, 0x3A]"

abbreviation char_map :: "char \<Rightarrow> carray" where
  "char_map c \<equiv> if c \<in> set shifted_chars then keyboard_map_upper else keyboard_map_lower"

definition key_fact :: "char \<Rightarrow> nat \<Rightarrow> bool" where
  "key_fact c i \<longleftrightarrow> i < 59 \<and> char_map c ! i = c \<and> c \<noteq> NUL \<and>
     c \<notin> set [CHR 0x0A, CHR 0x08, CHR 0x11, CHR 0x12, CHR 0x13, CHR 0x14] \<and>
     i \<notin> set special_keys \<and> (i = 0x39 \<longleftrightarrow> c = CHR '' '')"

lemma typeable_table:
  "list_all (\<lambda>c. key_fact c (us_code c)) typeable"
  by code_simp

lemma typeable_key:
  assumes "c \<in> set typeable"
  shows "unat (keycode c) < 59" "char_map c ! unat (keycode c) = c" "c \<noteq> NUL"
    "c \<notin> {CHR 0x0A, CHR 0x08, CHR 0x11, CHR 0x12, CHR 0x13, CHR 0x14}"
    "unat (keycode c) \<notin> set special_keys" "unat (keycode c) = 0x39 \<longleftrightarrow> c = CHR '' ''"
proof -
  have T: "key_fact c (us_code c)" using typeable_table assms unfolding list_all_iff by blast
  then have "unat (keycode c) = us_code c"
    by (simp add: keycode_def key_fact_def unat_of_nat take_bit_eq_mod)
  then show "unat (keycode c) < 59" "char_map c ! unat (keycode c) = c" "c \<noteq> NUL"
    "c \<notin> {CHR 0x0A, CHR 0x08, CHR 0x11, CHR 0x12, CHR 0x13, CHR 0x14}"
    "unat (keycode c) \<notin> set special_keys" "unat (keycode c) = 0x39 \<longleftrightarrow> c = CHR '' ''"
    using T by (auto simp: key_fact_def)
qed

lemma typeable_cstr: "set s \<subseteq> set typeable \<Longrightarrow> is_cstr s"
  using typeable_key(3) by (auto simp: is_cstr_def)

lemma u8_eq_iff: "(w :: u8) = v \<longleftrightarrow> unat w = unat v"
  by (simp add: word_unat_eq_iff)

lemma u8_high_bit: "unat (w :: u8) < 128 \<Longrightarrow> w AND 0x80 = 0"
proof -
  assume "unat w < 128"
  then have "w div 128 = 0" by (simp add: word_unat_eq_iff unat_div_distrib)
  then have "\<not> bit w 7" by (simp add: bit_iff_odd)
  then show ?thesis using and_exp_eq_0_iff_not_bit [of w 7] by simp
qed

lemma key_plain:
  assumes "unat sc < 59" and "unat sc \<notin> set special_keys"
    and "m = (if shift_pressed (keys k) then keyboard_map_upper else keyboard_map_lower)"
    and "m ! unat sc \<noteq> NUL" and "unat sc = 0x39 \<longrightarrow> m ! unat sc = CHR '' ''" and "calm k"
  shows "key_code sys sc k = Ret (m ! unat sc) k"
proof -
  have m: "\<not> ctrl_pressed (keys k)" "\<not> alt_pressed (keys k)" "\<not> caps_lock (keys k)"
    using assms(6) by (simp_all add: calm_def)
  have h: "sc AND 0x80 = 0" using assms(1) by (intro u8_high_bit) simp
  have t: "tty_key sc = None" "sc \<noteq> KEY_F10" "sc < 0x80"
    using assms(1) by (simp_all add: tty_key_def word_le_nat_alt word_less_nat_alt u8_eq_iff)
  have s: "sc \<noteq> KEY_LSHIFT" "sc \<noteq> KEY_RSHIFT" "sc \<noteq> KEY_CTRL" "sc \<noteq> KEY_ALT" "sc \<noteq> KEY_CAPSLOCK" "sc \<noteq> 0xE0"
    "sc \<noteq> KEY_ENTER" "sc \<noteq> KEY_BACKSPACE" "sc \<noteq> KEY_ESC"
    using assms(1,2) by (auto simp: special_keys_def u8_eq_iff)
  have r: "lift_sum (read_at (if shift_pressed (keys k) \<noteq> caps_lock (keys k) then keyboard_map_upper else keyboard_map_lower)
      (unat sc)) k = Ret (m ! unat sc) k"
    using assms(1,3) m by (simp add: lift_sum_def read_at_def keyboard_maps)
  show ?thesis
    using assms(4,5) m r
    by (simp add: key_code_def h s key_rest_def t key_mapped_def u8_eq_iff [of sc KEY_SPACE] ret_def bindc_def)
qed

lemma key_code_typeable:
  assumes "calm k" and "c \<in> set typeable \<and> (shift_pressed (keys k) \<longleftrightarrow> c \<in> set shifted_chars) \<or> c = CHR 0x0A"
  shows "key_code sys (keycode c) k = Ret c k"
proof (cases "c = CHR 0x0A")
  case True
  then show ?thesis by (simp add: keycode_def key_code_def key_rest_def ret_def)
next
  case False
  then have c: "c \<in> set typeable" "shift_pressed (keys k) \<longleftrightarrow> c \<in> set shifted_chars" using assms(2) by simp_all
  note K = typeable_key [OF c(1)]
  have "char_map c ! unat (keycode c) \<noteq> NUL" "unat (keycode c) = 0x39 \<longrightarrow> char_map c ! unat (keycode c) = CHR '' ''"
    using K(2,3,6) by metis+
  then have "key_code sys (keycode c) k = Ret (char_map c ! unat (keycode c)) k"
    using c(2) assms(1) by (intro key_plain [OF K(1,5)]) simp_all
  then show ?thesis unfolding K(2) .
qed

section \<open>Reading a key\<close>

text \<open>One byte from the keyboard.\<close>

definition got :: "u8 \<Rightarrow> kernel \<Rightarrow> kernel" where
  "got sc k = k\<lparr>io_in := drop 2 (io_in k),
     con := (con k)\<lparr>io_trace := InB 0x60 sc # InB 0x64 1 # io_trace (con k)\<rparr>\<rparr>"

definition set_shift :: "bool \<Rightarrow> kernel \<Rightarrow> kernel" where
  "set_shift b = on_keys (\<lambda>s. s\<lparr>shift_pressed := b\<rparr>)"

lemma got_frame [simp]:
  "view (got sc k) = view k" "calm (got sc k) = calm k" "no_modifier (got sc k) = no_modifier k"
  "io_in (got sc k) = drop 2 (io_in k)" "keys (got sc k) = keys k" "hist (got sc k) = hist k" "fs (got sc k) = fs k"
  by (simp_all add: got_def no_modifier_def calm_def view_def screen_def)

lemma set_shift_frame [simp]:
  "view (set_shift b k) = view k" "calm (set_shift b k) = calm k" "io_in (set_shift b k) = io_in k"
  "shift_pressed (keys (set_shift b k)) = b" "hist (set_shift b k) = hist k" "fs (set_shift b k) = fs k"
  by (simp_all add: set_shift_def on_keys_def calm_def view_def)

lemma keyboard_loop_got: "io_in k = 1 # sc # rest \<Longrightarrow> keyboard_loop sys k = key_code sys sc (got sc k)"
  by (simp add: keyboard_loop_def bindc_def inb_def got_def)

lemma key_code_shift:
  "key_code sys KEY_LSHIFT k = sys KeyboardLoop (set_shift True k)"
  "key_code sys 0xAA k = sys KeyboardLoop (set_shift False k)"
proof -
  have "key_released KEY_LSHIFT = (\<lambda>s. s\<lparr>shift_pressed := False\<rparr>)" by (simp add: key_released_def fun_eq_iff)
  then show "key_code sys KEY_LSHIFT k = sys KeyboardLoop (set_shift True k)"
    "key_code sys 0xAA k = sys KeyboardLoop (set_shift False k)"
    by (simp_all add: key_code_def set_shift_def andthen_def bindc_def act_def)
qed

text \<open>The state after one character has been read: a pending release first, then its own events.\<close>

definition press :: "char \<Rightarrow> kernel \<Rightarrow> kernel" where
  "press c k =
     (let k1 = if shift_pressed (keys k) then set_shift False (got 0xAA k) else k;
          k2 = if c \<in> set shifted_chars then set_shift True (got KEY_LSHIFT k1) else k1
      in got (keycode c) k2)"

lemma newline_plain [simp]: "CHR 0x0A \<notin> set shifted_chars"
  by (simp add: shifted_chars_def)

lemma press_view [simp]:
  "view (press c k) = view k" "calm (press c k) = calm k" "hist (press c k) = hist k" "fs (press c k) = fs k"
  by (simp_all add: press_def Let_def)

lemma press_ready: "ready k (stroke c @ rest) \<Longrightarrow> ready (press c k) rest"
  by (auto simp: ready_def press_def Let_def stroke_def)

lemma press_newline: "calm k \<Longrightarrow> no_modifier (press (CHR 0x0A) k)"
  by (simp add: press_def Let_def no_modifier_def)

lemma getchar_types:
  assumes "ready k (stroke c @ rest)" and "c \<in> set typeable \<or> c = CHR 0x0A" and "4 \<le> n"
  shows "run regs n KeyboardGetchar k = Ret c (press c k)"
proof -
  obtain m where "n = 4 + m" using le_Suc_ex [OF assms(3)] by blast
  then have n: "n = Suc (Suc (Suc (Suc m)))" by simp
  have c: "calm k" "\<not> smouse_mode (con k)" using assms(1) by (simp_all add: ready_def calm_def)
  define k1 where "k1 = (if shift_pressed (keys k) then set_shift False (got 0xAA k) else k)"
  have 1: "\<exists>i. run regs n KeyboardGetchar k = run regs (Suc (Suc i)) KeyboardLoop k1"
    using c(2) keyboard_loop_got [where k = k and sc = "0xAA" and rest = "stroke c @ rest"] assms(1)
    by (auto simp: n k1_def run_Suc(1,2) keyboard_getchar_def ready_def key_code_shift)
  have k1: "calm k1" "io_in k1 = stroke c @ rest" "\<not> shift_pressed (keys k1)"
    using assms(1) c by (auto simp: k1_def ready_def)
  define k2 where "k2 = (if c \<in> set shifted_chars then set_shift True (got KEY_LSHIFT k1) else k1)"
  have "\<exists>j. run regs (Suc (Suc i)) KeyboardLoop k1 = run regs (Suc j) KeyboardLoop k2" for i
    using keyboard_loop_got [where k = k1 and sc = KEY_LSHIFT and rest = "drop 2 (stroke c) @ rest"] k1(2)
    by (auto simp: k2_def run_Suc(2) stroke_def key_code_shift)
  then obtain j where 2: "run regs n KeyboardGetchar k = run regs (Suc j) KeyboardLoop k2" using 1 by metis
  have k2: "calm k2" "io_in k2 = 1 # keycode c # drop 2 (io_in k2)" "shift_pressed (keys k2) \<longleftrightarrow> c \<in> set shifted_chars"
    using k1 by (auto simp: k2_def stroke_def)
  have "run regs (Suc j) KeyboardLoop k2 = key_code (run regs j) (keycode c) (got (keycode c) k2)"
    using keyboard_loop_got [OF k2(2)] by (simp add: run_Suc(2))
  also have "\<dots> = Ret c (got (keycode c) k2)"
    using k2(1,3) assms(2) by (intro key_code_typeable) auto
  finally show ?thesis using 2 by (simp add: press_def Let_def k1_def k2_def)
qed

section \<open>Typing a user name and a password\<close>

text \<open>\<open>k'\<close> is \<open>k\<close> after \<open>t\<close> has been printed, with \<open>rest\<close> still to be read.\<close>

definition typed :: "kernel \<Rightarrow> string \<Rightarrow> u8 list \<Rightarrow> kernel \<Rightarrow> bool" where
  "typed k t rest k' \<longleftrightarrow> view k' = view (show_text t k) \<and> ready k' rest"

lemma view_show_text: "view k = view k' \<Longrightarrow> view (show_text t k) = view (show_text t k')"
  unfolding show_text_def by (rule view_on_con [OF blind_writestring])

lemma typed_trans: "typed k t r k1 \<Longrightarrow> typed k1 u rest k2 \<Longrightarrow> typed k (t @ u) rest k2"
  using view_show_text [of k1 "show_text t k" u] by (simp add: typed_def show_text_append)

lemma typed_ready: "typed k t rest k' \<Longrightarrow> ready k' rest"
  by (simp add: typed_def)

lemma calm_show_text [simp]: "calm (show_text t k) = calm k" "no_modifier (show_text t k) = no_modifier k"
  "ready (show_text t k) input = ready k input"
  by (simp_all add: calm_def no_modifier_def ready_def)

lemma ready_calm: "ready k input \<Longrightarrow> calm k \<and> \<not> smouse_mode (con k)"
  by (simp add: ready_def calm_def)

lemma put_char_eq: "put_char c k = Ret () (show_text [c] k)"
  if "\<not> smouse_mode (con k)"
  using that by (simp add: put_char_def act_def show_text_def on_con_def terminal_writestring_def)

text \<open>A key read and echoed as \<open>e\<close>.\<close>

lemma typed_press:
  assumes "ready k (stroke c @ rest)"
  shows "typed k t rest (show_text t (press c k))"
  using press_ready [OF assms] view_show_text [of "press c k" k t] by (simp add: typed_def)

lemma press_no_mouse: "ready k input \<Longrightarrow> \<not> smouse_mode (con (press c k))"
  using press_view(2) [of c k] by (simp add: ready_def calm_def)

lemma field_update:
  "length pre < m \<Longrightarrow> (pre @ replicate (m - length pre) NUL)[length pre := c] =
     (pre @ [c]) @ replicate (m - length (pre @ [c])) NUL"
  by (cases "m - length pre") (auto simp: list_update_append)

lemma login_name_types:
  assumes "ready k (strokes (s @ NL) @ rest)" and "set s \<subseteq> set typeable" and "length pre + length s \<le> 31"
    and "4 \<le> n"
  shows "\<exists>k'. run regs (n + Suc (length s)) (LoginName (pre @ replicate (32 - length pre) NUL) (length pre)) k =
      run regs n (LoginPassword ((pre @ s) @ replicate (32 - length (pre @ s)) NUL) (replicate 32 NUL) 0) k' \<and>
      typed k (s @ NL @ ''Password: '') rest k'"
  using assms
proof (induction s arbitrary: pre k)
  case Nil
  let ?k1 = "press (CHR 0x0A) k"
  have k: "ready k (stroke (CHR 0x0A) @ rest)" using Nil.prems(1) by simp
  note g = getchar_types [OF k _ Nil.prems(4), of regs]
  have "run regs (n + Suc (length [])) (LoginName (pre @ replicate (32 - length pre) NUL) (length pre)) k =
      run regs n (LoginPassword (pre @ replicate (32 - length pre) NUL) (replicate 32 NUL) 0)
        (show_text (NL @ ''Password: '') ?k1)"
    using g press_no_mouse [OF k]
    by (simp add: run_Suc(7) login_name_def bindc_def andthen_def cmd_simps put_char_eq show_text_append)
  then show ?case using typed_press [OF k, of "NL @ ''Password: ''"]
    by (intro exI [of _ "show_text (NL @ ''Password: '') ?k1"]) simp
next
  case (Cons c s)
  let ?k1 = "show_text [c] (press c k)" and ?N = "n + Suc (length s)"
  have K: "c \<in> set typeable" using Cons.prems(2) by simp
  have k: "ready k (stroke c @ strokes (s @ NL) @ rest)" using Cons.prems(1) by simp
  have g: "run regs ?N KeyboardGetchar k = Ret c (press c k)"
    using getchar_types [OF k, of ?N regs] K Cons.prems(4) by simp
  note t = typed_press [OF k, of "[c]"]
  have "run regs (n + Suc (length (c # s))) (LoginName (pre @ replicate (32 - length pre) NUL) (length pre)) k =
      run regs ?N (LoginName ((pre @ [c]) @ replicate (32 - length (pre @ [c])) NUL) (length (pre @ [c]))) ?k1"
    using g typeable_key(4) [OF K] Cons.prems(3) field_update [of pre 32 c] press_no_mouse [OF k]
    by (simp add: run_Suc(7) login_name_def bindc_def andthen_def put_char_eq)
  moreover have "\<exists>k'. run regs ?N (LoginName ((pre @ [c]) @ replicate (32 - length (pre @ [c])) NUL) (length (pre @ [c]))) ?k1 =
      run regs n (LoginPassword (((pre @ [c]) @ s) @ replicate (32 - length ((pre @ [c]) @ s)) NUL) (replicate 32 NUL) 0) k' \<and>
      typed ?k1 (s @ NL @ ''Password: '') rest k'"
    using Cons.prems typed_ready [OF t] by (intro Cons.IH) simp_all
  ultimately show ?case using typed_trans [OF t, of "s @ NL @ ''Password: ''" rest] by auto
qed

lemma login_password_types:
  assumes "ready k (strokes (s @ NL) @ rest)" and "set s \<subseteq> set typeable" and "length pre + length s \<le> 31"
    and "4 \<le> n"
  shows "\<exists>k'. run regs (n + Suc (length s)) (LoginPassword u (pre @ replicate (32 - length pre) NUL) (length pre)) k =
      login_decide (run regs n) (cstr u) (cstr ((pre @ s) @ replicate (32 - length (pre @ s)) NUL)) k' \<and>
      typed k (replicate (length s) (CHR ''*'') @ NL) rest k' \<and> no_modifier k'"
  using assms
proof (induction s arbitrary: pre k)
  case Nil
  let ?k1 = "show_text NL (press (CHR 0x0A) k)"
  have k: "ready k (stroke (CHR 0x0A) @ rest)" using Nil.prems(1) by simp
  note g = getchar_types [OF k _ Nil.prems(4), of regs]
  have "run regs (n + Suc (length [])) (LoginPassword u (pre @ replicate (32 - length pre) NUL) (length pre)) k =
      login_decide (run regs n) (cstr u) (cstr (pre @ replicate (32 - length pre) NUL)) ?k1"
    using g press_no_mouse [OF k]
    by (simp add: run_Suc(8) login_password_def bindc_def andthen_def put_char_eq)
  then show ?case using typed_press [OF k, of NL] press_newline [of k] k
    by (intro exI [of _ ?k1]) (simp add: ready_def)
next
  case (Cons c s)
  let ?k1 = "show_text ''*'' (press c k)" and ?N = "n + Suc (length s)"
  have K: "c \<in> set typeable" using Cons.prems(2) by simp
  have k: "ready k (stroke c @ strokes (s @ NL) @ rest)" using Cons.prems(1) by simp
  have g: "run regs ?N KeyboardGetchar k = Ret c (press c k)"
    using getchar_types [OF k, of ?N regs] K Cons.prems(4) by simp
  note t = typed_press [OF k, of "''*''"]
  have "run regs (n + Suc (length (c # s))) (LoginPassword u (pre @ replicate (32 - length pre) NUL) (length pre)) k =
      run regs ?N (LoginPassword u ((pre @ [c]) @ replicate (32 - length (pre @ [c])) NUL) (length (pre @ [c]))) ?k1"
    using g typeable_key(4) [OF K] Cons.prems(3) field_update [of pre 32 c] press_no_mouse [OF k]
    by (simp add: run_Suc(8) login_password_def bindc_def andthen_def put_char_eq)
  moreover have "\<exists>k'. run regs ?N (LoginPassword u ((pre @ [c]) @ replicate (32 - length (pre @ [c])) NUL) (length (pre @ [c]))) ?k1 =
      login_decide (run regs n) (cstr u) (cstr (((pre @ [c]) @ s) @ replicate (32 - length ((pre @ [c]) @ s)) NUL)) k' \<and>
      typed ?k1 (replicate (length s) (CHR ''*'') @ NL) rest k' \<and> no_modifier k'"
    using Cons.prems typed_ready [OF t] by (intro Cons.IH) simp_all
  ultimately show ?case using typed_trans [OF t, of "replicate (length s) (CHR ''*'') @ NL" rest] by auto
qed

text \<open>The banner of the login screen.\<close>

definition banner :: "kernel \<Rightarrow> kernel" where
  "banner k = show_text (''OpenSource Operation System.'' @ NL @ ''Please login: root, password 1'' @ NL @ NL @ ''login: '')
     (on_con (terminal_setcolor COLOR_GRAY COLOR_BLACK)
       (show_text (NL @ NL @ ''Srunix86 tty'' @ dec_nat (Suc (current_tty (con k))) @ NL)
         (on_con terminal_clear (on_con (terminal_setcolor COLOR_GRAY COLOR_BLACK) k))))"

lemma clear_frame [simp]:
  "current_tty (terminal_clear c) = current_tty c" "ttys (terminal_clear c) = ttys c"
  "smouse_mode (terminal_clear c) = smouse_mode c" "terminal_color (terminal_clear c) = terminal_color c"
  by (simp_all add: terminal_clear_eq)

lemma setcolor_frame [simp]:
  "current_tty (terminal_setcolor fg bg c) = current_tty c" "smouse_mode (terminal_setcolor fg bg c) = smouse_mode c"
  "length (ttys (terminal_setcolor fg bg c)) = length (ttys c)"
  "terminal_buffer (terminal_setcolor fg bg c) = terminal_buffer c"
  "terminal_row (terminal_setcolor fg bg c) = terminal_row c"
  "terminal_column (terminal_setcolor fg bg c) = terminal_column c"
  "tty_logged_in (ttys (terminal_setcolor fg bg c) ! i) = tty_logged_in (ttys c ! i)"
  by (simp_all add: terminal_setcolor_def Let_def nth_list_update) (cases "current_tty c < length (ttys c)"; simp add: nth_list_update list_update_beyond)+

lemma tty_number_eq:
  assumes "current_tty (con k) < 9"
  shows "tty_number k = Ret () (show_text (dec_nat (Suc (current_tty (con k)))) k)"
proof -
  let ?n = "dec_nat (Suc (current_tty (con k)))"
  have "length ?n \<le> 1" using assms length_dec_nat_le [of "Suc (current_tty (con k))" 1] by simp
  then have t: "int_to_str (int (Suc (current_tty (con k)))) (replicate 2 NUL) = Inr (?n @ NUL # drop (Suc (length ?n)) (replicate 2 NUL))"
    using assms by (simp add: int_to_str_eq dec_int_nat del: of_nat_Suc)
  have s: "int m + 1 = int (Suc m)" for m by simp
  show ?thesis
    using t is_cstr_digits by (simp add: tty_number_def number_def lift_sum_def bindc_def cmd_simps s del: of_nat_Suc)
qed

lemma login_screen_eq:
  assumes "current_tty (con k) < 9"
  shows "login_screen sys k = sys (LoginName (replicate 32 NUL) 0) (banner k)"
  using assms
  by (simp add: login_screen_def andthen_def bindc_def cmd_simps banner_def show_text_append tty_number_eq)

lemma view_con_frame:
  assumes "view k = view k'"
  shows "current_tty (con k) = current_tty (con k')" "ttys (con k) = ttys (con k')"
    "smouse_mode (con k) = smouse_mode (con k')" "terminal_buffer (con k) = terminal_buffer (con k')"
  using view_frame(1) [OF assms] by (metis screen_frame)+

lemma on_con_show_text [simp]: "con (show_text s k) = terminal_writestring s (con k)"
  by (simp add: show_text_def)

lemma banner_frame [simp]:
  "fs (banner k) = fs k" "io_in (banner k) = io_in k" "no_modifier (banner k) = no_modifier k" "hist (banner k) = hist k"
  "current_tty (con (banner k)) = current_tty (con k)" "length (ttys (con (banner k))) = length (ttys (con k))"
  "tty_logged_in (ttys (con (banner k)) ! i) = tty_logged_in (ttys (con k) ! i)"
  by (simp_all add: banner_def) (simp_all add: no_modifier_def calm_def)

text \<open>From the login screen to the decision: what has been typed and what is on the screen.\<close>

lemma login_types:
  assumes "no_modifier k" and "current_tty (con k) < 9"
    and "set u \<subseteq> set typeable" and "length u \<le> 31" and "set w \<subseteq> set typeable" and "length w \<le> 31"
    and "io_in k = strokes (u @ NL @ w @ NL) @ rest" and "4 \<le> n"
  shows "\<exists>k'. run regs (n + (length u + length w + 3)) LoginScreen k = login_decide (run regs n) u w k' \<and>
      typed (banner k) (u @ NL @ ''Password: '' @ replicate (length w) (CHR ''*'') @ NL) rest k' \<and> no_modifier k'"
proof -
  let ?m = "n + Suc (length w)"
  have c: "cstr (s @ replicate (32 - length s) NUL) = s" if "set s \<subseteq> set typeable" "length s \<le> 31" for s
  proof -
    have "replicate (32 - length s) NUL = NUL # replicate (31 - length s) NUL"
      using that(2) by (simp add: Suc_diff_le flip: replicate_Suc)
    then show ?thesis using typeable_cstr [OF that(1)] by simp
  qed
  have 1: "run regs (n + (length u + length w + 3)) LoginScreen k =
      run regs (?m + Suc (length u)) (LoginName (replicate 32 NUL) 0) (banner k)"
    using login_screen_eq [OF assms(2)] by (simp add: run_Suc(6) numeral_3_eq_3 add.commute add.left_commute)
  have "ready (banner k) (strokes (u @ NL) @ strokes (w @ NL) @ rest)"
    using ready_no_modifier [of "banner k"] assms(1,7) by simp
  from login_name_types [OF this, of "[]" ?m regs] obtain k1
    where 2: "run regs (?m + Suc (length u)) (LoginName (replicate 32 NUL) 0) (banner k) =
      run regs ?m (LoginPassword (u @ replicate (32 - length u) NUL) (replicate 32 NUL) 0) k1"
    "typed (banner k) (u @ NL @ ''Password: '') (strokes (w @ NL) @ rest) k1"
    using assms(3,4,8) by auto
  obtain k2 where 3: "run regs ?m (LoginPassword (u @ replicate (32 - length u) NUL) (replicate 32 NUL) 0) k1 =
      login_decide (run regs n) u w k2"
    "typed k1 (replicate (length w) (CHR ''*'') @ NL) rest k2" "no_modifier k2"
    using login_password_types [OF typed_ready [OF 2(2)], of "[]" n regs "u @ replicate (32 - length u) NUL"] assms(3-6,8)
      c [of u] c [of w] by auto
  have "typed (banner k) (u @ NL @ ''Password: '' @ replicate (length w) (CHR ''*'') @ NL) rest k2"
    using typed_trans [OF 2(2) 3(2)] by simp
  then show ?thesis using 1 2(1) 3(1,3) by (intro exI [of _ k2]) simp
qed

section \<open>Typing a command line\<close>

lemma shell_read_char:
  assumes "ready k (stroke c @ rest)" and "c \<in> set typeable" and "pos < 255" and "length cmd = 256" and "4 \<le> n"
  shows "run regs (Suc n) (ShellRead cmd pos) k =
    run regs n (ShellRead (cmd[pos := c]) (Suc pos)) (show_text [c] (press c k))"
  using getchar_types [OF assms(1) _ assms(5), of regs] typeable_key(4) [OF assms(2)] assms(2-4) press_no_mouse [OF assms(1)]
  by (simp add: run_Suc(11) shell_read_def bindc_def andthen_def put_char_eq write_at_def lift_sum_def)

text \<open>What the shell does with a complete line.\<close>

definition accept_line :: "sys \<Rightarrow> carray \<Rightarrow> string \<Rightarrow> (kernel, char) cmd" where
  "accept_line sys line s = andthen (add_to_history s)
     (bindc (sys (ExecuteCommand s)) (\<lambda>_. sys (ShellPrompt line)))"

text \<open>The state after a line has been read and echoed.\<close>

definition type_text :: "string \<Rightarrow> kernel \<Rightarrow> kernel" where
  "type_text s k = foldl (\<lambda>k c. show_text [c] (press c k)) k s"

lemma type_text_simps [simp]:
  "type_text [] k = k" "type_text (c # s) k = type_text s (show_text [c] (press c k))"
  by (simp_all add: type_text_def)

lemma type_text_typed: "ready k (strokes s @ rest) \<Longrightarrow> typed k s rest (type_text s k)"
proof (induction s arbitrary: k)
  case Nil
  then show ?case by (simp add: typed_def)
next
  case (Cons c s)
  then have t: "typed k [c] (strokes s @ rest) (show_text [c] (press c k))" by (intro typed_press) simp
  show ?case using typed_trans [OF t Cons.IH [OF typed_ready [OF t]]] by simp
qed

lemma type_text_append: "type_text (s @ t) k = type_text t (type_text s k)"
  by (simp add: type_text_def)

lemma type_line_no_modifier:
  assumes "ready k (strokes (s @ NL) @ rest)"
  shows "no_modifier (type_text (s @ NL) k)"
proof -
  have "ready (type_text s k) (strokes NL @ rest)"
    using type_text_typed [of k s "strokes NL @ rest"] assms by (simp add: typed_def)
  then show ?thesis using press_newline [of "type_text s k"] ready_calm by (auto simp: type_text_append)
qed

lemma shell_read_types:
  assumes "ready k (strokes (s @ NL) @ rest)" and "set s \<subseteq> set typeable" and "length pre + length s < 255" and "is_cstr pre"
    and "length cmd = 256" and "take (length pre) cmd = pre" and "4 \<le> n"
  shows "\<exists>line. run regs (n + Suc (length s)) (ShellRead cmd (length pre)) k =
      accept_line (run regs n) line (pre @ s) (type_text (s @ NL) k) \<and> length line = 256"
  using assms
proof (induction s arbitrary: pre cmd k)
  case Nil
  let ?line = "cmd[length pre := NUL]"
  have k: "ready k (stroke (CHR 0x0A) @ rest)" using Nil.prems(1) by simp
  note g = getchar_types [OF k _ Nil.prems(7), of regs]
  have "?line = pre @ NUL # drop (Suc (length pre)) cmd"
    using Nil.prems(3,5,6) by (simp add: upd_conv_take_nth_drop)
  then have c: "cstr ?line = pre" using Nil.prems(4) by simp
  have "run regs (n + Suc (length [])) (ShellRead cmd (length pre)) k =
      accept_line (run regs n) ?line (pre @ []) (type_text ([] @ NL) k)"
    using g press_no_mouse [OF k] c Nil.prems(3,5)
    by (simp add: run_Suc(11) shell_read_def bindc_def andthen_def put_char_eq write_at_def lift_sum_def accept_line_def)
  then show ?case using Nil.prems(5) by (intro exI [of _ ?line]) simp
next
  case (Cons c s)
  let ?k1 = "show_text [c] (press c k)" and ?cmd = "cmd[length pre := c]"
  have K: "c \<in> set typeable" using Cons.prems(2) by simp
  have k: "ready k (stroke c @ strokes (s @ NL) @ rest)" using Cons.prems(1) by simp
  have step: "run regs (n + Suc (length (c # s))) (ShellRead cmd (length pre)) k =
      run regs (n + Suc (length s)) (ShellRead ?cmd (length (pre @ [c]))) ?k1"
    using shell_read_char [OF k K, of "length pre" cmd "n + Suc (length s)" regs] Cons.prems(3,5,7) by simp
  have "\<exists>line. run regs (n + Suc (length s)) (ShellRead ?cmd (length (pre @ [c]))) ?k1 =
      accept_line (run regs n) line ((pre @ [c]) @ s) (type_text (s @ NL) ?k1) \<and> length line = 256"
    using Cons.prems press_ready [OF k] typeable_key(3) [OF K]
    by (intro Cons.IH) (simp_all add: take_Suc_conv_app_nth)
  then show ?case using step by auto
qed

text \<open>A line of 255 characters fills the array and is dropped unread.\<close>

lemma shell_read_full:
  assumes "ready k (strokes s @ rest)" and "set s \<subseteq> set typeable" and "pos + length s = 255"
    and "length cmd = 256" and "4 \<le> n"
  shows "\<exists>line. run regs (n + Suc (length s)) (ShellRead cmd pos) k = run regs n (ShellPrompt line) (type_text s k) \<and>
    length line = 256"
  using assms
proof (induction s arbitrary: pos cmd k)
  case Nil
  then have "run regs (n + Suc (length [])) (ShellRead cmd pos) k = run regs n (ShellPrompt cmd) k"
    by (simp add: run_Suc(11) shell_read_def)
  then show ?case using Nil.prems(4) by auto
next
  case (Cons c s)
  let ?k1 = "show_text [c] (press c k)"
  have K: "c \<in> set typeable" using Cons.prems(2) by simp
  have k: "ready k (stroke c @ strokes s @ rest)" using Cons.prems(1) by simp
  have step: "run regs (n + Suc (length (c # s))) (ShellRead cmd pos) k =
      run regs (n + Suc (length s)) (ShellRead (cmd[pos := c]) (Suc pos)) ?k1"
    using shell_read_char [OF k K, of pos cmd "n + Suc (length s)" regs] Cons.prems(3-5) by simp
  have "\<exists>line. run regs (n + Suc (length s)) (ShellRead (cmd[pos := c]) (Suc pos)) ?k1 =
      run regs n (ShellPrompt line) (type_text s ?k1) \<and> length line = 256"
    using Cons.prems press_ready [OF k] by (intro Cons.IH) simp_all
  then show ?case using step by auto
qed

section \<open>The prompt\<close>

text \<open>The banner of the shell and the prompt in the root directory.\<close>

definition set_color :: "u8 \<Rightarrow> kernel \<Rightarrow> kernel" where
  "set_color fg k = on_con (terminal_setcolor fg (drop_bit 4 (terminal_color (con k)))) k"

definition root_prompt :: "kernel \<Rightarrow> kernel" where
  "root_prompt k =
     (let k1 = show_text ''root'' (set_color COLOR_BRIGHT_RED k);
          k2 = show_text '':'' (set_color COLOR_WHITE k1);
          k3 = show_text (CHR 0x7E # []) (set_color COLOR_BRIGHT_BLUE k2);
          k4 = set_color COLOR_WHITE (show_text ''# '' (set_color COLOR_WHITE k3))
      in on_con (\<lambda>c. move_cursor (terminal_column c) (terminal_row c) c) k4)"

lemma prompt_at_root:
  assumes "current_inode (fs k) = 1"
  shows "print_prompt k = Ret () (root_prompt k)"
proof -
  have [simp]: "fs (set_color fg k) = fs k" for fg k by (simp add: set_color_def)
  have c: "prompt_color fg k = Ret () (set_color fg k)" for fg k
    by (simp add: prompt_color_def cmd_simps set_color_def)
  show ?thesis
    using assms by (simp add: print_prompt_def andthen_def bindc_def cmd_simps c root_prompt_def Let_def)
qed

definition shell_banner :: "kernel \<Rightarrow> kernel" where
  "shell_banner k = on_con (terminal_setcolor COLOR_WHITE COLOR_BLACK)
     (show_text (''Type '' @ [CHR 0x22] @ ''help'' @ [CHR 0x22] @ '' to see all the commands in the OS.'' @ NL @ NL)
       (on_con (terminal_setcolor COLOR_GRAY COLOR_BLACK)
         (show_text (NL @ ''Srunix86 tty'' @ dec_nat (Suc (current_tty (con k))) @ NL)
           (on_con (terminal_setcolor COLOR_BRIGHT_RED COLOR_BLACK) k))))"

lemma shell_eq:
  assumes "current_tty (con k) < 9" and "\<not> smouse_mode (con k)"
  shows "shell sys k = sys (ShellPrompt (replicate MAX_CMD_LEN NUL)) (shell_banner k)"
  using assms
  by (simp add: shell_def andthen_def bindc_def cmd_simps shell_banner_def show_text_append tty_number_eq)

lemma set_color_frame [simp]:
  "fs (set_color fg k) = fs k" "io_in (set_color fg k) = io_in k" "no_modifier (set_color fg k) = no_modifier k"
  "hist (set_color fg k) = hist k" "proc (set_color fg k) = proc k"
  by (simp_all add: set_color_def no_modifier_def calm_def)

lemma root_prompt_frame [simp]:
  "fs (root_prompt k) = fs k" "io_in (root_prompt k) = io_in k" "no_modifier (root_prompt k) = no_modifier k"
  "hist (root_prompt k) = hist k" "proc (root_prompt k) = proc k"
  by (simp_all add: root_prompt_def Let_def) (simp_all add: no_modifier_def calm_def set_color_def)

lemma shell_banner_frame [simp]:
  "fs (shell_banner k) = fs k" "io_in (shell_banner k) = io_in k" "no_modifier (shell_banner k) = no_modifier k"
  "hist (shell_banner k) = hist k" "proc (shell_banner k) = proc k"
  by (simp_all add: shell_banner_def no_modifier_def calm_def)

text \<open>From the call of the shell to its first prompt, and from a prompt to the complete line.\<close>

lemma shell_call_prompts:
  assumes "no_modifier k" and "current_tty (con k) < 9"
  shows "run regs (Suc n) ShellCall k = run regs n (ShellPrompt (replicate 256 NUL)) (shell_banner k)"
  using shell_eq [OF assms(2)] assms(1) by (simp add: run_Suc(9) no_modifier_def calm_def)

lemma prompt_reads_line:
  assumes "print_prompt k = Ret () k0" and "ready k0 (strokes (s @ NL) @ rest)"
    and "set s \<subseteq> set typeable" and "length s < 255" and "length cmd = 256" and "4 \<le> n"
  shows "\<exists>line. run regs (n + length s + 2) (ShellPrompt cmd) k =
    accept_line (run regs n) line s (type_text (s @ NL) k0) \<and> length line = 256"
  using shell_read_types [OF assms(2,3), of "[]" cmd n regs] assms(1,4-6)
  by (simp add: run_Suc(10) shell_prompt_def andthen_def bindc_def)

end
