(* ===== verification/History.thy ===== *)
theory History imports Shell begin

text \<open>
  The command history of the shell: a table of 100 lines that forgets the oldest line when it is
  full. The interface is a log that keeps the last entries; the shell's table implements it.
\<close>

section \<open>The interface\<close>

definition last_n :: "nat \<Rightarrow> 'a list \<Rightarrow> 'a list" where
  "last_n n xs = drop (length xs - n) xs"

lemma last_n_short [simp]: "length xs \<le> n \<Longrightarrow> last_n n xs = xs"
  by (simp add: last_n_def)

lemma last_n_append: "last_n n (last_n n xs @ ys) = last_n n (xs @ ys)"
  by (cases "length xs \<le> n") (simp_all add: last_n_def add.commute)

locale bounded_log =
  fixes push :: "'a \<Rightarrow> 's \<Rightarrow> fault + 's"
    and lines :: "'s \<Rightarrow> 'a list"
    and ok :: "'s \<Rightarrow> bool"
    and legal :: "'a \<Rightarrow> bool"
    and cap :: nat
  assumes push_keeps: "ok s \<Longrightarrow> legal a \<Longrightarrow>
    \<exists>s'. push a s = Inr s' \<and> ok s' \<and> lines s' = last_n cap (lines s @ [a])"
begin

lemma push_all:
  "ok s \<Longrightarrow> \<forall>a \<in> set as. legal a \<Longrightarrow> length (lines s) \<le> cap \<Longrightarrow>
   \<exists>s'. sfold push as s = Inr s' \<and> ok s' \<and> lines s' = last_n cap (lines s @ as)"
proof (induction as arbitrary: s)
  case Nil
  then show ?case by simp
next
  case (Cons a as)
  then obtain s1 where 1: "push a s = Inr s1" "ok s1" "lines s1 = last_n cap (lines s @ [a])"
    using push_keeps [of s a] by auto
  have "length (lines s1) \<le> cap" by (simp add: 1(3) last_n_def)
  then obtain s2 where "sfold push as s1 = Inr s2" "ok s2" "lines s2 = last_n cap (lines s1 @ as)"
    using Cons 1(2) by auto
  then show ?case using 1 by (simp add: last_n_append)
qed

end

section \<open>The table of lines\<close>

definition line_ok :: "carray \<Rightarrow> bool" where
  "line_ok l \<longleftrightarrow> length l = MAX_CMD_LEN \<and> NUL \<in> set l"

definition history_ok :: "history \<Rightarrow> bool" where
  "history_ok h \<longleftrightarrow> length (command_history h) = HISTORY_SIZE \<and> history_count h \<le> HISTORY_SIZE \<and>
     history_pos h \<le> history_count h \<and> (\<forall>l \<in> set (command_history h). line_ok l)"

definition history_lines :: "history \<Rightarrow> string list" where
  "history_lines h = map cstr (take (history_count h) (command_history h))"

definition legal_line :: "string \<Rightarrow> bool" where
  "legal_line s \<longleftrightarrow> is_cstr s \<and> length s < MAX_CMD_LEN"

lemma length_history_lines: "history_ok h \<Longrightarrow> length (history_lines h) = history_count h"
  by (simp add: history_ok_def history_lines_def)

lemma strcpy_line:
  "line_ok d \<Longrightarrow> legal_line s \<Longrightarrow> \<exists>l. strcpy d s = Inr l \<and> line_ok l \<and> cstr l = s"
  by (auto simp: legal_line_def line_ok_def strcpy_eq)

lemma legal_line_cstr: "line_ok l \<Longrightarrow> legal_line (cstr l)"
  using length_cstr_less [of l] by (simp add: legal_line_def line_ok_def)

text \<open>The loop that moves the lines down.\<close>

lemma shift_update:
  assumes "Suc n < length xs"
  shows "(take n (tl xs) @ drop n xs)[n := xs ! Suc n] = take (Suc n) (tl xs) @ drop (Suc n) xs"
proof -
  have "drop n xs = xs ! n # drop (Suc n) xs" using assms by (simp add: Cons_nth_drop_Suc)
  moreover have "take (Suc n) (tl xs) = take n (tl xs) @ [xs ! Suc n]"
    using assms by (simp add: take_Suc_conv_app_nth nth_tl)
  ultimately show ?thesis using assms by (simp add: list_update_append)
qed

lemma shift_lines:
  assumes "\<forall>l \<in> set cs. line_ok l" and "n < length cs"
  shows "\<exists>cs'. sfold (\<lambda>i cs. sbind (strcpy (cs ! i) (cstr (cs ! (i + 1)))) (\<lambda>line. Inr (cs[i := line]))) [0..<n] cs = Inr cs' \<and>
    (\<forall>l \<in> set cs'. line_ok l) \<and> map cstr cs' = take n (tl (map cstr cs)) @ drop n (map cstr cs)"
  using assms(2)
proof (induction n)
  case 0
  then show ?case using assms(1) by simp
next
  case (Suc n)
  let ?f = "\<lambda>i cs. sbind (strcpy (cs ! i) (cstr (cs ! (i + 1)))) (\<lambda>line. Inr (cs[i := line]))"
  obtain cs1 where 1: "sfold ?f [0..<n] cs = Inr cs1" "\<forall>l \<in> set cs1. line_ok l"
    "map cstr cs1 = take n (tl (map cstr cs)) @ drop n (map cstr cs)"
    using Suc by auto
  have "length (map cstr cs1) = length cs" using 1(3) Suc.prems by simp
  then have len: "length cs1 = length cs" by simp
  have "map cstr cs1 ! Suc n = map cstr cs ! Suc n"
    unfolding 1(3) using Suc.prems by (simp add: nth_append)
  then have src: "cstr (cs1 ! Suc n) = cstr (cs ! Suc n)" using Suc.prems len by simp
  have "line_ok (cs1 ! n)" "line_ok (cs1 ! Suc n)" using 1(2) Suc.prems len by simp_all
  then obtain l where l: "strcpy (cs1 ! n) (cstr (cs1 ! Suc n)) = Inr l" "line_ok l" "cstr l = cstr (cs1 ! Suc n)"
    using strcpy_line legal_line_cstr by blast
  have "sfold ?f [0..<Suc n] cs = Inr (cs1[n := l])"
    using 1(1) l(1) by (simp add: sfold_append)
  moreover have "\<forall>x \<in> set (cs1[n := l]). line_ok x"
    using 1(2) l(2) set_update_subset_insert [of cs1 n l] by blast
  moreover have "map cstr (cs1[n := l]) = take (Suc n) (tl (map cstr cs)) @ drop (Suc n) (map cstr cs)"
    using shift_update [of n "map cstr cs"] Suc.prems by (simp add: map_update 1(3) l(3) src)
  ultimately show ?case by blast
qed

lemma push_history_ok:
  assumes ok: "history_ok h" and legal: "legal_line s"
  shows "\<exists>h'. push_history s h = Inr h' \<and> history_ok h' \<and> history_lines h' = last_n HISTORY_SIZE (history_lines h @ [s])"
proof (cases "history_count h < HISTORY_SIZE")
  case True
  let ?n = "history_count h" and ?cs = "command_history h"
  have "line_ok (?cs ! ?n)" using ok True by (simp add: history_ok_def)
  then obtain l where l: "strcpy (?cs ! ?n) s = Inr l" "line_ok l" "cstr l = s"
    using strcpy_line legal by blast
  let ?h = "h\<lparr>command_history := ?cs[?n := l], history_count := ?n + 1, history_pos := ?n + 1\<rparr>"
  have p: "push_history s h = Inr ?h" using True l(1) by (simp add: push_history_def)
  have i: "\<forall>x \<in> set (?cs[?n := l]). line_ok x"
    using ok l(2) set_update_subset_insert [of ?cs ?n l] unfolding history_ok_def by blast
  have "history_ok ?h" using ok True i by (simp add: history_ok_def)
  moreover have "history_lines ?h = history_lines h @ [s]"
    using ok True l(3) by (simp add: history_lines_def history_ok_def take_Suc_conv_app_nth)
  moreover have "length (history_lines h @ [s]) \<le> HISTORY_SIZE"
    using length_history_lines [OF ok] True by simp
  ultimately show ?thesis using p by (intro exI [of _ ?h]) simp
next
  case False
  let ?cs = "command_history h"
  have len: "length ?cs = 100" "history_count h = 100" using ok False by (simp_all add: history_ok_def)
  obtain cs where cs: "sfold (\<lambda>i cs. sbind (strcpy (cs ! i) (cstr (cs ! (i + 1)))) (\<lambda>line. Inr (cs[i := line]))) [0..<99] ?cs = Inr cs"
    "\<forall>l \<in> set cs. line_ok l" "map cstr cs = take 99 (tl (map cstr ?cs)) @ drop 99 (map cstr ?cs)"
    using shift_lines [of ?cs 99] ok len by (auto simp: history_ok_def)
  have "length (map cstr cs) = 100" unfolding cs(3) using len by simp
  then have l100: "length cs = 100" by simp
  then have "line_ok (cs ! 99)" using cs(2) by simp
  then obtain l where l: "strcpy (cs ! 99) s = Inr l" "line_ok l" "cstr l = s"
    using strcpy_line legal by blast
  let ?h = "h\<lparr>command_history := cs[99 := l], history_pos := history_count h\<rparr>"
  have p: "push_history s h = Inr ?h" using len cs(1) l(1) by (simp add: push_history_def)
  have i: "\<forall>x \<in> set (cs[99 := l]). line_ok x"
    using cs(2) l(2) set_update_subset_insert [of cs 99 l] by blast
  have "history_ok ?h" using l100 len i by (simp add: history_ok_def)
  moreover have "history_lines ?h = tl (history_lines h) @ [s]"
  proof -
    have "length (drop 99 (map cstr ?cs)) = Suc 0" using len by simp
    then obtain x where x: "drop 99 (map cstr ?cs) = [x]" by (auto simp only: length_Suc_conv length_0_conv)
    have "map cstr (cs[99 := l]) = (map cstr cs)[99 := s]" by (simp add: map_update l(3))
    also have "\<dots> = take 99 (tl (map cstr ?cs)) @ [s]"
      unfolding cs(3) x using len by (simp add: list_update_append)
    also have "take 99 (tl (map cstr ?cs)) = tl (map cstr ?cs)" using len by simp
    finally show ?thesis using len l100 by (simp add: history_lines_def)
  qed
  moreover have "last_n HISTORY_SIZE (history_lines h @ [s]) = tl (history_lines h) @ [s]"
    using length_history_lines [OF ok] len by (simp add: last_n_def drop_Suc)
  ultimately show ?thesis using p by (intro exI [of _ ?h]) simp
qed

interpretation history_log: bounded_log push_history history_lines history_ok legal_line HISTORY_SIZE
  by unfold_locales (rule push_history_ok)

lemma static_history: "history_ok (hist (static_kernel vram input))" "history_lines (hist (static_kernel vram input)) = []"
  by (simp_all add: static_kernel_def history_ok_def history_lines_def line_ok_def del: replicate.simps)

end
