(* ===== verification/File_Props.thy ===== *)
theory File_Props imports FileCmds Bkfs_Props begin

text \<open>
  The file commands against the file-system specification: what \<open>ls\<close>, \<open>pwd\<close> and \<open>cat\<close> print, when
  \<open>pwd\<close> fails to return, that text redirected into a file is what \<open>cat\<close> shows, what an append
  stores, and how \<open>rm\<close> behaves on files and on directories that are not empty.
\<close>

section \<open>Entries of the working directory\<close>

lemma entry_name_zero [simp]: "entry_name zero_file = []"
  by (simp add: entry_name_def zero_file_def cstr_def)

lemma find_in_cwd_entry:
  assumes "fs_inv (fs k)" and "find_in_cwd name p k = Some i" and "is_cstr name" and "name \<noteq> []"
  shows "5 \<le> i" "i < file_count (fs k)" "valid_ino (f_inode (entry_at i k))"
    "inode_taken (fs k) (ino_ix (f_inode (entry_at i k)))" "p (entry_at i k)"
    "entry_name (entry_at i k) = name" "f_parent_inode (entry_at i k) = current_inode (fs k)"
proof -
  note F = fs_invD [OF assms(1)]
  have f: "i < file_count (fs k)" "p (entry_at i k)" "strcmp (entry_name (entry_at i k)) name = 0"
    "f_parent_inode (entry_at i k) = current_inode (fs k)"
    using assms(2) by (simp_all add: find_in_cwd_def find_entry_def first_index_Some entry_at_def)
  then show nm: "entry_name (entry_at i k) = name" using strcmp_zero assms(3) by simp
  show i5: "5 \<le> i"
  proof (rule ccontr)
    assume "\<not> 5 \<le> i"
    then have "entry_name (entry_at i k) = []" using F(3) by (simp add: entry_at_def)
    then show False using nm assms(4) by simp
  qed
  show "i < file_count (fs k)" "p (entry_at i k)" "f_parent_inode (entry_at i k) = current_inode (fs k)"
    using f by simp_all
  show "valid_ino (f_inode (entry_at i k))" "inode_taken (fs k) (ino_ix (f_inode (entry_at i k)))"
    using F(4,5) [OF i5 f(1)] by (simp_all add: entry_at_def)
qed

lemma not_exists_none:
  "\<not> file_exists_in_current_dir name (fs k) \<Longrightarrow> find_in_cwd name p k = None"
  by (auto simp: file_exists_in_current_dir_def find_in_cwd_def find_entry_def first_index_None split: option.splits)

lemma find_created:
  assumes c: "created (fs k) e s" and inv: "fs_inv (fs k)" and fresh: "\<not> file_exists_in_current_dir name (fs k)"
    and e: "entry_name e = name" "f_parent_inode e = current_inode (fs k)" "p e"
    and t: "entries (fs k') = entries s" "current_inode (fs k') = current_inode s"
      "file_count (fs k') = file_count s"
  shows "find_in_cwd name p k' = Some (file_count (fs k))" and "entry_at (file_count (fs k)) k' = e"
    and "file_count (fs k') = Suc (file_count (fs k))"
proof -
  have en: "entries (fs k') = entries (fs k) @ [e]" and cur: "current_inode (fs k') = current_inode (fs k)"
    and invs: "fs_inv s" using c t by (simp_all add: created_def)
  have l: "length (entries (fs k)) = file_count (fs k)" "length (entries (fs k)) \<le> MAX_FILES"
    using fs_data_invD(3,4) [OF fs_invD(1) [OF inv]] by (simp_all add: entries_def)
  have ls: "length (entries s) = file_count s"
    using fs_data_invD(3,4) [OF fs_invD(1) [OF invs]] by (simp add: entries_def)
  have len: "length (entries (fs k')) = Suc (file_count (fs k))" using en l by simp
  have le: "length (entries (fs k')) \<le> file_count (fs k')" by (simp add: entries_def)
  have at: "files (fs k') ! j = (entries (fs k) @ [e]) ! j" if "j \<le> file_count (fs k)" for j
  proof -
    have "entries (fs k') ! j = files (fs k') ! j"
      using that len le by (simp add: entries_def)
    then show ?thesis using en by simp
  qed
  show e': "entry_at (file_count (fs k)) k' = e" using at [of "file_count (fs k)"] l by (simp add: entry_at_def nth_append)
  have old: "\<not> (f_parent_inode (files (fs k') ! j) = current_inode (fs k) \<and> strcmp (entry_name (files (fs k') ! j)) name = 0)"
    if "j < file_count (fs k)" for j
  proof -
    have "files (fs k') ! j = files (fs k) ! j"
      using at [of j] that l by (simp add: nth_append entries_def)
    then show ?thesis
      using fresh that
      by (auto simp: file_exists_in_current_dir_def find_entry_def first_index_None split: option.splits)
  qed
  show "find_in_cwd name p k' = Some (file_count (fs k))"
    unfolding find_in_cwd_def find_entry_def first_index_Some
    using old e' e cur len le by (auto simp: entry_at_def)
  show "file_count (fs k') = Suc (file_count (fs k))"
    using t(3) ls c l by (simp add: created_def)
qed

section \<open>Commands on one file\<close>

lemma write_file_ok:
  assumes inv: "fs_inv (fs k)" and v: "valid_ino n" "inode_taken (fs k) (ino_ix n)"
    and data: "unat sz \<le> length data" "unat sz \<le> INODE_DIRECT_BLOCKS * BLOCK_SIZE"
    and room: "blocks_for (unat sz) \<le> room (fs k) (ino_ix n)"
  shows "\<exists>s'. write_file n data sz k = Ret FS_SUCCESS (k\<lparr>fs := s'\<rparr>) \<and>
    stored (fs k) (ino_ix n) (take (unat sz) data) s' \<and> fs_inv s'"
proof -
  obtain s' where "fs_write_file (timer_ticks k) n data sz (fs k) = Inr (FS_SUCCESS, s')"
    "stored (fs k) (ino_ix n) (take (unat sz) data) s'"
    using fs_write_file_outcome [OF fs_invD(1) [OF inv] v data, of "timer_ticks k"] room by auto
  then show ?thesis using stored_inv [OF inv] by (intro exI [of _ s']) (simp add: write_file_def)
qed

definition touch_atime :: "u32 \<Rightarrow> kernel \<Rightarrow> kernel" where
  "touch_atime n k = on_fs (upd_inode n (\<lambda>ino. ino\<lparr>i_atime := timer_ticks k\<rparr>)) k"

lemma read_file_ok:
  assumes inv: "fs_inv (fs k)" and v: "valid_ino n" and cap: "unat sz \<le> cap"
  defines "m \<equiv> min (unat sz) (length (content (fs k) (ino_ix n)))"
  shows "read_file n cap sz k = Ret (int m, take m (content (fs k) (ino_ix n)) @ replicate (cap - m) NUL)
    (touch_atime n k)"
  using fs_read_file_content [OF fs_invD(1) [OF inv] v, of sz "replicate cap NUL" "timer_ticks k"] v cap
  by (simp add: read_file_def m_def touch_atime_def on_fs_def)

lemma show_text_on_fs: "k\<lparr>fs := s, con := terminal_writestring t (con k)\<rparr> = show_text t (k\<lparr>fs := s\<rparr>)"
  by (simp add: show_text_def on_con_def)

text \<open>\<open>cat\<close> shows the first 1024 bytes of the file and a line break.\<close>

lemma execute_cat_eq:
  assumes inv: "fs_inv (fs k)" and f: "find_in_cwd name is_regular k = Some i"
    and v: "valid_ino (f_inode (entry_at i k))"
  defines "c \<equiv> content (fs k) (ino_ix (f_inode (entry_at i k)))"
  shows "execute_cat (Some name) k =
    Ret () (show_text (take BLOCK_SIZE c @ NL) (touch_atime (f_inode (entry_at i k)) k))"
proof -
  let ?n = "f_inode (entry_at i k)"
  define m where "m = min BLOCK_SIZE (length c)"
  have r: "read_file ?n BLOCK_SIZE (of_nat BLOCK_SIZE) k =
      Ret (int m, take m c @ replicate (BLOCK_SIZE - m) NUL) (touch_atime ?n k)"
    using read_file_ok [OF inv v, of "of_nat BLOCK_SIZE" BLOCK_SIZE] by (simp add: m_def c_def)
  have t: "take m c = take BLOCK_SIZE c" by (simp add: m_def min_def)
  have m: "m \<le> length (take m c @ replicate (BLOCK_SIZE - m) NUL)" by (simp add: m_def)
  have tk: "take m (take m c @ replicate (BLOCK_SIZE - m) NUL) = take BLOCK_SIZE c"
    using t by (simp add: m_def)
  have p: "print_bytes (take m c @ replicate (BLOCK_SIZE - m) NUL) (int m) k' =
      Ret () (show_text (take BLOCK_SIZE c) k')" for k'
    unfolding print_bytes_def nat_int terminal_write_eq [OF m] tk by (simp add: show_text_def on_con_def)
  show ?thesis
  proof (cases "m = 0")
    case True
    then have "take BLOCK_SIZE c = []" by (cases c) (simp_all add: m_def)
    then show ?thesis using f r True by (simp add: execute_cat_def bindc_def cmd_simps)
  next
    case False
    then show ?thesis
      using f r p by (simp add: execute_cat_def bindc_def cmd_simps show_text_append)
  qed
qed

text \<open>The free blocks are part of the room of any file.\<close>

lemma free_blocks_room:
  assumes "fs_data_inv s"
  shows "unat (free_blocks s) \<le> room s x"
proof -
  have "unat (free_blocks s) = card {b. b < MAX_BLOCKS \<and> \<not> block_taken s b}"
    using fs_data_invD(13) [OF assms] by (simp add: counted_def)
  also have "\<dots> \<le> room s x" unfolding room_def by (intro card_mono) auto
  finally show ?thesis .
qed

text \<open>Text redirected into a new file.\<close>

lemma redirect_new_file:
  assumes inv: "fs_inv (fs k)" and name: "is_valid_filename name" "is_cstr name" "length name \<le> 30"
    and fresh: "\<not> file_exists_in_current_dir name (fs k)" and fc: "file_count (fs k) < MAX_FILES"
    and free: "free_blocks (fs k) \<noteq> 0" and len: "length t \<le> BLOCK_SIZE"
  shows "\<exists>s n. execute_redirect_output (Some name) (Some t) k =
      Ret () (show_text (''File created and text written'' @ NL) (k\<lparr>fs := s\<rparr>)) \<and> fs_inv s \<and>
    find_in_cwd name is_regular (k\<lparr>fs := s\<rparr>) = Some (file_count (fs k)) \<and>
    entry_at (file_count (fs k)) (k\<lparr>fs := s\<rparr>) = n \<and> valid_ino (f_inode n) \<and> content s (ino_ix (f_inode n)) = t \<and>
    current_inode s = current_inode (fs k)"
proof -
  obtain e s where c: "fs_create_file name (current_inode (fs k)) FILE_REGULAR k = Ret FS_SUCCESS (k\<lparr>fs := s\<rparr>)"
    "created (fs k) e s" "entry_name e = name" "f_parent_inode e = current_inode (fs k)" "f_type e = FILE_REGULAR"
    using fs_create_file_eq [OF inv name fresh fc] by blast
  have reg: "is_regular e" using c(5) by (simp add: is_regular_def)
  note F1 = find_created [OF c(2) inv fresh c(3,4), where p = is_regular, OF reg]
  have k1: "find_in_cwd name is_regular (k\<lparr>fs := s\<rparr>) = Some (file_count (fs k))"
    "entry_at (file_count (fs k)) (k\<lparr>fs := s\<rparr>) = e" "file_count s = Suc (file_count (fs k))"
    using F1 [of "k\<lparr>fs := s\<rparr>"] by simp_all
  let ?n = "f_inode e"
  have s: "fs_inv s" "valid_ino ?n" "inode_taken s (ino_ix ?n)" "free_blocks s = free_blocks (fs k)"
    using c(2) by (simp_all add: created_def)
  have "0 < unat (free_blocks s)" using free s(4) by (simp add: unat_gt_0)
  then have "1 \<le> room s (ino_ix ?n)" using free_blocks_room [OF fs_invD(1) [OF s(1)], of "ino_ix ?n"] by linarith
  moreover have u: "unat (of_nat (length t) :: u32) = length t" using len by simp
  moreover have "blocks_for (length t) \<le> 1" using len by (simp add: blocks_for_le)
  ultimately obtain s' where w: "write_file ?n t (of_nat (length t)) (k\<lparr>fs := s\<rparr>) = Ret FS_SUCCESS (k\<lparr>fs := s'\<rparr>)"
    "stored s (ino_ix ?n) t s'" "fs_inv s'"
    using write_file_ok [of "k\<lparr>fs := s\<rparr>" ?n "of_nat (length t)" t] s len by auto
  have "find_in_cwd name is_regular (k\<lparr>fs := s'\<rparr>) = Some (file_count (fs k))"
    "entry_at (file_count (fs k)) (k\<lparr>fs := s'\<rparr>) = e"
    using F1 [of "k\<lparr>fs := s'\<rparr>"] w(2) by (simp_all add: stored_def entries_def)
  moreover have "find_in_cwd name is_regular k = None" using fresh by (rule not_exists_none)
  then have "execute_redirect_output (Some name) (Some t) k =
      Ret () (show_text (''File created and text written'' @ NL) (k\<lparr>fs := s'\<rparr>))"
    using c(1) k1 w(1) by (simp add: execute_redirect_output_def bindc_def write_new_def cmd_simps)
  ultimately show ?thesis using w(2,3) s(2) c(2)
    by (intro exI [of _ s'] exI [of _ e]) (simp add: stored_def created_def)
qed

section \<open>Listing\<close>

definition ls_text :: "bkfs \<Rightarrow> string" where
  "ls_text s = concat (map (\<lambda>f. entry_name f @ (if is_dir f then ''/ '' else ''  ''))
     (filter (\<lambda>f. f_parent_inode f = current_inode s) (entries s)))"

lemma ls_loop:
  "for_each (\<lambda>i k. if f_parent_inode (entry_at i k) = current_inode (fs k)
       then cseq [say (entry_name (entry_at i k)), say (if is_dir (entry_at i k) then ''/ '' else ''  '')] k
       else Ret () k) xs k =
   Ret () (show_text (concat (map (\<lambda>f. entry_name f @ (if is_dir f then ''/ '' else ''  ''))
     (filter (\<lambda>f. f_parent_inode f = current_inode (fs k)) (map (\<lambda>i. files (fs k) ! i) xs)))) k)"
proof (induction xs arbitrary: k)
  case (Cons x xs)
  show ?case
  proof (cases "f_parent_inode (files (fs k) ! x) = current_inode (fs k)")
    case True
    then show ?thesis
      using Cons.IH [of "show_text (entry_name (files (fs k) ! x) @ (if is_dir (files (fs k) ! x) then ''/ '' else ''  '')) k"]
      by (simp add: entry_at_def cmd_simps show_text_append)
  next
    case False
    then show ?thesis using Cons.IH [of k] by (simp add: entry_at_def andthen_def bindc_def)
  qed
qed (simp add: cmd_simps)

lemma entries_map: "file_count s \<le> length (files s) \<Longrightarrow> map (\<lambda>i. files s ! i) [0..<file_count s] = entries s"
  by (rule nth_equalityI) (simp_all add: entries_def)

lemma execute_ls_eq:
  assumes "fs_inv (fs k)"
  shows "execute_ls k = Ret () (show_text (ls_text (fs k) @ NL) k)"
proof -
  have "file_count (fs k) \<le> length (files (fs k))"
    using fs_data_invD(3,4) [OF fs_invD(1) [OF assms]] by simp
  then show ?thesis
    by (simp add: execute_ls_def cmd_simps ls_loop entries_map ls_text_def show_text_append)
qed

section \<open>Removing\<close>

lemma find_in_cwd_fs: "fs k' = fs k \<Longrightarrow> find_in_cwd name p k' = find_in_cwd name p k"
  by (simp add: find_in_cwd_def)

lemma entry_at_fs: "fs k' = fs k \<Longrightarrow> entry_at i k' = entry_at i k"
  by (simp add: entry_at_def)

lemma render_s: "CHR ''%'' \<notin> set a \<Longrightarrow> CHR ''%'' \<notin> set b \<Longrightarrow> render (a @ ''%s'' @ b) [Str t] = Some (a @ t @ b)"
proof (induction a)
  case Nil
  have "CHR ''%'' \<notin> set b \<Longrightarrow> render b [] = Some b" by (induction b) auto
  then show ?case using Nil by (simp add: conversion_def)
qed auto

text \<open>A message with a name in it fits the buffer of \<open>terminal_printf\<close> when the name is short.\<close>

lemma printf_name:
  assumes "CHR ''%'' \<notin> set a" "CHR ''%'' \<notin> set b" "is_cstr (a @ t @ b)" "length (a @ t @ b) < 256"
    "\<not> smouse_mode (con k)"
  shows "printf (a @ ''%s'' @ b) [Str t] k = Ret () (show_text (a @ t @ b) k)"
  using printf_eq [OF render_s [OF assms(1,2), of t] assms(3,5)] assms(4) by simp

lemma deref_text [simp]: "deref (Text s) k = s"
  by (simp add: deref_def)

lemma execute_rm_file:
  assumes inv: "fs_inv (fs k)" and f: "find_in_cwd name (\<lambda>_. True) k = Some i" and reg: "\<not> is_dir (entry_at i k)"
    and name: "is_cstr name" "name \<noteq> []" "length name < 200" and sm: "\<not> smouse_mode (con k)"
  shows "execute_rm (Suc n) (Text name) recursive k =
    Ret () (show_text ([CHR 0x27] @ name @ [CHR 0x27] @ '' deleted'' @ NL)
      (on_fs (drop_file (f_inode (entry_at i k))) k)) \<and>
    deleted (fs k) (f_inode (entry_at i k)) (drop_file (f_inode (entry_at i k)) (fs k))"
proof -
  note E = find_in_cwd_entry [OF inv f name(1,2)]
  have d: "fs_delete_file (f_inode (entry_at i k)) k = Ret FS_SUCCESS (on_fs (drop_file (f_inode (entry_at i k))) k)"
    by (rule fs_delete_file_eq [OF inv E(3,4)])
  let ?k = "on_fs (drop_file (f_inode (entry_at i k))) k"
  have "\<not> smouse_mode (con ?k)" using sm by (simp add: on_fs_def)
  then have "printf ([CHR 0x27] @ ''%s'' @ ([CHR 0x27] @ '' deleted'' @ NL)) [Str name] ?k =
      Ret () (show_text ([CHR 0x27] @ name @ ([CHR 0x27] @ '' deleted'' @ NL)) ?k)"
    using name by (intro printf_name) (auto simp: is_cstr_def)
  then show ?thesis
    using f reg d drop_file_ok [OF inv E(3,4)] by (simp add: andthen_def bindc_def cmd_simps)
qed

text \<open>
  The loop over the children of a directory, when the first child is not found by its name in the
  working directory: the child stays, the index does not advance, and the loop goes on.
\<close>

lemma rm_children_stuck:
  assumes j: "j < file_count s" "f_parent_inode (files s ! j) = dir"
    and first: "\<forall>i. j0 \<le> i \<and> i < j \<longrightarrow> f_parent_inode (files s ! i) \<noteq> dir"
    and lost: "find_entry (\<lambda>f. f_parent_inode f = current_inode s \<and>
      strcmp (entry_name f) (entry_name (files s ! j)) = 0 \<and> True) s = None"
    and len: "length (entry_name (files s ! j)) < 200"
  shows "fs k = s \<Longrightarrow> \<not> smouse_mode (con k) \<Longrightarrow> i \<le> j \<Longrightarrow> j0 \<le> i \<Longrightarrow>
    \<exists>k'. rm_children n dir i k = Stop OutOfFuel k'"
proof (induction n arbitrary: i k)
  case (Suc n)
  show ?case
  proof (cases "i = j")
    case False
    then have "f_parent_inode (files s ! i) \<noteq> dir" "i < file_count s" using first Suc.prems j by auto
    moreover have "\<exists>k'. rm_children n dir (Suc i) k = Stop OutOfFuel k'"
      using Suc.prems False by (intro Suc.IH) auto
    ultimately show ?thesis using Suc.prems(1) by (simp add: entry_at_def)
  next
    case True
    let ?nm = "entry_name (files s ! j)"
    have rm: "execute_rm n (NameOf j) True k = Stop OutOfFuel k \<or>
        execute_rm n (NameOf j) True k = Ret () (show_text (''File not found: '' @ ?nm @ NL) k)"
    proof (cases n)
      case (Suc m)
      have "find_in_cwd ?nm (\<lambda>_. True) k = None" using lost Suc.prems(1) by (simp add: find_in_cwd_def)
      moreover have "deref (NameOf j) k = ?nm" using Suc.prems(1) by (simp add: deref_def entry_at_def)
      moreover have "printf (''File not found: '' @ ''%s'' @ NL) [Str ?nm] k =
          Ret () (show_text (''File not found: '' @ ?nm @ NL) k)"
        using len Suc.prems(2) is_cstr_entry_name [of "files s ! j"]
        by (intro printf_name) (auto simp: is_cstr_def)
      ultimately show ?thesis using Suc by simp
    qed simp
    have again: "\<exists>k'. rm_children n dir j (show_text t k) = Stop OutOfFuel k'" for t
      using Suc.prems True by (intro Suc.IH) simp_all
    show ?thesis
      using rm
    proof
      assume "execute_rm n (NameOf j) True k = Stop OutOfFuel k"
      then show ?thesis using True j Suc.prems(1) by (simp add: entry_at_def cmd_simps)
    next
      assume "execute_rm n (NameOf j) True k = Ret () (show_text (''File not found: '' @ ?nm @ NL) k)"
      then show ?thesis using True j Suc.prems(1) again by (simp add: entry_at_def cmd_simps)
    qed
  qed
qed simp

section \<open>Appending\<close>

text \<open>The separator an append puts after contents that do not end in a newline.\<close>

definition line_sep :: "string \<Rightarrow> string" where
  "line_sep c = (if c \<noteq> [] \<and> last c \<noteq> CHR 0x0A then NL else [])"

lemma append_buffer_eq:
  fixes c t :: string
  assumes c: "is_cstr c" "length c < MAX_FILE_SIZE"
  defines "new \<equiv> c @ line_sep c @ t"
  shows "append_buffer (int (length c)) (c @ replicate (MAX_FILE_SIZE - length c) NUL) t =
    (if length new < MAX_FILE_SIZE then Inr (new @ NUL # replicate (MAX_FILE_SIZE - 1 - length new) NUL)
     else Inl OutOfBounds)"
proof -
  let ?m = "length c"
  obtain r where r: "MAX_FILE_SIZE - ?m = Suc r" "r = MAX_FILE_SIZE - 1 - ?m"
    using c(2) by (cases "MAX_FILE_SIZE - ?m") auto
  have w: "write_at (c @ replicate (MAX_FILE_SIZE - ?m) NUL) ?m NUL = Inr (c @ NUL # replicate r NUL)"
    unfolding r(1) by (simp add: write_at_def)
  have cp: "strcpy (replicate MAX_FILE_SIZE NUL) c = Inr (c @ NUL # replicate r NUL)"
    unfolding strcpy_eq using c(2) r(2) by (simp del: replicate.simps)
  have last: "(c @ NUL # replicate r NUL) ! nat (int ?m - 1) = last c" if "c \<noteq> []"
  proof -
    have "nat (int ?m - 1) = ?m - 1" "?m - 1 < ?m" using that by (simp_all add: nat_diff_distrib)
    then show ?thesis using that by (simp add: nth_append last_conv_nth)
  qed
  have sep: "(if int ?m > 0 \<and> (c @ NUL # replicate r NUL) ! nat (int ?m - 1) \<noteq> CHR 0x0A
       then strcat (c @ NUL # replicate r NUL) NL else Inr (c @ NUL # replicate r NUL)) =
     (if length (line_sep c) \<le> r then Inr ((c @ line_sep c) @ NUL # replicate (r - length (line_sep c)) NUL)
      else Inl OutOfBounds)"
    using last c(1) by (cases "c = []") (auto simp: line_sep_def strcat_eq)
  have sc: "is_cstr (c @ line_sep c)" using c(1) by (auto simp: line_sep_def is_cstr_def)
  have "append_buffer (int ?m) (c @ replicate (MAX_FILE_SIZE - ?m) NUL) t =
    sbind (if length (line_sep c) \<le> r then Inr ((c @ line_sep c) @ NUL # replicate (r - length (line_sep c)) NUL)
      else Inl OutOfBounds) (\<lambda>new1. strcat new1 t)"
    unfolding append_buffer_def nat_int w sbind_simps cstr_terminated [OF c(1)] cp sep ..
  also have "\<dots> = (if length new < MAX_FILE_SIZE then Inr (new @ NUL # replicate (MAX_FILE_SIZE - 1 - length new) NUL)
     else Inl OutOfBounds)"
    using strcat_eq [OF sc, of "replicate (r - length (line_sep c)) NUL" t] r c(2)
    by (auto simp: new_def)
  finally show ?thesis .
qed

lemma room_atime:
  assumes inv: "fs_data_inv s" and x: "ino_ix n < MAX_INODES" "y < MAX_INODES"
  shows "room (upd_inode n (\<lambda>ino. ino\<lparr>i_atime := ticks\<rparr>) s) y = room s y"
  using nth_upd_inode [OF fs_data_invD(1) [OF inv] x(2), of n]
  by (simp add: room_def owns_def blk_def)

lemma touch_atime_fs:
  assumes inv: "fs_inv (fs k)" and v: "valid_ino n"
  shows "fs_inv (fs (touch_atime n k))" "\<And>m. m < MAX_INODES \<Longrightarrow> content (fs (touch_atime n k)) m = content (fs k) m"
    "\<And>m. m < MAX_INODES \<Longrightarrow> inode_taken (fs (touch_atime n k)) m = inode_taken (fs k) m"
    "\<And>m. m < MAX_INODES \<Longrightarrow> room (fs (touch_atime n k)) m = room (fs k) m"
    "con (touch_atime n k) = con k" "current_inode (fs (touch_atime n k)) = current_inode (fs k)" "entries (fs (touch_atime n k)) = entries (fs k)"
  using atime_inv [OF inv v] atime_frame [OF fs_invD(1) [OF inv] ino_ix_lt [OF v]]
    room_atime [OF fs_invD(1) [OF inv] ino_ix_lt [OF v]]
  by (simp_all add: touch_atime_def on_fs_def entries_def)

lemma append_to_eq:
  assumes inv: "fs_inv (fs k)" and v: "valid_ino n" "inode_taken (fs k) (ino_ix n)"
    and c: "content (fs k) (ino_ix n) = c" "is_cstr c" "length c < MAX_FILE_SIZE" and t: "is_cstr t"
  defines "new \<equiv> c @ line_sep c @ t"
  assumes room: "blocks_for (length new) \<le> room (fs k) (ino_ix n)"
  shows "if length new < MAX_FILE_SIZE
    then \<exists>s. append_to n t ok k = ok ((touch_atime n k)\<lparr>fs := s\<rparr>) \<and> fs_inv s \<and> content s (ino_ix n) = new
    else \<exists>k'. append_to n t ok k = Stop (Fault OutOfBounds) k'"
proof -
  have x: "ino_ix n < MAX_INODES" using ino_ix_lt [OF v(1)] .
  note T = touch_atime_fs [OF inv v(1)]
  have r: "read_file n MAX_FILE_SIZE (of_nat (MAX_FILE_SIZE - 1)) k =
      Ret (int (length c), c @ replicate (MAX_FILE_SIZE - length c) NUL) (touch_atime n k)"
    using read_file_ok [OF inv v(1), of "of_nat (MAX_FILE_SIZE - 1)" MAX_FILE_SIZE] c
    by (simp add: min_absorb2)
  note b = append_buffer_eq [OF c(2,3), of t, folded new_def]
  show ?thesis
  proof (cases "length new < MAX_FILE_SIZE")
    case False
    then show ?thesis using r b by (simp add: append_to_def bindc_def lift_sum_def)
  next
    case True
    let ?buf = "new @ NUL # replicate (MAX_FILE_SIZE - 1 - length new) NUL"
    have sc: "is_cstr new" using c(2) t by (auto simp: new_def line_sep_def is_cstr_def)
    have u: "unat (of_nat (length new) :: u32) = length new" using True by simp
    obtain s where w: "write_file n ?buf (of_nat (length new)) (touch_atime n k) =
        Ret FS_SUCCESS ((touch_atime n k)\<lparr>fs := s\<rparr>)"
      "stored (fs (touch_atime n k)) (ino_ix n) (take (length new) ?buf) s" "fs_inv s"
      using write_file_ok [OF T(1) v(1), of "of_nat (length new)" ?buf] T(3,4) [OF x] v(2) room True u by auto
    then have "content s (ino_ix n) = new" by (simp add: stored_def)
    then show ?thesis using r b w True sc by (auto simp: append_to_def bindc_def lift_sum_def)
  qed
qed

end
