(* ===== verification/Boot_Props.thy ===== *)
theory Boot_Props imports Boot File_Props begin

text \<open>
  The state the first login screen starts from, and the properties of booting and of the file
  commands, with that state as the input of their witnesses.
\<close>

section \<open>The booted kernel\<close>

lemma reset_static: "reset_tables static_bkfs = static_bkfs"
  by (simp add: reset_tables_def static_bkfs_def)

definition eth0 :: net_device where
  "eth0 = zero_net\<lparr>dev_name := ''eth0'' @ replicate 12 NUL,
     mac := [0x52, 0x54, 0x00, 0x12, 0x34, 0x56], dhcp_enabled := True\<rparr>"

lemma network_init_eq: "network_init k = Ret () (k\<lparr>net_dev := eth0\<rparr>)"
  by (simp add: network_init_def strcpy_eq eth0_def numeral_eq_Suc)

definition program_timer :: "kernel \<Rightarrow> kernel" where
  "program_timer k = (on_con (steps [outb PIT_COMMAND 0x36, outb PIT_CHANNEL0 0x17, outb PIT_CHANNEL0 0x00]) k)
     \<lparr>boot_time := timer_ticks k\<rparr>"

lemma init_timer_eq: "init_timer k = Ret () (program_timer k)"
  by (simp add: init_timer_def timer_divisor_def cmd_simps program_timer_def on_con_def)

definition boot_kernel :: "(nat \<Rightarrow> u16) \<Rightarrow> u8 list \<Rightarrow> kernel" where
  "boot_kernel vram input = program_timer (show_text (''Change name'' @ NL)
     ((static_kernel vram input)\<lparr>con := terminal_initialize (static_console vram), net_dev := eth0,
        fs := boot_table boot_entries\<rparr>))"

lemma kernel_boot_eq: "kernel_boot (static_kernel vram input) = Ret () (boot_kernel vram input)"
proof -
  let ?k0 = "(static_kernel vram input)\<lparr>con := terminal_initialize (static_console vram)\<rparr>"
  let ?k1 = "?k0\<lparr>net_dev := eth0\<rparr>"
  have c: "on_con terminal_initialize (static_kernel vram input) = ?k0"
    by (simp add: on_con_def static_kernel_def)
  have f: "on_fs reset_tables ?k1 = ?k1"
    by (simp add: on_fs_def static_kernel_def reset_static)
  have "at_boot [] ?k1" by (simp add: at_boot_def static_kernel_def boot_table_Nil)
  note b = boot_tree_eq [OF this]
  show ?thesis
    by (simp add: kernel_boot_def cmd_simps network_init_eq c f b init_timer_eq boot_kernel_def)
qed

lemma boot_inv_step:
  assumes "fs_inv (boot_table es)" and "length es < 123" and "is_cstr name" and "length name \<le> 30"
  shows "fs_inv (boot_table (es @ [boot_entry name (Suc (length es)) parent type]))"
  using create_entry_ok [OF assms(1) _ assms(3,4), of 0 parent type] create_boot [OF assms(2-4), of parent type] assms(2)
  by (auto simp: created_def)

lemma boot_inv_specs:
  "fs_inv (boot_table es) \<Longrightarrow> length es + length names \<le> 123 \<Longrightarrow>
   \<forall>n \<in> set names. is_cstr n \<and> length n \<le> 30 \<Longrightarrow>
   fs_inv (boot_table (es @ boot_specs (length es) parent type names))"
proof (induction names arbitrary: es)
  case (Cons name names)
  let ?es = "es @ [boot_entry name (Suc (length es)) parent type]"
  have "fs_inv (boot_table ?es)" using Cons.prems by (intro boot_inv_step) simp_all
  then have "fs_inv (boot_table (?es @ boot_specs (length ?es) parent type names))"
    using Cons.prems by (intro Cons.IH) simp_all
  then show ?case by simp
qed simp

lemma boot_table_inv: "fs_inv (boot_table boot_entries)"
proof -
  have n: "\<forall>n \<in> set names. is_cstr n \<and> length n \<le> 30"
    if "names \<in> {[''root''], [''bin'', ''etc'', ''home'', ''dev'', ''tmp'', ''sys''], [''fetch''],
      [''sda'', ''sda1'', ''sdb1'', ''sdb'', ''vga'', ''vga1'', ''vga2'', ''null'', ''random''],
      [''ush'', ''ls'', ''cat'', ''echo'']}" for names
    using that by (auto simp: is_cstr_def)
  have "fs_inv (boot_table [])" by (simp add: boot_table_Nil static_bkfs_inv)
  note a = boot_inv_specs [OF this _ n, of "[''root'']" 1 FILE_DIR]
  define e1 where "e1 = [] @ boot_specs (length ([] :: file_entry list)) 1 FILE_DIR [''root'']"
  have i1: "fs_inv (boot_table e1)" unfolding e1_def by (rule a) simp_all
  define e2 where "e2 = e1 @ boot_specs (length e1) 1 FILE_DIR [''bin'', ''etc'', ''home'', ''dev'', ''tmp'', ''sys'']"
  have i2: "fs_inv (boot_table e2)" unfolding e2_def by (rule boot_inv_specs [OF i1 _ n]) (simp_all add: e1_def)
  define e3 where "e3 = e2 @ boot_specs (length e2) 1 FILE_REGULAR [''fetch'']"
  have i3: "fs_inv (boot_table e3)" unfolding e3_def by (rule boot_inv_specs [OF i2 _ n]) (simp_all add: e1_def e2_def)
  define e4 where "e4 = e3 @ boot_specs (length e3) 5 FILE_REGULAR
    [''sda'', ''sda1'', ''sdb1'', ''sdb'', ''vga'', ''vga1'', ''vga2'', ''null'', ''random'']"
  have i4: "fs_inv (boot_table e4)" unfolding e4_def
    by (rule boot_inv_specs [OF i3 _ n]) (simp_all add: e1_def e2_def e3_def)
  define e5 where "e5 = e4 @ boot_specs (length e4) 2 FILE_REGULAR [''ush'', ''ls'', ''cat'', ''echo'']"
  have i5: "fs_inv (boot_table e5)" unfolding e5_def
    by (rule boot_inv_specs [OF i4 _ n]) (simp_all add: e1_def e2_def e3_def e4_def)
  have "e5 = boot_entries" by (simp add: e1_def e2_def e3_def e4_def e5_def boot_entries_def eval_nat_numeral)
  then show ?thesis using i5 by simp
qed

lemma boot_kernel_frame [simp]:
  "fs (boot_kernel vram input) = boot_table boot_entries" "io_in (boot_kernel vram input) = input"
  "timer_ticks (boot_kernel vram input) = 0" "net_dev (boot_kernel vram input) = eth0"
  "proc (boot_kernel vram input) = proc (static_kernel vram input)"
  "hist (boot_kernel vram input) = hist (static_kernel vram input)"
  "keys (boot_kernel vram input) = keys (static_kernel vram input)"
  "mice (boot_kernel vram input) = mice (static_kernel vram input)"
  by (simp_all add: boot_kernel_def program_timer_def) (simp_all add: static_kernel_def show_text_def on_con_def)

lemma terminal_initialize_frame [simp]:
  "smouse_mode (terminal_initialize c) = smouse_mode c"
  "current_tty (terminal_initialize c) = 0" "length (ttys (terminal_initialize c)) = length (ttys c)"
  by (simp_all add: terminal_initialize_def terminal_clear_eq terminal_setcolor_def initialize_ttys_def Let_def)

lemma boot_kernel_con [simp]:
  "smouse_mode (con (boot_kernel vram input)) = False" "current_tty (con (boot_kernel vram input)) = 0"
  "length (ttys (con (boot_kernel vram input))) = MAX_TTYS"
  by (simp_all add: boot_kernel_def program_timer_def on_con_def)
    (simp_all add: static_console_def show_text_def on_con_def)

section \<open>Looking up in the booted tree\<close>

lemma entry_at_boot: "i < length boot_entries \<Longrightarrow> entry_at (5 + i) (boot_kernel vram input) = boot_entries ! i"
  using boot_files [of "5 + i" boot_entries] by (simp add: entry_at_def)

lemma find_boot:
  assumes "is_cstr name" and "name \<noteq> []"
  shows "find_in_cwd name p (boot_kernel vram input) =
    (case find_pos (\<lambda>f. f_parent_inode f = 1 \<and> entry_name f = name \<and> p f) boot_entries of
       None \<Rightarrow> None | Some i \<Rightarrow> Some (5 + i))"
proof -
  have z: "strcmp (entry_name f) name = 0 \<longleftrightarrow> entry_name f = name" for f
    using strcmp_zero [OF is_cstr_entry_name assms(1)] .
  show ?thesis
    unfolding find_in_cwd_def z using assms(2)
    by (simp add: find_in_table zero_file_def)
qed

lemmas boot_eval = boot_entries_def is_cstr_def is_regular_def is_dir_def

lemma boot_find_dev:
  "find_in_cwd ''dev'' (\<lambda>_. True) (boot_kernel vram input) = Some 9"
  "find_in_cwd ''fetch'' p (boot_kernel vram input) = (if p (boot_entry ''fetch'' 8 1 FILE_REGULAR) then Some 12 else None)"
  "find_in_cwd ''sda'' (\<lambda>_. True) (boot_kernel vram input) = None"
  by (simp_all add: find_boot boot_eval)

lemma boot_at_dev:
  "entry_at 9 (boot_kernel vram input) = boot_entry ''dev'' 5 1 FILE_DIR"
  "entry_at 12 (boot_kernel vram input) = boot_entry ''fetch'' 8 1 FILE_REGULAR"
  "entry_at 13 (boot_kernel vram input) = boot_entry ''sda'' 9 5 FILE_REGULAR"
  using entry_at_boot [of 4 vram input] entry_at_boot [of 7 vram input] entry_at_boot [of 8 vram input]
  by (simp_all add: boot_entries_def numeral_eq_Suc)

lemma find_entry_cwd [simp]: "find_entry p (s\<lparr>current_inode := n\<rparr>) = find_entry p s"
  by (simp add: find_entry_def)

lemma boot_not_exists:
  "\<not> file_exists_in_current_dir ''notes'' (boot_table boot_entries)"
  by (subst exists_boot) (simp_all add: boot_eval root_name_def)

lemma boot_free [simp]: "free_blocks (boot_table es) = 1024" "length boot_entries = 21"
  by (simp_all add: boot_table_def static_bkfs_def boot_entries_def)

lemma boot_no_content: "m < MAX_INODES \<Longrightarrow> content (boot_table es) m = []"
  by (simp add: content_def boot_table_def boot_inode_def zero_inode_def nth_append)

section \<open>Properties of booting\<close>

text \<open>C7: Booting, from any video memory and before any key is pressed, does not fault and builds a
  consistent file system whose directory table holds exactly the 21 listed entries: name, inode
  number, number of the directory, type.\<close>

theorem boot_builds_tree:
  "\<exists>k. kernel_boot (static_kernel vram input) = Ret () k \<and> fs_inv (fs k) \<and> io_in k = input \<and>
    map (\<lambda>f. (entry_name f, f_inode f, f_parent_inode f, f_type f)) (drop 5 (entries (fs k))) =
     [(''root'', 1, 1, 1), (''bin'', 2, 1, 1), (''etc'', 3, 1, 1), (''home'', 4, 1, 1), (''dev'', 5, 1, 1),
      (''tmp'', 6, 1, 1), (''sys'', 7, 1, 1), (''fetch'', 8, 1, 0), (''sda'', 9, 5, 0), (''sda1'', 10, 5, 0),
      (''sdb1'', 11, 5, 0), (''sdb'', 12, 5, 0), (''vga'', 13, 5, 0), (''vga1'', 14, 5, 0), (''vga2'', 15, 5, 0),
      (''null'', 16, 5, 0), (''random'', 17, 5, 0), (''ush'', 18, 2, 0), (''ls'', 19, 2, 0), (''cat'', 20, 2, 0),
      (''echo'', 21, 2, 0)]"
proof -
  have "entries (boot_table boot_entries) = replicate 5 zero_file @ boot_entries"
    by (simp add: entries_def boot_table_def)
  then have "drop 5 (entries (boot_table boot_entries)) = boot_entries" by simp
  then show ?thesis
    using kernel_boot_eq [of vram input] boot_table_inv
    by (intro exI [of _ "boot_kernel vram input"]) (simp add: boot_eval)
qed

text \<open>The file \<open>/bin/fetch\<close> is never created: its name is checked against the working directory,
  the root, where \<open>fetch\<close> exists, so booting prints a refusal on the first row and no block is used.\<close>

theorem boot_bin_fetch_missing:
  "\<exists>k. kernel_boot (static_kernel vram input) = Ret () k \<and>
    (\<nexists>f. f \<in> set (entries (fs k)) \<and> f_parent_inode f = 2 \<and> entry_name f = ''fetch'') \<and>
    free_blocks (fs k) = of_nat MAX_BLOCKS \<and>
    terminal_buffer (con k) = terminal_buffer (terminal_writestring (''Change name'' @ NL)
      (terminal_initialize (static_console vram)))"
proof -
  have e: "set (entries (boot_table boot_entries)) = insert zero_file (set boot_entries)"
    by (simp add: entries_def boot_table_def)
  have "\<forall>f \<in> set boot_entries. \<not> (f_parent_inode f = 2 \<and> entry_name f = ''fetch'')"
    by (simp add: boot_eval)
  then have n: "\<nexists>f. f \<in> set (entries (fs (boot_kernel vram input))) \<and> f_parent_inode f = 2 \<and> entry_name f = ''fetch''"
    unfolding boot_kernel_frame e by (auto simp: zero_file_def)
  have "terminal_buffer (con (boot_kernel vram input)) = terminal_buffer (terminal_writestring (''Change name'' @ NL)
      (terminal_initialize (static_console vram)))"
    by (simp add: boot_kernel_def program_timer_def on_con_def show_text_def)
  then show ?thesis using n kernel_boot_eq [of vram input] by (intro exI [of _ "boot_kernel vram input"]) simp
qed

text \<open>The divisor of the timer does not fit the 16 bits of the device: of 65559 only the low 16
  bits, 23, are written, so the timer runs 2850 times too fast.\<close>

theorem timer_divisor_truncated:
  "\<exists>k'. init_timer k = Ret () k' \<and> unat timer_divisor = 65559 \<and>
    io_trace (con k') = OutB 0x40 0 # OutB 0x40 23 # OutB 0x43 0x36 # io_trace (con k)"
  using init_timer_eq [of k]
  by (intro exI [of _ "program_timer k"]) (simp add: program_timer_def outb_def timer_divisor_def)

section \<open>Properties of the file commands\<close>

text \<open>C26: \<open>ls\<close> prints the entries of the working directory in table order, a slash and a blank after
  a directory, two blanks after a file, and nothing else in the machine changes.\<close>

theorem ls_prints_directory:
  assumes "fs_inv (fs k)"
  shows "execute_ls k = Ret () (show_text (ls_text (fs k) @ NL) k)"
  using execute_ls_eq [OF assms] .

theorem ls_prints_directory_witness:
  "execute_ls (boot_kernel (\<lambda>_. 0) []) = Ret ()
    (show_text (''root/ bin/ etc/ home/ dev/ tmp/ sys/ fetch  '' @ NL) (boot_kernel (\<lambda>_. 0) []))"
proof -
  have e: "entries (boot_table boot_entries) = replicate 5 zero_file @ boot_entries"
    by (simp add: entries_def boot_table_def)
  have z: "filter (\<lambda>f. f_parent_inode f = 1) (replicate 5 zero_file) = []"
    by (simp add: zero_file_def filter_empty_conv)
  have "ls_text (boot_table boot_entries) = ''root/ bin/ etc/ home/ dev/ tmp/ sys/ fetch  ''"
    unfolding ls_text_def e boot_table_frame filter_append z by (simp add: boot_eval)
  then show ?thesis using ls_prints_directory [of "boot_kernel (\<lambda>_. 0) []"] boot_table_inv by simp
qed

text \<open>C8: From \<open>echo text > name\<close> to \<open>cat name\<close>: with a valid new name, room in the tables and a text of
  at most one block, the file is created and \<open>cat\<close> then prints the text and a line break.\<close>

theorem redirect_then_cat:
  assumes "fs_inv (fs k)" and "is_valid_filename name" and "is_cstr name" and "length name \<le> 30"
    and "\<not> file_exists_in_current_dir name (fs k)" and "file_count (fs k) < MAX_FILES"
    and "free_blocks (fs k) \<noteq> 0" and "length t \<le> BLOCK_SIZE"
  shows "\<exists>k1 k2. execute_redirect_output (Some name) (Some t) k = Ret () k1 \<and>
    execute_cat (Some name) k1 = Ret () k2 \<and>
    con k1 = terminal_writestring (''File created and text written'' @ NL) (con k) \<and>
    con k2 = terminal_writestring (t @ NL) (con k1)"
proof -
  let ?m = "''File created and text written'' @ NL"
  obtain s e where R: "execute_redirect_output (Some name) (Some t) k = Ret () (show_text ?m (k\<lparr>fs := s\<rparr>))"
    "fs_inv s" "find_in_cwd name is_regular (k\<lparr>fs := s\<rparr>) = Some (file_count (fs k))"
    "entry_at (file_count (fs k)) (k\<lparr>fs := s\<rparr>) = e" "valid_ino (f_inode e)" "content s (ino_ix (f_inode e)) = t"
    using redirect_new_file [OF assms] by blast
  let ?k1 = "show_text ?m (k\<lparr>fs := s\<rparr>)"
  have f: "find_in_cwd name is_regular ?k1 = Some (file_count (fs k))" "entry_at (file_count (fs k)) ?k1 = e"
    using R(3,4) by (simp_all add: find_in_cwd_def entry_at_def)
  have "execute_cat (Some name) ?k1 = Ret () (show_text (t @ NL) (touch_atime (f_inode e) ?k1))"
    using execute_cat_eq [of ?k1 name, OF _ f(1)] R(2,5,6) f(2) assms(8) by simp
  moreover have "con (show_text (t @ NL) (touch_atime (f_inode e) ?k1)) = terminal_writestring (t @ NL) (con ?k1)"
    "con ?k1 = terminal_writestring ?m (con k)"
    by (simp_all add: show_text_def on_con_def touch_atime_def on_fs_def)
  ultimately show ?thesis using R(1) by metis
qed

theorem redirect_then_cat_witness:
  "\<exists>k1 k2. execute_redirect_output (Some ''notes'') (Some ''hello'') (boot_kernel (\<lambda>_. 0) []) = Ret () k1 \<and>
    execute_cat (Some ''notes'') k1 = Ret () k2 \<and> con k2 = terminal_writestring (''hello'' @ NL) (con k1)"
  using redirect_then_cat [of "boot_kernel (\<lambda>_. 0) []" "''notes''" "''hello''"] boot_table_inv boot_not_exists
  by (auto simp: is_valid_filename_def invalid_chars_def is_cstr_def)

text \<open>C24: \<open>echo text >> name\<close> on an existing text file replaces its contents by the old text, a newline
  if that does not end in one, and the new text, as long as the result with its terminator fits the
  4096 byte array; a longer result overruns the array on the stack.\<close>

theorem append_stores_or_overruns:
  assumes "fs_inv (fs k)" and "is_cstr name" and "name \<noteq> []" and "find_in_cwd name is_regular k = Some i"
    and "c = content (fs k) (ino_ix (f_inode (entry_at i k)))" and "is_cstr c" and "length c < MAX_FILE_SIZE"
    and "is_cstr t" and "blocks_for (length (c @ line_sep c @ t)) \<le> room (fs k) (ino_ix (f_inode (entry_at i k)))"
  shows "if length (c @ line_sep c @ t) < MAX_FILE_SIZE
    then \<exists>k'. execute_append_output (Some name) (Some t) k = Ret () k' \<and> fs_inv (fs k') \<and>
      content (fs k') (ino_ix (f_inode (entry_at i k))) = c @ line_sep c @ t \<and> con k' = con k
    else \<exists>k'. execute_append_output (Some name) (Some t) k = Stop (Fault OutOfBounds) k'"
proof -
  note E = find_in_cwd_entry [OF assms(1,4,2,3)]
  have a: "execute_append_output (Some name) (Some t) k = append_to (f_inode (entry_at i k)) t (ret ()) k"
    using assms(4) by (simp add: execute_append_output_def)
  note A = append_to_eq [OF assms(1) E(3,4) assms(5) [symmetric] assms(6-9), of "ret ()"]
  show ?thesis
  proof (cases "length (c @ line_sep c @ t) < MAX_FILE_SIZE")
    case True
    then obtain s where "append_to (f_inode (entry_at i k)) t (ret ()) k =
        Ret () ((touch_atime (f_inode (entry_at i k)) k)\<lparr>fs := s\<rparr>)" "fs_inv s"
      "content s (ino_ix (f_inode (entry_at i k))) = c @ line_sep c @ t"
      using A by (auto simp: ret_def)
    then show ?thesis using True a by (simp add: touch_atime_def on_fs_def)
  next
    case False
    then show ?thesis using A a by simp
  qed
qed

theorem append_stores_or_overruns_witness:
  "\<exists>k'. execute_append_output (Some ''fetch'') (Some ''hi'') (boot_kernel (\<lambda>_. 0) []) = Ret () k' \<and>
    content (fs k') 7 = ''hi''"
proof -
  let ?k = "boot_kernel (\<lambda>_. 0) []"
  have f: "find_in_cwd ''fetch'' is_regular ?k = Some 12" "f_inode (entry_at 12 ?k) = 8"
    using boot_find_dev(2) [where vram = "\<lambda>_. 0" and input = "[]"] boot_at_dev(2) by (simp_all add: is_regular_def)
  have ix: "ino_ix 8 = 7" by (simp add: ino_ix_def)
  have r: "1 \<le> room (fs ?k) 7"
    using free_blocks_room [OF fs_invD(1) [OF boot_table_inv], of 7] by simp
  show ?thesis
    using append_stores_or_overruns [of ?k "''fetch''" 12 "[]" "''hi''"] boot_table_inv f ix r
      boot_no_content [of 7 boot_entries]
    by (auto simp: is_cstr_def line_sep_def blocks_for_def)
qed

text \<open>C14: \<open>rm\<close> on a regular file of the working directory removes exactly that file and says so: its entry is
  cut out, its inode and its blocks other than block 0, which is never returned, are free, and every other
  file is as before.\<close>

theorem rm_deletes_file:
  assumes "fs_inv (fs k)" and "find_in_cwd name (\<lambda>_. True) k = Some i" and "\<not> is_dir (entry_at i k)"
    and "is_cstr name" and "name \<noteq> []" and "length name < 200" and "\<not> smouse_mode (con k)"
  shows "\<exists>k'. execute_rm (Suc n) (Text name) recursive k = Ret () k' \<and>
    deleted (fs k) (f_inode (entry_at i k)) (fs k') \<and>
    con k' = terminal_writestring ([CHR 0x27] @ name @ [CHR 0x27] @ '' deleted'' @ NL) (con k)"
  using execute_rm_file [OF assms, of n recursive] by (simp add: show_text_def on_con_def on_fs_def)

theorem rm_deletes_file_witness:
  "\<exists>k'. execute_rm 1 (Text ''fetch'') False (boot_kernel (\<lambda>_. 0) []) = Ret () k' \<and>
    deleted (boot_table boot_entries) 8 (fs k')"
  using rm_deletes_file [of "boot_kernel (\<lambda>_. 0) []" "''fetch''" 12 0 False] boot_table_inv
    boot_find_dev(2) [where vram = "\<lambda>_. 0" and input = "[]"] boot_at_dev(2)
  by (auto simp: is_dir_def is_cstr_def)

text \<open>C15: \<open>rm -rf\<close> of a directory that is not empty does not come back when the name of its first entry
  does not occur in the working directory, because the recursive call looks there: whatever the
  fuel, it runs out.\<close>

theorem rm_rf_never_returns:
  assumes "fs_inv (fs k)" and "find_in_cwd d (\<lambda>_. True) k = Some i" and "is_dir (entry_at i k)"
    and "j < file_count (fs k)" and "f_parent_inode (entry_at j k) = f_inode (entry_at i k)"
    and "\<forall>j'<j. f_parent_inode (entry_at j' k) \<noteq> f_inode (entry_at i k)"
    and "find_in_cwd (entry_name (entry_at j k)) (\<lambda>_. True) k = None" and "\<not> smouse_mode (con k)"
  shows "\<exists>k'. execute_rm n (Text d) True k = Stop OutOfFuel k'"
proof (cases n)
  case (Suc m)
  have "j < MAX_FILES" using assms(4) fs_data_invD(4) [OF fs_invD(1) [OF assms(1)]] by simp
  then have "length (f_name (entry_at j k)) = 32"
    using fs_data_invD(7) [OF fs_invD(1) [OF assms(1)]] by (simp add: entry_at_def)
  then have "length (entry_name (entry_at j k)) < 200"
    using length_takeWhile_le [of "\<lambda>c. c \<noteq> NUL" "f_name (entry_at j k)"]
    by (simp add: entry_name_def cstr_def)
  then have "\<exists>k'. rm_children m (f_inode (entry_at i k)) 0 k = Stop OutOfFuel k'"
    using rm_children_stuck [of j "fs k" "f_inode (entry_at i k)" 0 k 0 m] assms(4-8)
    by (simp add: entry_at_def find_in_cwd_def)
  then show ?thesis using Suc assms(2,3) by (auto simp: andthen_def bindc_def)
qed simp

theorem rm_rf_never_returns_witness:
  "\<exists>k'. execute_rm 1000 (Text ''dev'') True (boot_kernel (\<lambda>_. 0) []) = Stop OutOfFuel k'"
proof -
  let ?k = "boot_kernel (\<lambda>_. 0) []"
  note B = boot_find_dev [where vram = "\<lambda>_. 0" and input = "[]"] boot_at_dev [of "\<lambda>_. 0" "[]"]
  have "f_parent_inode (entry_at j' ?k) \<noteq> 5" if "j' < 13" for j'
  proof (cases "j' < 5")
    case True
    then show ?thesis using boot_files_static [OF True, of boot_entries]
      by (simp add: entry_at_def zero_file_def)
  next
    case False
    then have "entry_at j' ?k = boot_entries ! (j' - 5)" "j' - 5 < 8"
      using that entry_at_boot [of "j' - 5"] by (simp_all add: boot_entries_def)
    moreover have "\<forall>x \<in> set (take 8 boot_entries). f_parent_inode x \<noteq> 5"
      by (simp add: boot_entries_def)
    ultimately show ?thesis by (auto simp: in_set_conv_nth boot_entries_def less_Suc_eq numeral_eq_Suc)
  qed
  then show ?thesis
    using rm_rf_never_returns [of ?k "''dev''" 9 13 1000] boot_table_inv B by (simp add: is_dir_def is_cstr_def)
qed

text \<open>C25: \<open>pwd\<close> prints the names of the directories from the top, each after a slash, and a final slash,
  when the path fits 256 bytes; a longer path overruns the array.\<close>

theorem pwd_prints_path:
  assumes "below_root (fs k) (current_inode (fs k)) ns"
  shows "if length (path_text ns) + 1 < MAX_PATH_LEN
    then execute_pwd k = Ret () (show_text (path_text ns @ ''/'' @ NL) k)
    else execute_pwd k = Stop (Fault OutOfBounds) k"
proof -
  have "holds (''/'' @ replicate 255 NUL) ''/''"
    by (auto simp: holds_def is_cstr_def numeral_eq_Suc)
  note p = path_loop_ends [OF assms this]
  show ?thesis
  proof (cases "length (path_text ns) + 1 < MAX_PATH_LEN")
    case True
    then obtain path where "path_loop (fs k) (current_inode (fs k)) (''/'' @ replicate 255 NUL) = Some (Inr path)"
      "cstr path = path_text ns @ ''/''"
      using p holds_cstr by (auto simp: add.commute)
    then show ?thesis using True by (simp add: execute_pwd_def cmd_simps show_text_append)
  next
    case False
    then show ?thesis using p by (simp add: execute_pwd_def add.commute)
  qed
qed

theorem pwd_prints_path_witness:
  "execute_pwd (chdir 5 (boot_kernel (\<lambda>_. 0) [])) =
    Ret () (show_text (''/dev/'' @ NL) (chdir 5 (boot_kernel (\<lambda>_. 0) [])))"
proof -
  let ?k = "chdir 5 (boot_kernel (\<lambda>_. 0) [])"
  have s: "fs ?k = (boot_table boot_entries)\<lparr>current_inode := 5\<rparr>" by (simp add: chdir_def on_fs_def)
  have "find_pos (\<lambda>f. f_inode f = 5) boot_entries = Some 4" by (simp add: boot_entries_def)
  then have f: "find_entry (\<lambda>f. f_inode f = 5) (boot_table boot_entries) = Some 9"
    using find_in_table [of "\<lambda>f. f_inode f = 5" boot_entries] by (simp add: zero_file_def)
  have e: "files (boot_table boot_entries) ! 9 = boot_entry ''dev'' 5 1 FILE_DIR"
    using boot_at_dev(1) [of "\<lambda>_. 0" "[]"] by (simp add: entry_at_def)
  have "below_root (fs ?k) 5 ([] @ [entry_name (files (fs ?k) ! 9)])"
    by (rule below_root.child) (simp_all add: s f e below_root.root)
  then have "below_root (fs ?k) (current_inode (fs ?k)) [''dev'']"
    by (simp add: s e is_cstr_def)
  then show ?thesis using pwd_prints_path [of ?k "[''dev'']"] by (simp add: path_text_def)
qed

text \<open>After the working directory has been deleted (its inode has no entry) \<open>pwd\<close> never returns.\<close>

theorem pwd_diverges_when_deleted:
  assumes "current_inode (fs k) \<noteq> 1" and "find_entry (\<lambda>f. f_inode f = current_inode (fs k)) (fs k) = None"
  shows "execute_pwd k = Stop NoReturn k"
  using path_loop_lost [OF assms] by (simp add: execute_pwd_def)

theorem pwd_diverges_when_deleted_witness:
  "execute_pwd (chdir 99 (boot_kernel (\<lambda>_. 0) [])) = Stop NoReturn (chdir 99 (boot_kernel (\<lambda>_. 0) []))"
proof -
  let ?k = "chdir 99 (boot_kernel (\<lambda>_. 0) [])"
  have s: "fs ?k = (boot_table boot_entries)\<lparr>current_inode := 99\<rparr>" by (simp add: chdir_def on_fs_def)
  have "find_pos (\<lambda>f. f_inode f = 99) boot_entries = None" by (simp add: boot_entries_def)
  then have "find_entry (\<lambda>f. f_inode f = 99) (boot_table boot_entries) = None"
    using find_in_table [of "\<lambda>f. f_inode f = 99" boot_entries] by (simp add: zero_file_def)
  then show ?thesis using pwd_diverges_when_deleted [of ?k] by (simp add: s)
qed

end
