(* ===== verification/Shell_Props.thy ===== *)
theory Shell_Props imports Typing History Boot_Props begin

text \<open>
  Properties of the keyboard, the login, the line editor and the history, with the booted kernel as
  the input of the witnesses.
\<close>

section \<open>The booted machine\<close>

text \<open>The booted machine with a user at the keyboard.\<close>

lemma boot_no_modifier [simp]: "no_modifier (boot_kernel vram input)"
  by (simp add: no_modifier_def calm_def) (simp add: static_kernel_def)

lemma boot_ready: "ready (boot_kernel vram (strokes s @ rest)) (strokes s @ rest)"
  using ready_no_modifier [of "boot_kernel vram (strokes s @ rest)"] by simp

lemma typeable_simps [simp]:
  "CHR ''l'' \<in> set typeable" "CHR ''s'' \<in> set typeable" "CHR ''r'' \<in> set typeable"
  "CHR ''o'' \<in> set typeable" "CHR ''t'' \<in> set typeable" "CHR ''1'' \<in> set typeable"
  by (simp_all add: typeable_def plain_chars_def)

section \<open>Login\<close>

lemma typed_frame:
  assumes "typed k t rest k'"
  shows "fs k' = fs k" "hist k' = hist k" "proc k' = proc k" "timer_ticks k' = timer_ticks k"
    "current_tty (con k') = current_tty (con k)" "ttys (con k') = ttys (con k)" "no_modifier k' \<Longrightarrow> io_in k' = rest"
proof -
  have v: "view k' = view (show_text t k)" and i: "ready k' rest" using assms by (simp_all add: typed_def)
  show "fs k' = fs k" "hist k' = hist k" "proc k' = proc k" "timer_ticks k' = timer_ticks k"
    "current_tty (con k') = current_tty (con k)" "ttys (con k') = ttys (con k)"
    using view_frame [OF v] view_con_frame [OF v] by simp_all
  show "no_modifier k' \<Longrightarrow> io_in k' = rest" by (rule ready_unique [OF i])
qed

lemma set_logged_in_frame [simp]:
  "fs (set_logged_in b k) = fs k" "io_in (set_logged_in b k) = io_in k" "hist (set_logged_in b k) = hist k"
  "no_modifier (set_logged_in b k) = no_modifier k" "current_tty (con (set_logged_in b k)) = current_tty (con k)"
  "length (ttys (con (set_logged_in b k))) = length (ttys (con k))"
  "smouse_mode (con (set_logged_in b k)) = smouse_mode (con k)"
  "current_tty (con k) < length (ttys (con k)) \<Longrightarrow>
   tty_logged_in (ttys (con (set_logged_in b k)) ! current_tty (con k)) = b"
  by (simp_all add: set_logged_in_def no_modifier_def calm_def upd_tty_def)

lemma login_result:
  assumes "no_modifier k" and "current_tty (con k) < MAX_TTYS" and "length (ttys (con k)) = MAX_TTYS"
    and "set u \<subseteq> set typeable" and "length u \<le> 31" and "set w \<subseteq> set typeable" and "length w \<le> 31"
    and "io_in k = strokes (u @ NL @ w @ NL) @ rest" and "4 \<le> n"
  shows "\<exists>k'. run regs (n + (length u + length w + 3)) LoginScreen k =
      run regs n (if u = ''root'' \<and> w = ''1'' then ShellCall else LoginScreen) k' \<and>
    io_in k' = rest \<and> fs k' = fs k \<and> hist k' = hist k \<and> no_modifier k' \<and> current_tty (con k') = current_tty (con k) \<and>
    (tty_logged_in (ttys (con k') ! current_tty (con k)) \<longleftrightarrow>
      tty_logged_in (ttys (con k) ! current_tty (con k)) \<or> w = ''1'' \<and> (u = ''root'' \<or> u = ''1''))"
proof -
  let ?c = "current_tty (con k)"
  obtain k1 where k1: "run regs (n + (length u + length w + 3)) LoginScreen k = login_decide (run regs n) u w k1"
    "typed (banner k) (u @ NL @ ''Password: '' @ replicate (length w) (CHR ''*'') @ NL) rest k1" "no_modifier k1"
    using login_types [OF assms(1) _ assms(4-9), of regs] assms(2) by auto
  note f = typed_frame [OF k1(2)]
  have c: "is_cstr u" "is_cstr w" using assms(4,6) typeable_cstr by auto
  have z: "strcmp u ''1'' = 0 \<longleftrightarrow> u = ''1''" "strcmp w ''1'' = 0 \<longleftrightarrow> w = ''1''" "strcmp u ''root'' = 0 \<longleftrightarrow> u = ''root''"
    using c strcmp_zero by simp_all
  let ?green = "if u = ''1'' \<and> w = ''1'' then set_logged_in True (show_text (NL @ ''Welcome to Srunix86 livecd'' @ NL)
      (on_con (terminal_setcolor COLOR_GREEN COLOR_BLACK) k1)) else k1"
  let ?k' = "if u = ''root'' \<and> w = ''1'' then set_logged_in True (show_text (NL @ ''Welcome to Srunix86 livecd'' @ NL) ?green)
    else show_text (NL @ ''login incorrect'' @ NL) ?green"
  have d: "login_decide (run regs n) u w k1 = run regs n (if u = ''root'' \<and> w = ''1'' then ShellCall else LoginScreen) ?k'"
    by (auto simp: login_decide_def z andthen_def bindc_def cmd_simps)
  have "io_in ?k' = rest \<and> fs ?k' = fs k \<and> hist ?k' = hist k \<and> no_modifier ?k' \<and> current_tty (con ?k') = ?c \<and>
    (tty_logged_in (ttys (con ?k') ! ?c) \<longleftrightarrow> tty_logged_in (ttys (con k) ! ?c) \<or> w = ''1'' \<and> (u = ''root'' \<or> u = ''1''))"
  proof -
    have k1f: "current_tty (con k1) = ?c" "length (ttys (con k1)) = MAX_TTYS" "no_modifier k1" "fs k1 = fs k" "io_in k1 = rest" "hist k1 = hist k"
      "tty_logged_in (ttys (con k1) ! ?c) = tty_logged_in (ttys (con k) ! ?c)"
      using f(1-6) f(7) [OF k1(3)] k1(3) assms(1,3) by simp_all
    have nm: "no_modifier (show_text t k) = no_modifier k" "no_modifier (on_con (terminal_setcolor fg bg) k) = no_modifier k" for t fg bg k
      by (simp_all add: no_modifier_def calm_def)
    have sl: "tty_logged_in (ttys (con (set_logged_in b k)) ! ?c) = b" if "current_tty (con k) = ?c" "length (ttys (con k)) = MAX_TTYS" for b k
      using set_logged_in_frame(8) [of k b] that assms(2) by simp
    show ?thesis using k1f assms(1,2) by (auto simp: nm sl)
  qed
  then show ?thesis using k1(1) d by (intro exI [of _ ?k']) simp
qed

text \<open>C9: Whatever user name and password of at most 31 typeable characters are entered, the login ends in
  a shell exactly for \<open>root\<close> with \<open>1\<close> and in a new login screen otherwise; but the terminal also counts
  as logged in after \<open>1\<close> with \<open>1\<close>, which is refused.\<close>

theorem login_outcome:
  assumes "no_modifier k" and "current_tty (con k) < MAX_TTYS" and "length (ttys (con k)) = MAX_TTYS"
    and "set u \<subseteq> set typeable" and "length u \<le> 31" and "set w \<subseteq> set typeable" and "length w \<le> 31"
    and "io_in k = strokes (u @ NL @ w @ NL) @ rest" and "4 \<le> n"
  shows "\<exists>k'. run regs (n + (length u + length w + 3)) LoginScreen k =
      run regs n (if u = ''root'' \<and> w = ''1'' then ShellCall else LoginScreen) k' \<and>
    io_in k' = rest \<and> fs k' = fs k \<and> no_modifier k' \<and> current_tty (con k') = current_tty (con k) \<and>
    (tty_logged_in (ttys (con k') ! current_tty (con k)) \<longleftrightarrow>
      tty_logged_in (ttys (con k) ! current_tty (con k)) \<or> w = ''1'' \<and> (u = ''root'' \<or> u = ''1''))"
  using login_result [OF assms, of regs] by blast

theorem login_outcome_witness:
  "\<exists>k'. run [] 12 LoginScreen (boot_kernel (\<lambda>_. 0) (strokes (''root'' @ NL @ ''1'' @ NL))) = run [] 4 ShellCall k' \<and>
    tty_logged_in (ttys (con k') ! 0)"
  using login_outcome [of "boot_kernel (\<lambda>_. 0) (strokes (''root'' @ NL @ ''1'' @ NL))" "''root''" "''1''" "[]" 4 "[]"]
  by auto

lemma boot_logged_out: "i < 9 \<Longrightarrow> \<not> tty_logged_in (ttys (con (boot_kernel vram input)) ! i)"
  by (simp add: boot_kernel_def program_timer_def)
    (simp add: on_con_def show_text_def terminal_initialize_def initialize_ttys_def terminal_setcolor_def Let_def
      static_console_def terminal_clear_eq del: replicate.simps)

section \<open>Lines and history\<close>

text \<open>A line of 255 characters or more is thrown away: on the 255th character the reading loop ends
  without running anything or touching the history, and the shell prompts again.\<close>

theorem long_line_dropped:
  assumes "ready k (strokes s @ rest)" and "set s \<subseteq> set typeable" and "length s = 255" and "length cmd = MAX_CMD_LEN"
    and "4 \<le> n"
  shows "\<exists>k' line. run regs (n + 256) (ShellRead cmd 0) k = run regs n (ShellPrompt line) k' \<and>
    hist k' = hist k \<and> fs k' = fs k \<and> ready k' rest"
proof -
  obtain line where "run regs (n + Suc (length s)) (ShellRead cmd 0) k = run regs n (ShellPrompt line) (type_text s k)"
    using shell_read_full [OF assms(1,2) _ assms(4,5), of 0 regs] assms(3) by auto
  then show ?thesis using typed_frame [OF type_text_typed [OF assms(1)]] typed_ready [OF type_text_typed [OF assms(1)]] assms(3)
    by (intro exI [of _ "type_text s k"] exI [of _ line]) simp
qed

theorem long_line_dropped_witness:
  "\<exists>k' line. run [] 260 (ShellRead (replicate 256 NUL) 0) (boot_kernel (\<lambda>_. 0) (strokes (replicate 255 (CHR ''l'')))) =
    run [] 4 (ShellPrompt line) k' \<and> fs k' = boot_table boot_entries"
proof -
  have "set (replicate 255 (CHR ''l'')) \<subseteq> set typeable" by (simp del: replicate.simps)
  then show ?thesis
    using long_line_dropped [of "boot_kernel (\<lambda>_. 0) (strokes (replicate 255 (CHR ''l'')))" "replicate 255 (CHR ''l'')"
        "[]" "replicate 256 NUL" 4 "[]"] boot_ready [of "\<lambda>_. 0" "replicate 255 (CHR ''l'')" "[]"]
    by (simp del: replicate.simps) blast
qed

text \<open>C21: The history implements a bounded log: after any sequence of legal lines, pushed from the
  initial state, it holds the last 100 of them in order, and no push overruns a line.\<close>

theorem history_keeps_last:
  assumes "\<forall>s \<in> set ss. legal_line s"
  shows "\<exists>h. sfold push_history ss (hist (static_kernel vram input)) = Inr h \<and> history_ok h \<and>
    history_lines h = last_n HISTORY_SIZE ss"
  using history_log.push_all [OF static_history(1) assms, of vram input] static_history(2) by simp

theorem history_keeps_last_witness:
  "\<exists>h. sfold push_history (replicate 150 ''ls'' @ [''pwd'']) (hist (static_kernel (\<lambda>_. 0) [])) = Inr h \<and>
    history_lines h = replicate 99 ''ls'' @ [''pwd'']"
proof -
  have l: "last_n HISTORY_SIZE (replicate 150 ''ls'' @ [''pwd'']) = replicate 99 ''ls'' @ [''pwd'']"
    by (simp add: last_n_def del: replicate.simps)
  show ?thesis
    using history_keeps_last [of "replicate 150 ''ls'' @ [''pwd'']" "\<lambda>_. 0" "[]"] l
    by (auto simp: legal_line_def is_cstr_def simp del: replicate.simps)
qed

section \<open>Keys that do not work\<close>

definition history_key :: "char \<Rightarrow> bool" where
  "history_key c \<longleftrightarrow> c \<in> {CHR 0x11, CHR 0x12, CHR 0x13, CHR 0x14}"

lemma maps_no_history_key: "c \<in> set keyboard_map_lower \<union> set keyboard_map_upper \<Longrightarrow> \<not> history_key c"
proof -
  have "list_all (\<lambda>c. c \<notin> set [CHR 0x11, CHR 0x12, CHR 0x13, CHR 0x14]) (keyboard_map_lower @ keyboard_map_upper)"
    by code_simp
  then show "c \<in> set keyboard_map_lower \<union> set keyboard_map_upper \<Longrightarrow> \<not> history_key c"
    by (auto simp: list_all_iff history_key_def)
qed

lemma ctrl_no_history_key:
  assumes "sc \<ge> 0x10" and "sc \<le> (0x1C :: u8)"
  shows "\<not> history_key (char_of (unat (sc - 0x10 + 1)))"
proof -
  have "unat (sc - 0x10) = unat sc - 16" using assms(1) by (simp add: unat_sub)
  moreover have "unat sc \<le> 28" using assms(2) by (simp add: word_le_nat_alt)
  ultimately have u: "unat (sc - 0x10) \<le> 12" by simp
  have "unat (w + 1) \<le> 13" if "unat w \<le> 12" for w :: u8 using that by (simp add: unat_word_ariths)
  from this [OF u] have n: "unat (sc - 0x10 + 1) \<le> 13" .
  have "17 \<le> (of_char c :: nat)" if "history_key c" for c using that by (auto simp: history_key_def)
  moreover have "(of_char (char_of m :: char) :: nat) = m" if "m \<le> 13" for m using that by simp
  ultimately show ?thesis using n by fastforce
qed

lemma key_mapped_no_history:
  assumes "\<And>k c k'. sys KeyboardLoop k = Ret c k' \<Longrightarrow> \<not> history_key c" and "key_mapped sys sc k = Ret c k'"
  shows "\<not> history_key c"
proof -
  have m: "\<not> history_key ch" if "read_at keyboard_map_upper i = Inr ch \<or> read_at keyboard_map_lower i = Inr ch" for i ch
    using that maps_no_history_key [of ch] by (auto simp: read_at_def split: if_splits)
  show ?thesis
    using assms(2) ctrl_no_history_key [of sc]
    by (auto simp: key_mapped_def Let_def returns_iff key_loop_end_def split: if_splits
        dest: assms(1) m [OF disjI1] m [OF disjI2])
qed

lemma key_code_no_history:
  assumes "\<And>k c k'. sys KeyboardLoop k = Ret c k' \<Longrightarrow> \<not> history_key c" and "key_code sys sc k = Ret c k'"
  shows "\<not> history_key c"
proof -
  have h: "sc AND 0x80 \<noteq> 0" if "sc = 0xE0" using that by simp
  have r: "\<not> history_key c" if "key_rest sys sc k = Ret c k'" for k
    using that key_mapped_no_history [OF assms(1)]
    by (auto simp: key_rest_def returns_iff key_loop_end_def history_key_def split: if_splits option.splits
        dest: assms(1) [unfolded history_key_def])
  show ?thesis
    using assms(2) h r by (auto simp: key_code_def returns_iff split: if_splits dest: assms(1))
qed

lemma keys_no_history:
  "(run regs n KeyboardLoop k = Ret c k' \<longrightarrow> \<not> history_key c) \<and>
   (run regs n SmouseKeyLoop k = Ret c k' \<longrightarrow> \<not> history_key c) \<and>
   (run regs n KeyboardGetchar k = Ret c k' \<longrightarrow> \<not> history_key c)"
proof (induction n arbitrary: k c k')
  case 0
  show ?case by (simp add: run_0)
next
  case (Suc n)
  have l: "\<not> history_key c" if "run regs n KeyboardLoop k = Ret c k'" for k c k' using Suc that by blast
  have s: "\<not> history_key c" if "run regs n SmouseKeyLoop k = Ret c k'" for k c k' using Suc that by blast
  show ?case
    using key_code_no_history [of "run regs n", OF l]
    by (auto simp: run_Suc keyboard_loop_def smouse_key_loop_def keyboard_getchar_def key_loop_end_def returns_iff
        split: if_splits dest: l s)
qed

text \<open>C34: \<open>keyboard_getchar\<close> never delivers the four arrow codes the shell waits for: whatever the devices
  send and whatever happens in between, a returned character is none of them, so the history can be
  filled but not recalled.\<close>

theorem history_keys_unreachable:
  assumes "run regs n KeyboardGetchar k = Ret c k'"
  shows "c \<notin> {CHR 0x11, CHR 0x12, CHR 0x13, CHR 0x14}"
  using keys_no_history [of regs n k c k'] assms by (simp add: history_key_def)

theorem history_keys_unreachable_witness:
  "run [] 4 KeyboardGetchar (boot_kernel (\<lambda>_. 0) (strokes ''l'')) =
    Ret (CHR ''l'') (press (CHR ''l'') (boot_kernel (\<lambda>_. 0) (strokes ''l''))) \<and>
   CHR ''l'' \<notin> {CHR 0x11, CHR 0x12, CHR 0x13, CHR 0x14}"
proof -
  have r: "run [] 4 KeyboardGetchar (boot_kernel (\<lambda>_. 0) (strokes ''l'')) =
      Ret (CHR ''l'') (press (CHR ''l'') (boot_kernel (\<lambda>_. 0) (strokes ''l'')))"
    using getchar_types [of "boot_kernel (\<lambda>_. 0) (strokes ''l'')" "CHR ''l''" "[]" 4 "[]"]
      boot_ready [of "\<lambda>_. 0" "''l''" "[]"] by simp
  show ?thesis using history_keys_unreachable [OF r] r by blast
qed

lemma prefix_is_release: "key_code sys 0xE0 k = sys KeyboardLoop k"
  by (simp add: key_code_def key_released_def on_keys_def andthen_def bindc_def act_def)

lemma key_code_overrun:
  assumes "sc \<in> {KEY_UP, KEY_DOWN, KEY_LEFT, KEY_RIGHT}" and "no_modifier k"
  shows "key_code sys sc k = Stop (Fault OutOfBounds) k"
proof -
  have sc: "sc AND 0x80 = 0" "tty_key sc = None" "sc < 0x80" "\<not> unat sc < 59" "sc \<noteq> KEY_F10"
    "sc \<noteq> KEY_LSHIFT" "sc \<noteq> KEY_RSHIFT" "sc \<noteq> KEY_CTRL" "sc \<noteq> KEY_ALT" "sc \<noteq> KEY_CAPSLOCK" "sc \<noteq> 0xE0"
    "sc \<noteq> KEY_ENTER" "sc \<noteq> KEY_BACKSPACE" "sc \<noteq> KEY_ESC" "sc \<noteq> KEY_SPACE"
    using assms(1) by (auto simp: tty_key_def)
  have r: "read_at (if b then keyboard_map_upper else keyboard_map_lower) (unat sc) = Inl OutOfBounds" for b
    using sc(4) by (simp add: read_at_def keyboard_maps)
  have m: "\<not> ctrl_pressed (keys k)" "\<not> alt_pressed (keys k)" using assms(2) by (simp_all add: no_modifier_def calm_def)
  have "key_mapped sys sc k = Stop (Fault OutOfBounds) k"
    using m r by (simp add: key_mapped_def Let_def bindc_def lift_sum_def)
  then show ?thesis using sc by (simp add: key_code_def key_rest_def)
qed

text \<open>C35: Pressing an arrow key, which sends the prefix 0xE0 and a code, reads behind the key map: the
  prefix has its top bit set, so it is taken for the release of a key, and the code is then looked up
  in a map of 59 bytes.\<close>

theorem arrow_key_overruns:
  assumes "no_modifier k" and "sc \<in> {KEY_UP, KEY_DOWN, KEY_LEFT, KEY_RIGHT}" and "io_in k = [1, 0xE0, 1, sc] @ rest"
  shows "\<exists>k'. run regs (n + 3) KeyboardGetchar k = Stop (Fault OutOfBounds) k'"
proof -
  have s: "\<not> smouse_mode (con k)" using assms(1) by (simp add: no_modifier_def calm_def)
  have i: "io_in k = 1 # 0xE0 # 1 # sc # rest" using assms(3) by simp
  have 3: "n + 3 = Suc (Suc (Suc n))" by simp
  have "run regs (n + 3) KeyboardGetchar k = run regs (Suc n) KeyboardLoop (got 0xE0 k)"
    unfolding 3 using s keyboard_loop_got [OF i] prefix_is_release by (simp add: run_Suc(1,2) keyboard_getchar_def)
  also have "\<dots> = key_code (run regs n) sc (got sc (got 0xE0 k))"
    using keyboard_loop_got [of "got 0xE0 k" sc rest] i by (simp add: run_Suc(2))
  also have "\<dots> = Stop (Fault OutOfBounds) (got sc (got 0xE0 k))"
    by (rule key_code_overrun [OF assms(2)]) (simp add: assms(1))
  finally show ?thesis by blast
qed

theorem arrow_key_overruns_witness:
  "\<exists>k'. run [] 3 KeyboardGetchar (boot_kernel (\<lambda>_. 0) [1, 0xE0, 1, 0x48]) = Stop (Fault OutOfBounds) k'"
  using arrow_key_overruns [of "boot_kernel (\<lambda>_. 0) [1, 0xE0, 1, 0x48]" KEY_UP "[]" "[]" 0] by simp

end
