(* ===== verification/Commands.thy ===== *)
theory Commands imports Shell begin

text \<open>
  The command line: cutting a line into words, finding the redirection, joining the words before it,
  and which branch of the dispatcher a line reaches.
\<close>

section \<open>Words\<close>

text \<open>A word: not empty, no blank, no terminator.\<close>

definition word_ok :: "string \<Rightarrow> bool" where
  "word_ok w \<longleftrightarrow> w \<noteq> [] \<and> CHR '' '' \<notin> set w \<and> is_cstr w"

fun unwords :: "string list \<Rightarrow> string" where
  "unwords [] = []"
| "unwords [w] = w"
| "unwords (w # v # ws) = w @ '' '' @ unwords (v # ws)"

lemma unwords_snoc: "ws \<noteq> [] \<Longrightarrow> unwords (ws @ [w]) = unwords ws @ '' '' @ w"
  by (induction ws rule: unwords.induct) auto

lemma is_cstr_unwords: "\<forall>w \<in> set ws. is_cstr w \<Longrightarrow> is_cstr (unwords ws)"
  by (induction ws rule: unwords.induct) auto

lemma word_cut:
  assumes "word_ok w"
  shows "dropWhile (\<lambda>c. c = CHR '' '') (w @ r) = w @ r"
    and "takeWhile (\<lambda>c. c \<noteq> CHR '' '') (w @ CHR '' '' # r) = w"
    and "dropWhile (\<lambda>c. c \<noteq> CHR '' '') (w @ CHR '' '' # r) = CHR '' '' # r"
    and "takeWhile (\<lambda>c. c \<noteq> CHR '' '') w = w" and "dropWhile (\<lambda>c. c \<noteq> CHR '' '') w = []"
proof -
  have n: "\<forall>x \<in> set w. x \<noteq> CHR '' ''" using assms by (auto simp: word_ok_def)
  show "dropWhile (\<lambda>c. c = CHR '' '') (w @ r) = w @ r"
    using assms n by (cases w) (auto simp: word_ok_def)
  show "takeWhile (\<lambda>c. c \<noteq> CHR '' '') (w @ CHR '' '' # r) = w"
    "dropWhile (\<lambda>c. c \<noteq> CHR '' '') (w @ CHR '' '' # r) = CHR '' '' # r"
    "takeWhile (\<lambda>c. c \<noteq> CHR '' '') w = w" "dropWhile (\<lambda>c. c \<noteq> CHR '' '') w = []"
    using n by (simp_all add: takeWhile_append2 dropWhile_append2)
qed

lemma words_of_Cons:
  assumes "word_ok w"
  shows "words_of (Suc n) (w @ CHR '' '' # r) = w # words_of n (CHR '' '' # r)" "words_of (Suc n) w = [w]"
proof -
  obtain c cs where c: "w = c # cs" using assms by (cases w) (auto simp: word_ok_def)
  show "words_of (Suc n) (w @ CHR '' '' # r) = w # words_of n (CHR '' '' # r)"
    using word_cut(1) [OF assms, of "CHR '' '' # r"] word_cut(2,3) [OF assms, of r] unfolding c by simp
  have "words_of n [] = []" for n by (cases n) simp_all
  then show "words_of (Suc n) w = [w]"
    using word_cut(1) [OF assms, of "[]"] word_cut(4,5) [OF assms] unfolding c by simp
qed

lemma words_of_blank: "words_of n (CHR '' '' # r) = words_of n r"
  by (cases n) simp_all

text \<open>Cutting the line gives back the words it was joined from, the first \<open>n\<close> of them.\<close>

lemma words_of_unwords: "\<forall>w \<in> set ws. word_ok w \<Longrightarrow> words_of n (unwords ws) = take n ws"
proof (induction ws arbitrary: n rule: unwords.induct)
  case 1
  then show ?case by (cases n) simp_all
next
  case (2 w)
  then show ?case using words_of_Cons(2) by (cases n) simp_all
next
  case (3 w v ws)
  then show ?case using words_of_Cons(1) [of w] by (cases n) (simp_all add: words_of_blank)
qed

section \<open>Lower case\<close>

abbreviation lower :: "string \<Rightarrow> string" where "lower \<equiv> map lower_char"

lemma schar_cases: "schar c = (if (of_char c :: nat) < 128 then int (of_char c) else int (of_char c) - 256)"
  by (simp add: schar_def uchar_def)

lemma lower_char_letter: "65 \<le> schar c \<Longrightarrow> schar c \<le> 90 \<Longrightarrow> schar (lower_char c) = schar c + 32"
proof -
  assume l: "65 \<le> schar c" "schar c \<le> 90"
  then have n: "schar c = uchar c" "uchar c \<le> 90"
    using uchar_range [of c] by (auto simp: schar_def split: if_splits)
  have "(of_char c :: nat) \<le> 90" using n(2) by (simp add: uchar_def)
  then have "schar (char_of (of_char c + 32 :: nat)) = uchar c + 32"
    by (simp add: schar_def uchar_char_of) (simp add: uchar_def)
  then show ?thesis using l n by (simp add: lower_char_def)
qed

lemma lower_char_other: "\<not> (65 \<le> schar c \<and> schar c \<le> 90) \<Longrightarrow> lower_char c = c"
  by (auto simp: lower_char_def)

lemma lower_char_eq:
  assumes "\<not> (schar d \<ge> 97 \<and> schar d \<le> 122)"
  shows "lower_char c = d \<longleftrightarrow> c = d \<and> \<not> (schar d \<ge> 65 \<and> schar d \<le> 90)"
  using assms lower_char_letter [of c] lower_char_other [of c]
  by (cases "65 \<le> schar c \<and> schar c \<le> 90") auto

lemma lower_char_idem [simp]: "lower_char (lower_char c) = lower_char c"
  using lower_char_letter [of c] lower_char_other [of c] lower_char_other [of "lower_char c"]
  by (cases "65 \<le> schar c \<and> schar c \<le> 90") auto

lemma lower_lower [simp]: "lower (lower s) = lower s" "lower_char \<circ> lower_char = lower_char"
  by (simp_all add: fun_eq_iff)

lemma lower_char_simps [simp]:
  "lower_char c = CHR '' '' \<longleftrightarrow> c = CHR '' ''" "lower_char c = NUL \<longleftrightarrow> c = NUL"
  "lower_char c = CHR ''>'' \<longleftrightarrow> c = CHR ''>''" "lower_char (CHR '' '') = CHR '' ''" "lower_char (CHR ''>'') = CHR ''>''"
  by (simp_all add: lower_char_eq schar_cases)

lemma lower_word: "word_ok w \<Longrightarrow> word_ok (lower w)"
  by (auto simp: word_ok_def is_cstr_def) (metis lower_char_simps(1,2))+

lemma lower_unwords: "lower (unwords ws) = unwords (map lower ws)"
  by (induction ws rule: unwords.induct) simp_all

lemma lower_is_cstr: "is_cstr s \<Longrightarrow> is_cstr (lower s)"
  by (auto simp: is_cstr_def) (metis lower_char_simps(2))

section \<open>The redirection\<close>

lemma is_arrow:
  "is_cstr w \<Longrightarrow> strcmp w ''>'' = 0 \<longleftrightarrow> w = ''>''" "is_cstr w \<Longrightarrow> strcmp w ''>>'' = 0 \<longleftrightarrow> w = ''>>''"
  by (simp_all add: strcmp_zero is_cstr_def)

lemma find_redirect_first:
  assumes "\<forall>w \<in> set ws. is_cstr w \<and> w \<noteq> ''>'' \<and> w \<noteq> ''>>''" and "r = ''>'' \<or> r = ''>>''"
  shows "find_redirect (a # ws @ r # others) = Some (Suc (length ws), r = ''>>'')"
proof -
  let ?args = "a # ws @ r # others"
  let ?p = "\<lambda>i. strcmp (?args ! i) ''>'' = 0 \<or> strcmp (?args ! i) ''>>'' = 0"
  have r: "?args ! Suc (length ws) = r" by simp
  have w: "\<not> ?p i" if i: "1 \<le> i" "i < Suc (length ws)" for i
  proof -
    obtain j where j: "i = Suc j" "j < length ws" using i by (cases i) auto
    then have "?args ! i = ws ! j" "ws ! j \<in> set ws" by (simp_all add: nth_append)
    then show ?thesis using assms(1) is_arrow by fastforce
  qed
  have "List.find ?p [1..<length ?args] = Some (Suc (length ws))"
    unfolding find_Some_iff
  proof (intro exI [of _ "length ws"] conjI allI impI)
    fix j assume j: "j < length ws"
    then have "[1..<length ?args] ! j = Suc j" by (simp del: upt_Suc)
    then show "\<not> ?p ([1..<length ?args] ! j)" using w [of "Suc j"] j by (simp del: upt_Suc)
  next
    show "?p ([1..<length ?args] ! length ws)" using assms(2) r by (auto simp del: upt_Suc)
  qed (simp_all del: upt_Suc)
  moreover have "strcmp r ''>'' \<noteq> 0 \<longleftrightarrow> r = ''>>''" using assms(2) by (auto simp: is_arrow is_cstr_def)
  ultimately show ?thesis unfolding find_redirect_def using r by simp
qed

text \<open>The words before it, joined in an array of 256 bytes.\<close>

lemma holds_strcat:
  assumes "is_cstr s" and "length s + length t < m"
  shows "strcat (s @ replicate (m - length s) NUL) t = Inr ((s @ t) @ replicate (m - length (s @ t)) NUL)"
proof -
  have "replicate (m - length s) NUL = NUL # replicate (m - length s - 1) NUL"
    using assms(2) by (cases "m - length s") simp_all
  moreover have "NUL # drop (length t) (replicate (m - length s - 1) NUL) = replicate (m - length (s @ t)) NUL"
    using assms(2) by (simp add: Suc_diff_le flip: replicate_Suc)
  ultimately show ?thesis
    using strcat_eq [OF assms(1), of "replicate (m - length s - 1) NUL" t] assms(2) by simp
qed

lemma length_unwords_take: "length (unwords (take m ws)) \<le> length (unwords ws)"
proof (induction ws arbitrary: m rule: unwords.induct)
  case (2 w)
  then show ?case by (cases m) simp_all
next
  case (3 w v ws)
  show ?case
  proof (cases m)
    case (Suc n)
    then show ?thesis using 3 [of n] by (cases n) simp_all
  qed simp
qed simp

lemma sfold_upt_Suc: "a \<le> n \<Longrightarrow> sfold f [a..<Suc n] s = sbind (sfold f [a..<n] s) (f n)"
proof -
  assume "a \<le> n"
  moreover have "sbind x (sfold f []) = x" for x by (cases x) simp_all
  then have "sfold f [n] = f n" by (simp only: sfold.simps(2) fun_eq_iff simp_thms)
  ultimately show ?thesis by (simp add: sfold_append)
qed

lemma join_words_upto:
  assumes "\<forall>w \<in> set ws. is_cstr w" and "length (unwords ws) < 256" and "m \<le> length ws"
  shows "join_words (a # ws @ others) (Suc m) =
    Inr (unwords (take m ws) @ replicate (256 - length (unwords (take m ws))) NUL)"
  using assms(3)
proof (induction m)
  case 0
  then show ?case by (simp add: join_words_def)
next
  case (Suc m)
  let ?f = "\<lambda>i text. sbind (if i > 1 then strcat text '' '' else Inr text) (\<lambda>t. strcat t ((a # ws @ others) ! i))"
  let ?u = "unwords (take m ws)" and ?w = "ws ! m"
  have c: "is_cstr ?u" using assms(1) by (intro is_cstr_unwords) (auto dest: in_set_takeD)
  have wc: "(a # ws @ others) ! Suc m = ?w" using Suc.prems by (simp add: nth_append)
  have t: "take (Suc m) ws = take m ws @ [?w]" using Suc.prems by (simp add: take_Suc_conv_app_nth)
  have l: "length (unwords (take (Suc m) ws)) < 256"
    using length_unwords_take [of "Suc m" ws] assms(2) by simp
  have "join_words (a # ws @ others) (Suc (Suc m)) = sbind (join_words (a # ws @ others) (Suc m)) (?f (Suc m))"
    unfolding join_words_def by (rule sfold_upt_Suc) simp
  also have "\<dots> = ?f (Suc m) (?u @ replicate (256 - length ?u) NUL)" using Suc by simp
  also have "\<dots> = Inr (unwords (take (Suc m) ws) @ replicate (256 - length (unwords (take (Suc m) ws))) NUL)"
  proof (cases m)
    case 0
    then show ?thesis using l wc t holds_strcat [of "[]" ?w 256] by simp
  next
    case (Suc j)
    then have u: "unwords (take (Suc m) ws) = ?u @ '' '' @ ?w"
      using t unwords_snoc [of "take m ws" ?w] Suc.prems by (cases ws) simp_all
    have l2: "length ?u + Suc (length ?w) < 256" using l u by simp
    have "strcat (?u @ replicate (256 - length ?u) NUL) '' '' = Inr ((?u @ '' '') @ replicate (256 - length (?u @ '' '')) NUL)"
      by (rule holds_strcat [OF c]) (use l2 in simp)
    moreover have "strcat ((?u @ '' '') @ replicate (256 - length (?u @ '' '')) NUL) ?w =
        Inr (((?u @ '' '') @ ?w) @ replicate (256 - length ((?u @ '' '') @ ?w)) NUL)"
      by (rule holds_strcat) (use c l2 in \<open>simp_all add: is_cstr_def\<close>)
    ultimately show ?thesis using u wc Suc by simp
  qed
  finally show ?case .
qed

end
