(* ===== verification/Command_Props.thy ===== *)
theory Command_Props imports Commands Boot_Props begin

text \<open>
  What a command line does up to the call of its command: redirections of \<open>echo\<close> and \<open>cat\<close>, and
  unknown commands.
\<close>

section \<open>From the line to the words\<close>

lemma execute_command_words:
  assumes "\<forall>w \<in> set args. word_ok w" and "length (unwords args) < MAX_CMD_LEN" and "length args \<le> MAX_ARGS"
  shows "execute_command regs fuel sys (unwords args) k =
    execute_args regs fuel sys (unwords args) (map lower args) k"
proof -
  have c: "is_cstr (unwords args)" using assms(1) by (intro is_cstr_unwords) (simp add: word_ok_def)
  have "words_of MAX_ARGS (unwords (map lower args)) = map lower args"
    using words_of_unwords [of "map lower args" MAX_ARGS] assms(1,3) lower_word by simp
  then show ?thesis
    using assms(2) c by (simp add: execute_command_def strcpy_eq bindc_def lift_sum_def lower_unwords)
qed

lemma is_cmd_lower: "is_cstr a \<Longrightarrow> is_cstr name \<Longrightarrow> is_cmd (lower a) name \<longleftrightarrow> lower a = lower name"
  unfolding is_cmd_def using strcmp_case_insensitive_zero [OF lower_is_cstr, of a name] by simp

lemma lower_arrow: "lower w = ''>'' \<longleftrightarrow> w = ''>''" "lower w = ''>>'' \<longleftrightarrow> w = ''>>''"
  by (auto simp: map_eq_Cons_conv)

definition plain_word :: "string \<Rightarrow> bool" where
  "plain_word w \<longleftrightarrow> word_ok w \<and> w \<noteq> ''>'' \<and> w \<noteq> ''>>''"

lemma redirect_of:
  assumes "\<forall>w \<in> set ws. plain_word w" and "r = ''>'' \<or> r = ''>>''"
  shows "find_redirect (map lower (a # ws @ [r, f])) = Some (Suc (length ws), r = ''>>'')"
proof -
  have "\<forall>w \<in> set (map lower ws). is_cstr w \<and> w \<noteq> ''>'' \<and> w \<noteq> ''>>''"
    using assms(1) lower_is_cstr by (auto simp: plain_word_def word_ok_def lower_arrow)
  moreover have "lower r = r" using assms(2) by auto
  ultimately show ?thesis using find_redirect_first [of "map lower ws" r "lower a" "[lower f]"] assms(2) by simp
qed

lemma arrow_word: "r = ''>'' \<or> r = ''>>'' \<Longrightarrow> word_ok r"
  by (elim disjE) (simp_all add: word_ok_def)

lemma echo_redirect_result:
  assumes "lower e = ''echo''" and "\<forall>w \<in> set ws. plain_word w" and "word_ok e" and "word_ok f"
    and "r = ''>'' \<or> r = ''>>''" and "length ws \<le> 6" and "length (unwords (e # ws @ [r, f])) < MAX_CMD_LEN"
  shows "execute_command regs fuel sys (unwords (e # ws @ [r, f])) k =
    void (if r = ''>'' then execute_redirect_output (Some (lower f)) (Some (lower (unwords ws)))
          else execute_append_output (Some (lower f)) (Some (lower (unwords ws)))) k"
proof -
  let ?args = "e # ws @ [r, f]" and ?ws = "map lower ws"
  have ok: "\<forall>w \<in> set ?args. word_ok w"
    using assms(2-4) arrow_word [OF assms(5)] by (simp add: plain_word_def)
  have l: "length (unwords ?ws) < 256"
  proof (cases "ws = []")
    case False
    then have "unwords ?args = e @ '' '' @ unwords ws @ '' '' @ r @ '' '' @ f"
      using unwords_snoc [of "ws @ [r]" f] unwords_snoc [of ws r] by (cases ws) simp_all
    then show ?thesis using assms(7) by (simp add: lower_unwords [symmetric])
  qed simp
  have c: "\<forall>w \<in> set ?ws. is_cstr w" using assms(2) lower_is_cstr by (auto simp: plain_word_def word_ok_def)
  have rr: "lower r = r" using assms(5) by auto
  have j: "join_words (map lower ?args) (Suc (length ws)) = Inr (unwords ?ws @ replicate (256 - length (unwords ?ws)) NUL)"
    using join_words_upto [OF c l, of "length ws" "lower e" "[r, lower f]"] by (simp add: rr)
  have t: "cstr (unwords ?ws @ replicate (256 - length (unwords ?ws)) NUL) = unwords ?ws"
    using l is_cstr_unwords [OF c] by (cases "256 - length (unwords ?ws)") simp_all
  have "is_cmd (lower e) ''echo''" using assms(1) by (simp add: is_cmd_def)
  then show ?thesis
    using execute_command_words [OF ok assms(7)] redirect_of [OF assms(2,5), of e f] assms(5,6) j t
    by (auto simp: execute_args_def lower_unwords void_def andthen_def bindc_def lift_sum_def nth_append MAX_ARGS_def)
qed

text \<open>\<open>cat\<close> of a file.\<close>

lemma cat_result:
  assumes "plain_word f" and "length f + 4 < MAX_CMD_LEN"
  shows "execute_command regs fuel sys (''cat '' @ f) k = void (execute_cat (Some (lower f))) k"
proof -
  have ok: "\<forall>w \<in> set [''cat'', f]. word_ok w" using assms(1) by (auto simp: plain_word_def word_ok_def)
  have "lower f \<noteq> ''>''" "lower f \<noteq> ''>>''" "is_cstr (lower f)"
    using assms(1) lower_is_cstr by (auto simp: plain_word_def lower_arrow word_ok_def)
  then have r: "find_redirect [''cat'', lower f] = None"
    using strcmp_zero [of "lower f" "''>''"] strcmp_zero [of "lower f" "''>>''"] by (simp add: find_redirect_def)
  have l: "lower ''cat'' = ''cat''" by code_simp
  have c: "is_cmd ''cat'' ''cat''" "\<not> is_cmd ''cat'' ''help''" "\<not> is_cmd ''cat'' ''cls''" "\<not> is_cmd ''cat'' ''clear''"
    "\<not> is_cmd ''cat'' ''ver''" "\<not> is_cmd ''cat'' ''ls''" "\<not> is_cmd ''cat'' ''pwd''" "\<not> is_cmd ''cat'' ''cd''" "\<not> is_cmd ''cat'' ''echo''"
    unfolding is_cmd_def by code_simp+
  show ?thesis
    using execute_command_words [OF ok, of regs fuel sys k] assms(2) r l c
    by (simp add: MAX_ARGS_def execute_args_def dispatch_def Let_def arg1_def)
qed

section \<open>Properties\<close>

text \<open>C23: \<open>echo words > file\<close> and \<open>echo words >> file\<close> hand the words, joined by single blanks, to the
  redirection, but both the text and the file name in lower case: the line is lowered as a whole
  before it is cut into words.\<close>

theorem echo_redirect_lowers:
  assumes "lower e = ''echo''" and "\<forall>w \<in> set ws. plain_word w" and "word_ok e" and "word_ok f"
    and "r = ''>'' \<or> r = ''>>''" and "length ws \<le> 6" and "length (unwords (e # ws @ [r, f])) < MAX_CMD_LEN"
  shows "execute_command regs fuel sys (unwords (e # ws @ [r, f])) k =
    void (if r = ''>'' then execute_redirect_output (Some (lower f)) (Some (lower (unwords ws)))
          else execute_append_output (Some (lower f)) (Some (lower (unwords ws)))) k"
  using echo_redirect_result [OF assms] .

theorem echo_redirect_lowers_witness:
  "execute_command [] 0 (run [] 0) ''echo Hello World > Note'' (boot_kernel (\<lambda>_. 0) []) =
    void (execute_redirect_output (Some ''note'') (Some ''hello world'')) (boot_kernel (\<lambda>_. 0) [])"
proof -
  have l: "lower ''Hello'' = ''hello''" "lower ''World'' = ''world''" "lower ''Note'' = ''note''" "lower ''echo'' = ''echo''"
    "lower ''Hello World'' = ''hello world''"
    by code_simp+
  show ?thesis
    using echo_redirect_lowers [of "''echo''" "[''Hello'', ''World'']" "''Note''" "''>''" "[]" 0 "run [] 0"
        "boot_kernel (\<lambda>_. 0) []"] l
    by (simp add: plain_word_def word_ok_def lower_unwords del: list.map)
qed

text \<open>\<open>cat\<close> with a redirection never copies a file. \<open>cat a > b\<close>, the form its usage message
  describes, prints that message; only \<open>cat > b\<close> gets through, and looks for a source file called
  \<open>>\<close>.\<close>

theorem cat_redirect_never_copies:
  assumes "lower e = ''cat''" and "\<forall>w \<in> set ws. plain_word w" and "word_ok e" and "word_ok f"
    and "r = ''>'' \<or> r = ''>>''" and "length ws \<le> 6" and "length (unwords (e # ws @ [r, f])) < MAX_CMD_LEN"
    and "find_in_cwd r is_regular k = None" and "\<not> smouse_mode (con k)"
  shows "execute_command regs fuel sys (unwords (e # ws @ [r, f])) k =
    Ret NUL (show_text (if ws = [] then ''Source file not found or empty: '' @ r @ NL else cat_usage) k)"
proof -
  let ?args = "e # ws @ [r, f]"
  have ok: "\<forall>w \<in> set ?args. word_ok w"
    using assms(2-4) arrow_word [OF assms(5)] by (simp add: plain_word_def)
  have rr: "lower r = r" "is_cstr r" using assms(5) by auto
  have c: "is_cmd (lower e) ''cat''" "\<not> is_cmd (lower e) ''echo''" unfolding assms(1) is_cmd_def by code_simp+
  have p: "printf (''Source file not found or empty: %s'' @ NL) [Str r] k =
      Ret () (show_text (''Source file not found or empty: '' @ r @ NL) k)"
    using printf_eq [of "''Source file not found or empty: %s'' @ NL" "[Str r]"
        "''Source file not found or empty: '' @ r @ NL" k] assms(5,9) rr(2)
    by (auto simp: conversion_def)
  have "execute_cat_redirect (Some r) (Some (lower f)) b k =
      Ret () (show_text (''Source file not found or empty: '' @ r @ NL) k)" for b
    using assms(8) p by (simp add: execute_cat_redirect_def bindc_def)
  then show ?thesis
    using execute_command_words [OF ok assms(7)] redirect_of [OF assms(2,5), of e f] assms(6) c rr
    by (auto simp: execute_args_def void_def andthen_def bindc_def nth_append MAX_ARGS_def cmd_simps nth_Cons')
qed

theorem cat_redirect_never_copies_witness:
  "execute_command [] 0 (run [] 0) ''cat fetch > copy'' (boot_kernel (\<lambda>_. 0) []) =
    Ret NUL (show_text cat_usage (boot_kernel (\<lambda>_. 0) []))"
proof -
  have l: "lower ''cat'' = ''cat''" by code_simp
  have "find_in_cwd ''>'' is_regular (boot_kernel (\<lambda>_. 0) []) = None"
    by (simp add: find_boot boot_eval)
  then show ?thesis
    using cat_redirect_never_copies [of "''cat''" "[''fetch'']" "''copy''" "''>''" "boot_kernel (\<lambda>_. 0) []" "[]" 0 "run [] 0"] l
    by (simp add: plain_word_def word_ok_def del: list.map)
qed

text \<open>The names the dispatcher knows.\<close>

definition command_names :: "string list" where
  "command_names = [''help'', ''cls'', ''clear'', ''ver'', ''ls'', ''pwd'', ''cd'', ''echo'', ''cat'', ''date'', ''time'',
     ''whoami'', ''uptime'', ''sh'', ''srunix64'', ''mem'', ''memory'', ''lsblk'', ''pause'', ''poweroff'', ''shutdown'',
     ''kptest'', ''reboot'', ''restart'', ''exit'', ''info'', ''dhcpcd'', ''ifconfig'', ''ping'', ''touch'', ''fetch'',
     ''neofetch'', ''./fetch'', ''mkdir'', ''rm'', ''beep'', ''Z'', ''ps'', ''jobs'', ''kill'', ''smouse'']"

text \<open>A line whose first word is, up to case, none of the 41 names is refused with that word in
  lower case and changes nothing but the screen; in particular \<open>srunix86\<close>, which the help page
  offers, is refused.\<close>

theorem unknown_command_refused:
  assumes "\<forall>w \<in> set (a # ws). plain_word w" and "lower a \<notin> set (map lower command_names)"
    and "length ws < MAX_ARGS" and "length (unwords (a # ws)) < MAX_CMD_LEN"
  shows "execute_command regs fuel sys (unwords (a # ws)) k = Ret NUL (show_text (''Command not found: '' @ lower a @
    NL @ ''Type '' @ [CHR 0x27] @ ''help'' @ [CHR 0x27] @ '' for commands'' @ NL) k)"
proof -
  have ok: "\<forall>w \<in> set (a # ws). word_ok w" using assms(1) by (auto simp: plain_word_def)
  have "strcmp (map lower (a # ws) ! i) ''>'' \<noteq> 0 \<and> strcmp (map lower (a # ws) ! i) ''>>'' \<noteq> 0" if "i < length (a # ws)" for i
  proof -
    have "plain_word ((a # ws) ! i)" using assms(1) that by (metis nth_mem)
    then show ?thesis
      using that is_arrow [of "lower ((a # ws) ! i)"] lower_is_cstr
      by (simp add: plain_word_def word_ok_def lower_arrow nth_map del: list.map)
  qed
  then have "List.find (\<lambda>i. strcmp (map lower (a # ws) ! i) ''>'' = 0 \<or> strcmp (map lower (a # ws) ! i) ''>>'' = 0)
      [1..<length (map lower (a # ws))] = None"
    unfolding find_None_iff by (metis atLeastLessThan_iff length_map set_upt)
  then have r: "find_redirect (map lower (a # ws)) = None" by (simp only: find_redirect_def option.case)
  have ac: "is_cstr a" "a \<noteq> []" using ok by (simp_all add: word_ok_def)
  have "\<not> is_cmd (lower a) c" if "c \<in> set command_names" for c
  proof -
    have "is_cstr c" using that by (auto simp: command_names_def)
    then show ?thesis using is_cmd_lower [OF ac(1)] assms(2) that by auto
  qed
  then have n: "list_all (\<lambda>c. \<not> is_cmd (lower a) c) command_names" by (simp add: list_all_iff)
  have "dispatch regs fuel sys (unwords (a # ws)) (map lower (a # ws)) k = Ret NUL (show_text (''Command not found: '' @ lower a @
    NL @ ''Type '' @ [CHR 0x27] @ ''help'' @ [CHR 0x27] @ '' for commands'' @ NL) k)"
    using n ac(2)
    by (simp add: command_names_def dispatch_def Let_def void_def andthen_def bindc_def cmd_simps show_text_append)
  then show ?thesis
    using execute_command_words [OF ok assms(4)] assms(3) r by (simp add: execute_args_def MAX_ARGS_def)
qed

theorem unknown_command_refused_witness:
  "execute_command [] 0 (run [] 0) ''srunix86'' (boot_kernel (\<lambda>_. 0) []) = Ret NUL (show_text (''Command not found: srunix86'' @
    NL @ ''Type '' @ [CHR 0x27] @ ''help'' @ [CHR 0x27] @ '' for commands'' @ NL) (boot_kernel (\<lambda>_. 0) []))"
proof -
  have l: "lower ''srunix86'' = ''srunix86''" "''srunix86'' \<notin> set (map lower command_names)" by code_simp+
  show ?thesis
    using unknown_command_refused [of "''srunix86''" "[]" "[]" 0 "run [] 0" "boot_kernel (\<lambda>_. 0) []"] l
    by (simp add: plain_word_def word_ok_def MAX_ARGS_def del: list.map)
qed

end
