(* ===== verification/Session.thy ===== *)
theory Session imports Shell_Props Command_Props begin

text \<open>
  Whole sessions at the keyboard. The shell of the kernel reads key events one at a time; its
  contract is a loop over complete lines, and the reading loop, the line editor and the calls
  between them implement it.
\<close>

section \<open>Fuel\<close>

lemma run_more_fuel:
  assumes "run regs n c k = r" and "\<forall>s. r \<noteq> Stop OutOfFuel s" and "n \<le> m"
  shows "run regs m c k = r"
  using run_mono [OF assms(3), of regs c k] le_out_eq [of "run regs n c k" "run regs m c k"] assms(1,2) by simp

section \<open>Keys and characters\<close>

text \<open>Reading a number of characters, one call of \<open>keyboard_getchar\<close> each.\<close>

primrec read_keys :: "sys \<Rightarrow> nat \<Rightarrow> (kernel, string) cmd" where
  "read_keys sys 0 = ret []"
| "read_keys sys (Suc n) = bindc (sys KeyboardGetchar) (\<lambda>c. bindc (read_keys sys n) (\<lambda>s. ret (c # s)))"

definition printable :: "char \<Rightarrow> bool" where
  "printable c \<longleftrightarrow> 32 \<le> (of_char c :: nat) \<and> (of_char c :: nat) < 127"

lemma printable_typeable: "printable c \<Longrightarrow> c \<in> set typeable"
proof -
  have "list_all (\<lambda>n. char_of n \<in> set typeable) [32..<127]" by code_simp
  moreover assume "printable c"
  then have "(of_char c :: nat) \<in> set [32..<127]" unfolding printable_def by (simp only: set_upt atLeastLessThan_iff)
  ultimately show ?thesis unfolding list_all_iff by (metis char_of_char)
qed

lemma keys_result:
  assumes "set s \<subseteq> set typeable \<union> {CHR 0x0A}" and "ready k (strokes s @ rest)" and "4 \<le> n"
  shows "\<exists>k'. read_keys (run regs n) (length s) k = Ret s k' \<and> ready k' rest \<and> view k' = view k"
  using assms(1,2)
proof (induction s arbitrary: k)
  case Nil
  then show ?case by (simp add: ret_def)
next
  case (Cons c s)
  then have k: "ready k (stroke c @ strokes s @ rest)" by simp
  have "run regs n KeyboardGetchar k = Ret c (press c k)"
    using getchar_types [OF k _ assms(3), of regs] Cons.prems(1) by auto
  then show ?case
    using Cons.IH [of "press c k"] press_ready [OF k] Cons.prems(1) by (auto simp: bindc_def ret_def)
qed

text \<open>C12: The keyboard driver decodes what a keyboard with the US layout sends: for every text of printable
  characters and line ends, reading the key events of its characters, which are computed from the
  layout in scan code set 1 and not from the driver's maps, with shift pressed and released around each
  character that needs it, gives back the text, if no modifier is held to begin with. Nothing else in the machine changes but the port
  trace, the input consumed and the state of the shift key.\<close>

theorem keyboard_decodes_text:
  assumes "\<forall>c \<in> set s. printable c \<or> c = CHR 0x0A" and "no_modifier k" and "io_in k = strokes s @ rest" and "4 \<le> n"
  shows "\<exists>k'. read_keys (run regs n) (length s) k = Ret s k' \<and> ready k' rest \<and> view k' = view k"
proof (rule keys_result [OF _ _ assms(4)])
  show "set s \<subseteq> set typeable \<union> {CHR 0x0A}" using assms(1) printable_typeable by blast
  show "ready k (strokes s @ rest)" using ready_no_modifier [OF assms(2)] assms(3) by simp
qed

theorem keyboard_decodes_text_witness:
  "\<exists>k. read_keys (run [] 4) (length ''Hi, {Y}!'') (boot_kernel (\<lambda>_. 0) (strokes (''Hi, {Y}!'' @ NL))) = Ret ''Hi, {Y}!'' k \<and> fs k = boot_table boot_entries"
proof -
  let ?s = "''Hi, {Y}!''" and ?k = "boot_kernel (\<lambda>_. 0) (strokes (''Hi, {Y}!'' @ NL))"
  have "list_all printable ?s" by code_simp
  then have p: "\<forall>c \<in> set ?s. printable c \<or> c = CHR 0x0A" unfolding list_all_iff by blast
  obtain k where "read_keys (run [] 4) (length ?s) ?k = Ret ?s k" "view k = view ?k"
    using keyboard_decodes_text [OF p, of ?k "strokes NL" 4 "[]"] by auto
  then show ?thesis using view_frame(2) [of k ?k] by (intro exI [of _ k]) simp
qed

section \<open>The loop over lines\<close>

text \<open>The key events of a line are the next ones to come.\<close>

definition line_typed :: "string \<Rightarrow> kernel \<Rightarrow> bool" where
  "line_typed s k \<longleftrightarrow> set s \<subseteq> set typeable \<and> length s < 255 \<and> calm k \<and>
     (let b = (if shift_pressed (keys k) then [1, 0xAA] else []) @ strokes (s @ NL)
      in take (length b) (io_in k) = b)"

definition read_line :: "string \<Rightarrow> (kernel, unit) cmd" where
  "read_line s k = (if line_typed s k then Ret () (type_text (s @ NL) k) else Stop Await k)"

text \<open>Prompt, read, remember, execute; the fuel is that of a single command.\<close>

definition repl_line :: "char list \<Rightarrow> nat \<Rightarrow> string \<Rightarrow> (kernel, unit) cmd" where
  "repl_line regs n s = cseq [print_prompt, read_line s, add_to_history s, call_void (run regs n) (ExecuteCommand s)]"

definition repl :: "char list \<Rightarrow> nat \<Rightarrow> string list \<Rightarrow> (kernel, unit) cmd" where
  "repl regs n = for_each (repl_line regs n)"

text \<open>The calls the shell makes to read the lines.\<close>

definition read_cost :: "string list \<Rightarrow> nat" where
  "read_cost ss = sum_list (map (\<lambda>s. length s + 2) ss)"

lemma line_typed_ready:
  assumes "line_typed s k"
  shows "\<exists>rest. ready k (strokes (s @ NL) @ rest)"
proof -
  let ?b = "(if shift_pressed (keys k) then [1, 0xAA] else []) @ strokes (s @ NL)"
  have "io_in k = ?b @ drop (length ?b) (io_in k)"
    using assms append_take_drop_id [of "length ?b" "io_in k"] unfolding line_typed_def Let_def by metis
  then have "ready k (strokes (s @ NL) @ drop (length ?b) (io_in k))"
    using assms by (auto simp: ready_def line_typed_def)
  then show ?thesis by blast
qed

lemma ready_line_typed:
  assumes "ready k (strokes (s @ NL) @ rest)" and "set s \<subseteq> set typeable" and "length s < 255"
  shows "line_typed s k"
proof -
  define x where "x = strokes (s @ NL)"
  have "ready k (x @ rest)" using assms(1) unfolding x_def .
  then show ?thesis
    using assms(2,3) unfolding line_typed_def x_def [symmetric] by (simp add: ready_def Let_def)
qed

text \<open>One line: the shell at its prompt does what \<open>repl_line\<close> does and prompts again.\<close>

lemma bindc_Stop_iff: "bindc m f s = Stop e t \<longleftrightarrow> m s = Stop e t \<or> (\<exists>a s'. m s = Ret a s' \<and> f a s' = Stop e t)"
  by (cases "m s") (simp_all add: bindc_def)

lemma andthen_Stop_iff: "andthen m n s = Stop e t \<longleftrightarrow> m s = Stop e t \<or> (\<exists>a s'. m s = Ret a s' \<and> n s' = Stop e t)"
  by (simp add: andthen_def bindc_Stop_iff)

lemma ret_Stop_iff: "ret a s = Stop e t \<longleftrightarrow> False"
  by (simp add: ret_def)

lemmas stops_iff = bindc_Stop_iff andthen_Stop_iff ret_Stop_iff

lemma shell_reads_line:
  assumes "print_prompt k = Ret () k0" and "line_typed s k0" and "length cmd = 256" and "4 \<le> m"
  shows "\<exists>line. run regs (m + length s + 2) (ShellPrompt cmd) k = accept_line (run regs m) line s (type_text (s @ NL) k0) \<and>
    length line = 256"
proof -
  obtain rest where "ready k0 (strokes (s @ NL) @ rest)" using line_typed_ready [OF assms(2)] by blast
  then show ?thesis
    using assms by (intro prompt_reads_line) (simp_all add: line_typed_def)
qed

lemma line_returns:
  assumes "repl_line regs n s k = Ret () k1" and "4 \<le> n" and "n \<le> m" and "length cmd = 256"
  shows "\<exists>line. run regs (m + length s + 2) (ShellPrompt cmd) k = run regs m (ShellPrompt line) k1 \<and> length line = 256"
proof -
  obtain k0 t c where r: "print_prompt k = Ret () k0" "line_typed s k0" "add_to_history s (type_text (s @ NL) k0) = Ret () t"
    "run regs n (ExecuteCommand s) t = Ret c k1"
    using assms(1) by (auto simp: repl_line_def call_void_def returns_iff read_line_def split: if_splits)
  obtain line where "run regs (m + length s + 2) (ShellPrompt cmd) k = accept_line (run regs m) line s (type_text (s @ NL) k0)"
    "length line = 256"
    using shell_reads_line [OF r(1,2) assms(4), of m regs] assms(2,3) by auto
  moreover have "run regs m (ExecuteCommand s) t = Ret c k1" using run_more_fuel [OF r(4) _ assms(3)] by simp
  ultimately show ?thesis using r(3) by (intro exI [of _ line]) (simp add: accept_line_def andthen_def bindc_def)
qed

definition final_stop :: "stop \<Rightarrow> bool" where
  "final_stop e \<longleftrightarrow> e \<noteq> Await \<and> e \<noteq> OutOfFuel"

lemma line_stops:
  assumes "repl_line regs n s k = Stop e k1" and "final_stop e" and "4 \<le> n" and "n \<le> m" and "length cmd = 256"
  shows "run regs (m + length s + 2) (ShellPrompt cmd) k = Stop e k1"
proof -
  from assms(1,2) consider "print_prompt k = Stop e k1"
    | k0 where "print_prompt k = Ret () k0" "line_typed s k0" "add_to_history s (type_text (s @ NL) k0) = Stop e k1"
    | k0 t where "print_prompt k = Ret () k0" "line_typed s k0" "add_to_history s (type_text (s @ NL) k0) = Ret () t"
        "run regs n (ExecuteCommand s) t = Stop e k1"
    by (auto simp: repl_line_def call_void_def stops_iff read_line_def final_stop_def split: if_splits)
  then show ?thesis
  proof cases
    case 1
    then show ?thesis by (simp add: run_Suc(10) shell_prompt_def andthen_def bindc_def)
  next
    case 2
    then show ?thesis
      using shell_reads_line [OF 2(1,2) assms(5), of m regs] assms(3,4)
      by (auto simp: accept_line_def andthen_def bindc_def)
  next
    case 3
    have "run regs m (ExecuteCommand s) t = Stop e k1"
      using run_more_fuel [OF 3(4) _ assms(4)] assms(2) by (simp add: final_stop_def)
    then show ?thesis
      using shell_reads_line [OF 3(1,2) assms(5), of m regs] assms(3,4) 3(3)
      by (auto simp: accept_line_def andthen_def bindc_def)
  qed
qed

lemma repl_returns:
  assumes "repl regs n ss k = Ret () k'" and "4 \<le> n" and "n \<le> m" and "length cmd = 256"
  shows "\<exists>line. run regs (m + read_cost ss) (ShellPrompt cmd) k = run regs m (ShellPrompt line) k' \<and> length line = 256"
  using assms(1,4)
proof (induction ss arbitrary: k cmd)
  case Nil
  then show ?case by (auto simp: repl_def returns_iff read_cost_def)
next
  case (Cons s ss)
  obtain k1 where 1: "repl_line regs n s k = Ret () k1" "repl regs n ss k1 = Ret () k'"
    using Cons.prems(1) by (auto simp: repl_def returns_iff)
  obtain line where 2: "run regs (m + read_cost ss + length s + 2) (ShellPrompt cmd) k =
      run regs (m + read_cost ss) (ShellPrompt line) k1" "length line = 256"
    using line_returns [OF 1(1) assms(2) _ Cons.prems(2), of "m + read_cost ss"] assms(3) by auto
  have "m + read_cost (s # ss) = m + read_cost ss + length s + 2" by (simp add: read_cost_def)
  then show ?case using 2(1) Cons.IH [OF 1(2) 2(2)] by (simp only:)
qed

lemma repl_stops:
  assumes "repl regs n ss k = Stop e k'" and "final_stop e" and "4 \<le> n" and "n \<le> m" and "length cmd = 256"
  shows "run regs (m + read_cost ss) (ShellPrompt cmd) k = Stop e k'"
  using assms(1,5)
proof (induction ss arbitrary: k cmd)
  case Nil
  then show ?case by (simp add: repl_def stops_iff)
next
  case (Cons s ss)
  have c: "m + read_cost (s # ss) = m + read_cost ss + length s + 2" by (simp add: read_cost_def)
  from Cons.prems(1) consider "repl_line regs n s k = Stop e k'"
    | k1 where "repl_line regs n s k = Ret () k1" "repl regs n ss k1 = Stop e k'"
    by (auto simp: repl_def stops_iff)
  then show ?case
  proof cases
    case 1
    show ?thesis unfolding c by (rule line_stops [OF 1 assms(2,3) _ Cons.prems(2)]) (use assms(4) in simp)
  next
    case 2
    then show ?thesis
      using line_returns [OF 2(1) assms(3) _ Cons.prems(2), of "m + read_cost ss"] assms(4) Cons.IH [OF 2(2)]
      unfolding c by auto
  qed
qed

text \<open>With no key event left the shell waits at its prompt.\<close>

lemma prompt_waits:
  assumes "print_prompt k = Ret () k0" and "no_modifier k0" and "io_in k0 = []"
  shows "run regs (n + 4) (ShellPrompt cmd) k = Stop Await k0"
  using assms
  by (simp add: numeral_eq_Suc run_Suc shell_prompt_def andthen_def bindc_def shell_read_def keyboard_getchar_def
      keyboard_loop_def inb_def no_modifier_def calm_def)

text \<open>C3: The shell implements a loop over lines: as long as the lines typed are printable and shorter than
  255 characters, reading their key events one by one, editing, remembering and executing them is the
  same as prompting, taking the next line as a whole, adding it to the history and executing it; a
  fault or a call that never returns ends both in the same state.\<close>

theorem shell_refines_repl:
  assumes "4 \<le> n" and "length cmd = 256"
  shows "case repl regs n ss k of
      Ret _ k' \<Rightarrow> \<exists>line. run regs (n + read_cost ss) (ShellPrompt cmd) k = run regs n (ShellPrompt line) k' \<and> length line = 256
    | Stop e k' \<Rightarrow> e = Await \<or> e = OutOfFuel \<or> run regs (n + read_cost ss) (ShellPrompt cmd) k = Stop e k'"
proof (cases "repl regs n ss k")
  case (Ret u k')
  then show ?thesis using repl_returns [of regs n ss k k' n cmd] assms by simp
next
  case (Stop e k')
  then show ?thesis using repl_stops [of regs n ss k e k' n cmd] assms by (auto simp: final_stop_def)
qed

section \<open>What is on the screen\<close>

text \<open>The prompt in the root directory, as an operation on the console.\<close>

definition tint :: "u8 \<Rightarrow> console \<Rightarrow> console" where
  "tint fg c = terminal_setcolor fg (drop_bit 4 (terminal_color c)) c"

definition prompt_text :: "console \<Rightarrow> console" where
  "prompt_text c = tint COLOR_WHITE (terminal_writestring ''# '' (tint COLOR_WHITE
     (terminal_writestring (CHR 0x7E # []) (tint COLOR_BRIGHT_BLUE (terminal_writestring '':'' (tint COLOR_WHITE
     (terminal_writestring ''root'' (tint COLOR_BRIGHT_RED c))))))))"

lemma blind_tint: "blind (tint fg)"
proof -
  have "blind (terminal_setcolor fg bg)" for bg by (rule blind_setcolor)
  then show ?thesis by (simp add: blind_def tint_def)
qed

lemma blind_then:
  "blind (\<lambda>c. c)"
  "blind g \<Longrightarrow> blind (\<lambda>c. terminal_writestring s (g c))"
  "blind g \<Longrightarrow> blind (\<lambda>c. terminal_setcolor fg bg (g c))"
  "blind g \<Longrightarrow> blind (\<lambda>c. terminal_clear (g c))"
  "blind g \<Longrightarrow> blind (\<lambda>c. tint fg (g c))"
  by (simp add: blind_def)
    (rule blind_comp [OF blind_writestring] blind_comp [OF blind_setcolor] blind_comp [OF blind_clear] blind_comp [OF blind_tint];
     assumption)+

lemma blind_prompt: "blind prompt_text"
  unfolding prompt_text_def by (intro blind_then)

lemma con_set_color: "con (set_color fg k) = tint fg (con k)"
  by (simp add: set_color_def tint_def)

lemma screen_prompt: "screen (con (root_prompt k)) = screen (prompt_text (con k))"
  by (simp only: root_prompt_def Let_def con_set_color on_con_show_text on_con_frame screen_move_cursor prompt_text_def)

lemma blind_screen: "blind f \<Longrightarrow> screen c = screen d \<Longrightarrow> screen (f c) = screen (f d)"
  unfolding blind_def by metis

lemma screen_typed: "typed k t rest k' \<Longrightarrow> screen (con k') = screen (terminal_writestring t (con k))"
  using view_frame(1) [of k' "show_text t k"] by (simp add: typed_def)

text \<open>The screen when the first prompt is due: the booted one, the login with the password as stars, the
  greeting and the banner of the shell.\<close>

definition first_screen :: "(nat \<Rightarrow> u16) \<Rightarrow> console" where
  "first_screen vram = con (shell_banner (set_logged_in True (show_text (NL @ ''Welcome to Srunix86 livecd'' @ NL)
     (show_text (''root'' @ NL @ ''Password: *'' @ NL) (banner (boot_kernel vram []))))))"

lemma blind_banner: "screen (con k) = screen (con k') \<Longrightarrow> screen (con (banner k)) = screen (con (banner k'))"
proof -
  assume e: "screen (con k) = screen (con k')"
  have t: "current_tty (con k) = current_tty (con k')" using e by (metis screen_frame(6))
  define f where "f = (\<lambda>c. terminal_writestring (''OpenSource Operation System.'' @ NL @ ''Please login: root, password 1'' @ NL @ NL @ ''login: '')
     (terminal_setcolor COLOR_GRAY COLOR_BLACK (terminal_writestring (NL @ NL @ ''Srunix86 tty'' @ dec_nat (Suc (current_tty (con k'))) @ NL)
       (terminal_clear (terminal_setcolor COLOR_GRAY COLOR_BLACK c)))))"
  have "blind f" unfolding f_def by (intro blind_then)
  from blind_screen [OF this e] show ?thesis
    unfolding banner_def on_con_show_text on_con_frame t f_def .
qed

lemma blind_shell_banner:
  "screen (con k) = screen (con k') \<Longrightarrow> screen (con (shell_banner k)) = screen (con (shell_banner k'))"
proof -
  assume e: "screen (con k) = screen (con k')"
  have t: "current_tty (con k) = current_tty (con k')" using e by (metis screen_frame(6))
  define f where "f = (\<lambda>c. terminal_setcolor COLOR_WHITE COLOR_BLACK
     (terminal_writestring (''Type '' @ [CHR 0x22] @ ''help'' @ [CHR 0x22] @ '' to see all the commands in the OS.'' @ NL @ NL)
       (terminal_setcolor COLOR_GRAY COLOR_BLACK
         (terminal_writestring (NL @ ''Srunix86 tty'' @ dec_nat (Suc (current_tty (con k'))) @ NL)
           (terminal_setcolor COLOR_BRIGHT_RED COLOR_BLACK c)))))"
  have "blind f" unfolding f_def by (intro blind_then)
  from blind_screen [OF this e] show ?thesis
    unfolding shell_banner_def on_con_show_text on_con_frame t f_def .
qed

lemma screen_logged_in:
  "screen (con k) = screen (con k') \<Longrightarrow> screen (con (set_logged_in b k)) = screen (con (set_logged_in b k'))"
  unfolding set_logged_in_def on_con_frame by (rule blind_screen [OF blind_upd_tty])

lemma screen_show: "screen (con k) = screen (con k') \<Longrightarrow> screen (con (show_text t k)) = screen (con (show_text t k'))"
  unfolding on_con_show_text by (rule blind_screen [OF blind_writestring])

lemma boot_input: "con (boot_kernel vram input) = con (boot_kernel vram [])"
  by (simp add: boot_kernel_def program_timer_def)

section \<open>From power-on to the prompt\<close>

lemma login_decide_root:
  assumes "\<not> smouse_mode (con k)"
  shows "login_decide sys ''root'' ''1'' k = sys ShellCall (set_logged_in True (show_text (NL @ ''Welcome to Srunix86 livecd'' @ NL) k))"
  by (simp add: login_decide_def strcmp_zero is_cstr_def andthen_def bindc_def cmd_simps)

lemma boot_to_prompt:
  assumes "4 \<le> n"
  shows "\<exists>k. kernel_main regs (n + 9) (static_kernel vram (strokes (''root'' @ NL @ ''1'' @ NL) @ rest)) =
      bindc (run regs n (ShellPrompt (replicate 256 NUL))) (\<lambda>_. halt NoReturn) k \<and>
    fs k = boot_table boot_entries \<and> hist k = hist (static_kernel vram rest) \<and> no_modifier k \<and> io_in k = rest \<and>
    screen (con k) = screen (first_screen vram)"
proof -
  let ?in = "strokes (''root'' @ NL @ ''1'' @ NL) @ rest" and ?w = "NL @ ''Welcome to Srunix86 livecd'' @ NL"
  let ?k0 = "boot_kernel vram ?in" and ?t = "''root'' @ NL @ ''Password: '' @ replicate (length ''1'') (CHR ''*'') @ NL"
  obtain k1 where k1: "run regs (n + 1 + (length ''root'' + length ''1'' + 3)) LoginScreen ?k0 = login_decide (run regs (n + 1)) ''root'' ''1'' k1"
    "typed (banner ?k0) ?t rest k1" "no_modifier k1"
    using login_types [of ?k0 "''root''" "''1''" rest "n + 1" regs] assms by auto
  let ?k2 = "set_logged_in True (show_text ?w k1)"
  note f = typed_frame [OF k1(2)]
  have m: "\<not> smouse_mode (con k1)" "no_modifier ?k2" "current_tty (con ?k2) < 9"
    using k1(3) f(5) by (simp add: no_modifier_def calm_def) (use k1(3) f(5) in simp_all)
  have n: "n + 1 + (length ''root'' + length ''1'' + 3) = n + 9" by simp
  have r: "run regs (n + 9) LoginScreen ?k0 = run regs n (ShellPrompt (replicate 256 NUL)) (shell_banner ?k2)"
    using k1(1) login_decide_root [OF m(1), of "run regs (n + 1)"] shell_call_prompts [OF m(2,3), of regs n]
    unfolding n by simp
  have "kernel_main regs (n + 9) (static_kernel vram ?in) = bindc (run regs (n + 9) LoginScreen) (\<lambda>_. halt NoReturn) ?k0"
    using kernel_boot_eq [of vram ?in] by (simp add: kernel_main_def andthen_def bindc_def)
  also have "\<dots> = bindc (run regs n (ShellPrompt (replicate 256 NUL))) (\<lambda>_. halt NoReturn) (shell_banner ?k2)"
    using r by (simp only: bindc_def)
  finally have "kernel_main regs (n + 9) (static_kernel vram ?in) =
      bindc (run regs n (ShellPrompt (replicate 256 NUL))) (\<lambda>_. halt NoReturn) (shell_banner ?k2)" .
  moreover have "screen (con (shell_banner ?k2)) = screen (first_screen vram)"
  proof -
    have "screen (con (banner ?k0)) = screen (con (banner (boot_kernel vram [])))"
      by (rule blind_banner) (simp only: boot_input [of vram ?in])
    from screen_show [OF this, of ?t] have "screen (con k1) = screen (con (show_text ?t (banner (boot_kernel vram []))))"
      using screen_typed [OF k1(2)] by (simp only: on_con_show_text)
    moreover have "?t = ''root'' @ NL @ ''Password: *'' @ NL" by simp
    ultimately show ?thesis
      unfolding first_screen_def by (intro blind_shell_banner screen_logged_in screen_show) (simp only:)
  qed
  moreover have "fs (shell_banner ?k2) = boot_table boot_entries \<and> hist (shell_banner ?k2) = hist (static_kernel vram rest) \<and>
      no_modifier (shell_banner ?k2) \<and> io_in (shell_banner ?k2) = rest"
    using f(1,2) f(7) [OF k1(3)] m(2) by simp (simp add: static_kernel_def)
  ultimately show ?thesis by blast
qed

text \<open>From power-on to the first command: with the right login and then a line of less than 255
  characters on the keyboard, the machine boots, logs in, and hands that line to the history and then
  to the dispatcher, with the boot tree in place and the rest of the input unread.\<close>

theorem boot_to_first_command:
  assumes "set s \<subseteq> set typeable" and "length s < 255" and "4 \<le> n"
  shows "\<exists>k line. kernel_main regs (n + length s + 11) (static_kernel vram (strokes (''root'' @ NL @ ''1'' @ NL @ s @ NL) @ rest)) =
      bindc (accept_line (run regs n) line s) (\<lambda>_. halt NoReturn) k \<and>
    fs k = boot_table boot_entries \<and> io_in k = rest \<and> history_count (hist k) = 0"
proof -
  let ?n = "n + length s + 2"
  have n: "?n + 9 = n + length s + 11" "4 \<le> ?n" using assms(3) by simp_all
  obtain k0 where k0: "kernel_main regs (n + length s + 11) (static_kernel vram (strokes (''root'' @ NL @ ''1'' @ NL @ s @ NL) @ rest)) =
      bindc (run regs ?n (ShellPrompt (replicate 256 NUL))) (\<lambda>_. halt NoReturn) k0"
    "fs k0 = boot_table boot_entries" "hist k0 = hist (static_kernel vram (strokes (s @ NL) @ rest))"
    "no_modifier k0" "io_in k0 = strokes (s @ NL) @ rest"
    using boot_to_prompt [OF n(2), of regs vram "strokes (s @ NL) @ rest"] unfolding n(1) by auto
  have p: "print_prompt k0 = Ret () (root_prompt k0)" using k0(2) by (intro prompt_at_root) simp
  have r: "ready (root_prompt k0) (strokes (s @ NL) @ rest)"
    using ready_no_modifier [of "root_prompt k0"] k0(4,5) by simp
  obtain line where l: "run regs ?n (ShellPrompt (replicate 256 NUL)) k0 =
      accept_line (run regs n) line s (type_text (s @ NL) (root_prompt k0))"
    using prompt_reads_line [OF p r assms(1,2) _ assms(3), of "replicate 256 NUL" regs] by auto
  note t = type_text_typed [OF r]
  have "bindc (run regs ?n (ShellPrompt (replicate 256 NUL))) (\<lambda>_. halt NoReturn) k0 =
      bindc (accept_line (run regs n) line s) (\<lambda>_. halt NoReturn) (type_text (s @ NL) (root_prompt k0))"
    using l by (simp only: bindc_def)
  then show ?thesis
    using k0(1-3) typed_frame [OF t] type_line_no_modifier [OF r]
    by (intro exI [of _ "type_text (s @ NL) (root_prompt k0)"] exI [of _ line]) (simp add: static_kernel_def)
qed

theorem boot_to_first_command_witness:
  "\<exists>k line. kernel_main [] 20 (static_kernel (\<lambda>_. 0) (strokes (''root'' @ NL @ ''1'' @ NL @ ''ls'' @ NL))) =
      bindc (accept_line (run [] 7) line ''ls'') (\<lambda>_. halt NoReturn) k \<and> fs k = boot_table boot_entries"
  using boot_to_first_command [of "''ls''" 7 "[]" "\<lambda>_. 0" "[]"] by auto

section \<open>Storing a text and showing it\<close>

text \<open>A line typed at the prompt in the root directory, up to the call of the dispatcher.\<close>

lemma line_at_root:
  assumes "no_modifier k" and "io_in k = strokes (s @ NL) @ rest" and "set s \<subseteq> set typeable" and "length s < 255"
    and "s \<noteq> []" and "current_inode (fs k) = 1" and "history_ok (hist k)"
  shows "\<exists>t. repl_line regs n s k = call_void (run regs n) (ExecuteCommand s) t \<and> fs t = fs k \<and> no_modifier t \<and>
    io_in t = rest \<and> history_ok (hist t) \<and> history_lines (hist t) = last_n HISTORY_SIZE (history_lines (hist k) @ [s]) \<and>
    screen (con t) = screen (terminal_writestring (s @ NL) (prompt_text (con k)))"
proof -
  let ?k0 = "root_prompt k"
  let ?k1 = "type_text (s @ NL) ?k0"
  have r: "ready ?k0 (strokes (s @ NL) @ rest)" using ready_no_modifier [of ?k0] assms(1,2) by simp
  note t = type_text_typed [OF r] and nm = type_line_no_modifier [OF r]
  note f = typed_frame [OF t]
  have "legal_line s" using typeable_cstr [OF assms(3)] assms(4) by (simp add: legal_line_def)
  then obtain h where h: "push_history s (hist ?k1) = Inr h" "history_ok h"
    "history_lines h = last_n HISTORY_SIZE (history_lines (hist k) @ [s])"
    using push_history_ok [of "hist ?k1" s] f(2) assms(7) by auto
  let ?t = "?k1\<lparr>hist := h\<rparr>"
  have "add_to_history s ?k1 = Ret () ?t"
    using h(1) nm assms(5) by (simp add: add_to_history_def lift_sum_def bindc_def act_def no_modifier_def calm_def)
  then have e: "repl_line regs n s k = call_void (run regs n) (ExecuteCommand s) ?t"
    using prompt_at_root [OF assms(6)] ready_line_typed [OF r assms(3,4)]
    by (simp add: repl_line_def andthen_def bindc_def read_line_def ret_def split: outcome.splits)
  have "screen (con ?k1) = screen (terminal_writestring (s @ NL) (prompt_text (con k)))"
    using screen_typed [OF t] blind_screen [OF blind_writestring screen_prompt, of "s @ NL" k] by simp
  moreover have "no_modifier ?t" using nm by (simp add: no_modifier_def calm_def)
  ultimately show ?thesis using e h(2,3) f(1) f(7) [OF nm] by (intro exI [of _ ?t]) simp
qed

lemma find_in_cwd_touch: "find_in_cwd name p (touch_atime n k) = find_in_cwd name p k"
  by (simp add: find_in_cwd_def find_entry_def touch_atime_def on_fs_def)

lemma call_command:
  assumes "execute_command regs n (run regs n) s k = void m k" and "m k = Ret () k'"
  shows "call_void (run regs (Suc n)) (ExecuteCommand s) k = Ret () k'"
  using assms by (simp add: call_void_def run_Suc(12) void_def andthen_def bindc_def ret_def)

text \<open>The two lines.\<close>

definition echo_line :: "string list \<Rightarrow> string \<Rightarrow> string" where
  "echo_line ws f = unwords (''echo'' # ws @ [''>'', f])"

definition echo_cat_screen :: "string list \<Rightarrow> string \<Rightarrow> console \<Rightarrow> console" where
  "echo_cat_screen ws f c =
     prompt_text (terminal_writestring (''cat '' @ f @ NL @ lower (unwords ws) @ NL)
       (prompt_text (terminal_writestring (echo_line ws f @ NL @ ''File created and text written'' @ NL)
         (prompt_text c))))"

definition storable :: "string list \<Rightarrow> string \<Rightarrow> bool" where
  "storable ws f \<longleftrightarrow> (\<forall>w \<in> set ws. plain_word w) \<and> plain_word f \<and> length ws \<le> 6 \<and> length (echo_line ws f) < 255 \<and>
     set (echo_line ws f) \<subseteq> set typeable \<and> is_valid_filename (lower f) \<and> length f \<le> 30"

lemma echo_cat_lines:
  assumes "storable ws f"
  shows "length (unwords ws) \<le> 255" "length f + 4 < 255" "set (''cat '' @ f) \<subseteq> set typeable"
proof -
  have "echo_line ws f = (if ws = [] then ''echo > '' @ f else ''echo '' @ unwords ws @ '' > '' @ f)"
    using unwords_snoc [of "''echo'' # ws @ [''>'']" f] unwords_snoc [of "''echo'' # ws" "''>''"]
    by (cases ws) (simp_all add: echo_line_def)
  then show "length (unwords ws) \<le> 255" "length f + 4 < 255" "set (''cat '' @ f) \<subseteq> set typeable"
    using assms by (auto simp: storable_def typeable_def plain_chars_def split: if_splits)
qed

lemma echo_cat_repl:
  assumes st: "storable ws f" and k: "no_modifier k" "io_in k = strokes (echo_line ws f @ NL @ ''cat '' @ f @ NL) @ rest"
    and inv: "fs_inv (fs k)" "current_inode (fs k) = 1" "file_count (fs k) < MAX_FILES" "free_blocks (fs k) \<noteq> 0"
    and new: "\<not> file_exists_in_current_dir (lower f) (fs k)" and h: "history_ok (hist k)"
  shows "\<exists>k'. repl regs (Suc n) [echo_line ws f, ''cat '' @ f] k = Ret () k' \<and> fs_inv (fs k') \<and> current_inode (fs k') = 1 \<and>
    (\<exists>i. find_in_cwd (lower f) is_regular k' = Some i \<and>
         content (fs k') (ino_ix (f_inode (entry_at i k'))) = lower (unwords ws)) \<and>
    history_lines (hist k') = last_n HISTORY_SIZE (history_lines (hist k) @ [echo_line ws f, ''cat '' @ f]) \<and>
    no_modifier k' \<and> io_in k' = rest \<and> screen (prompt_text (con k')) = screen (echo_cat_screen ws f (con k))"
proof -
  let ?l = "echo_line ws f" and ?t = "lower (unwords ws)" and ?m = "''File created and text written'' @ NL"
  note L = echo_cat_lines [OF st]
  have ok: "\<forall>w \<in> set ws. plain_word w" "word_ok f" "plain_word f" using st by (simp_all add: storable_def plain_word_def)
  have fn: "is_valid_filename (lower f)" "is_cstr (lower f)" "length (lower f) \<le> 30"
    using st ok(2) lower_is_cstr by (simp_all add: storable_def word_ok_def)
  have nonempty: "?l \<noteq> []" by (cases ws) (simp_all add: echo_line_def)
  obtain t1 where t1: "repl_line regs (Suc n) ?l k = call_void (run regs (Suc n)) (ExecuteCommand ?l) t1" "fs t1 = fs k"
    "no_modifier t1" "io_in t1 = strokes (''cat '' @ f @ NL) @ rest" "history_ok (hist t1)"
    "history_lines (hist t1) = last_n HISTORY_SIZE (history_lines (hist k) @ [?l])"
    "screen (con t1) = screen (terminal_writestring (?l @ NL) (prompt_text (con k)))"
    using line_at_root [OF k(1) _ _ _ nonempty inv(2) h, of "strokes (''cat '' @ f @ NL) @ rest" regs "Suc n"] k(2) st
    by (auto simp: storable_def)
  have e: "lower ''echo'' = ''echo''" "word_ok ''echo''" by (code_simp, simp add: word_ok_def)
  have x: "execute_command regs n (run regs n) ?l t1 = void (execute_redirect_output (Some (lower f)) (Some ?t)) t1"
    using echo_redirect_result [of "''echo''" ws f "''>''" regs n "run regs n" t1] e ok(1,2) st
    by (simp add: echo_line_def storable_def)
  obtain s i where R: "execute_redirect_output (Some (lower f)) (Some ?t) t1 = Ret () (show_text ?m (t1\<lparr>fs := s\<rparr>))"
    "fs_inv s" "find_in_cwd (lower f) is_regular (t1\<lparr>fs := s\<rparr>) = Some i" "valid_ino (f_inode (entry_at i (t1\<lparr>fs := s\<rparr>)))"
    "content s (ino_ix (f_inode (entry_at i (t1\<lparr>fs := s\<rparr>)))) = ?t" "current_inode s = 1"
    using redirect_new_file [of t1 "lower f" ?t] inv new fn t1(2) L(1) by auto
  let ?k1 = "show_text ?m (t1\<lparr>fs := s\<rparr>)"
  have c1: "repl_line regs (Suc n) ?l k = Ret () ?k1" using t1(1) call_command [OF x R(1)] by simp
  have nm: "no_modifier ?k1" using t1(3) by (simp add: no_modifier_def calm_def)
  obtain t2 where t2: "repl_line regs (Suc n) (''cat '' @ f) ?k1 = call_void (run regs (Suc n)) (ExecuteCommand (''cat '' @ f)) t2"
    "fs t2 = s" "no_modifier t2" "io_in t2 = rest"
    "history_lines (hist t2) = last_n HISTORY_SIZE (history_lines (hist t1) @ [''cat '' @ f])"
    "screen (con t2) = screen (terminal_writestring ((''cat '' @ f) @ NL) (prompt_text (con ?k1)))"
    using line_at_root [OF nm, of "''cat '' @ f" rest regs "Suc n"] t1(4,5) L R(6) by auto
  have y: "execute_command regs n (run regs n) (''cat '' @ f) t2 = void (execute_cat (Some (lower f))) t2"
    using cat_result [OF ok(3), of regs n "run regs n" t2] L(2) by simp
  have f2: "find_in_cwd (lower f) is_regular t2 = Some i" "entry_at i t2 = entry_at i (t1\<lparr>fs := s\<rparr>)"
    using R(3) t2(2) by (simp_all add: find_in_cwd_def entry_at_def)
  let ?n = "f_inode (entry_at i t2)"
  let ?k2 = "show_text (?t @ NL) (touch_atime ?n t2)"
  have "execute_cat (Some (lower f)) t2 = Ret () ?k2"
    using execute_cat_eq [of t2 "lower f" i] R(2,4,5) f2 t2(2) L(1) by simp
  then have c2: "repl_line regs (Suc n) (''cat '' @ f) ?k1 = Ret () ?k2" using t2(1) call_command [OF y] by simp
  have c: "repl regs (Suc n) [?l, ''cat '' @ f] k = Ret () ?k2"
    using c1 c2 by (simp add: repl_def andthen_def bindc_def ret_def)
  have T: "fs_inv (fs (touch_atime ?n t2))" "content (fs (touch_atime ?n t2)) (ino_ix ?n) = ?t" "con (touch_atime ?n t2) = con t2"
    "current_inode (fs (touch_atime ?n t2)) = 1"
    using touch_atime_fs [of t2 ?n] ino_ix_lt [of ?n] R(2,4-6) f2(2) t2(2) by simp_all
  have fr: "hist (touch_atime ?n t2) = hist t2" "io_in (touch_atime ?n t2) = io_in t2" "no_modifier (touch_atime ?n t2) = no_modifier t2"
    "entry_at i (touch_atime ?n t2) = entry_at i t2"
    by (simp_all add: touch_atime_def on_fs_def no_modifier_def calm_def entry_at_def)
  have "screen (con t2) = screen (terminal_writestring ((''cat '' @ f) @ NL) (prompt_text (terminal_writestring (?l @ NL @ ?m) (prompt_text (con k)))))"
    unfolding t2(6) using t1(7)
    by (intro blind_screen [OF blind_writestring] blind_screen [OF blind_prompt])
      (use blind_screen [OF blind_writestring, of "con t1" "terminal_writestring (?l @ NL) (prompt_text (con k))" ?m]
       in \<open>simp add: terminal_writestring_append\<close>)
  then have "screen (prompt_text (con ?k2)) = screen (echo_cat_screen ws f (con k))"
    unfolding echo_cat_screen_def on_con_show_text T(3)
    by (intro blind_screen [OF blind_prompt]) (use blind_screen [OF blind_writestring, of "con t2" _ "?t @ NL"]
       in \<open>simp add: terminal_writestring_append\<close>)
  moreover have "history_lines (hist t2) = last_n HISTORY_SIZE (history_lines (hist k) @ [?l, ''cat '' @ f])"
    unfolding t2(5) t1(6) by (simp add: last_n_append)
  moreover have "find_in_cwd (lower f) is_regular ?k2 = Some i"
    using f2(1) find_in_cwd_touch [of "lower f" is_regular ?n t2] by (simp add: find_in_cwd_def)
  ultimately show ?thesis using c T fr t2(3,4) by (intro exI [of _ ?k2]) (simp add: entry_at_def)
qed

lemma boot_names:
  assumes "is_cstr f" and "f \<notin> {''root'', ''bin'', ''etc'', ''home'', ''dev'', ''tmp'', ''sys'', ''fetch''}"
  shows "\<not> file_exists_in_current_dir f (boot_table boot_entries)"
  using assms by (subst exists_boot) (auto simp: boot_eval root_name_def)

text \<open>C2: From power-on to the text on the screen: with the login, \<open>echo words > file\<close> and \<open>cat file\<close> typed on
  the keyboard, the machine boots, logs in, stores the words, in lower case, in a new file of a
  consistent file system, prints them, remembers both lines and waits for the next key; the screen is
  exactly the one the text printed so far, from the first screen on, gives.\<close>

theorem power_on_echo_cat:
  assumes "storable ws f" and "4 \<le> n"
    and "lower f \<notin> {''root'', ''bin'', ''etc'', ''home'', ''dev'', ''tmp'', ''sys'', ''fetch''}"
  shows "\<exists>k. kernel_main regs (n + read_cost [echo_line ws f, ''cat '' @ f] + 9)
        (static_kernel vram (strokes (''root'' @ NL @ ''1'' @ NL @ echo_line ws f @ NL @ ''cat '' @ f @ NL))) = Stop Await k \<and>
    fs_inv (fs k) \<and>
    (\<exists>i. find_in_cwd (lower f) is_regular k = Some i \<and>
         content (fs k) (ino_ix (f_inode (entry_at i k))) = lower (unwords ws)) \<and>
    history_lines (hist k) = [echo_line ws f, ''cat '' @ f] \<and>
    screen (con k) = screen (echo_cat_screen ws f (first_screen vram))"
proof -
  let ?ss = "[echo_line ws f, ''cat '' @ f]" and ?s = "strokes (echo_line ws f @ NL @ ''cat '' @ f @ NL)"
  let ?m = "n + read_cost ?ss"
  have i: "strokes (''root'' @ NL @ ''1'' @ NL @ echo_line ws f @ NL @ ''cat '' @ f @ NL) = strokes (''root'' @ NL @ ''1'' @ NL) @ ?s"
    by simp
  obtain k0 where k0: "kernel_main regs (?m + 9) (static_kernel vram (strokes (''root'' @ NL @ ''1'' @ NL) @ ?s)) =
      bindc (run regs ?m (ShellPrompt (replicate 256 NUL))) (\<lambda>_. halt NoReturn) k0"
    "fs k0 = boot_table boot_entries" "hist k0 = hist (static_kernel vram ?s)" "no_modifier k0" "io_in k0 = ?s"
    "screen (con k0) = screen (first_screen vram)"
    using boot_to_prompt [of ?m regs vram ?s] assms(2) by auto
  obtain m where n: "n = Suc m" using assms(2) by (cases n) simp_all
  have "plain_word f" using assms(1) by (simp add: storable_def)
  then have c: "is_cstr (lower f)" using lower_is_cstr by (simp add: plain_word_def word_ok_def)
  have fs0: "fs_inv (fs k0)" "current_inode (fs k0) = 1" "file_count (fs k0) < MAX_FILES" "free_blocks (fs k0) \<noteq> 0"
    "\<not> file_exists_in_current_dir (lower f) (fs k0)" "history_ok (hist k0)" "history_lines (hist k0) = []"
    using k0(2,3) boot_table_inv boot_names [OF c assms(3)] static_history by simp_all
  obtain k1 where k1: "repl regs n ?ss k0 = Ret () k1" "fs_inv (fs k1)" "current_inode (fs k1) = 1"
    "\<exists>i. find_in_cwd (lower f) is_regular k1 = Some i \<and> content (fs k1) (ino_ix (f_inode (entry_at i k1))) = lower (unwords ws)"
    "history_lines (hist k1) = ?ss" "no_modifier k1" "io_in k1 = []"
    "screen (prompt_text (con k1)) = screen (echo_cat_screen ws f (con k0))"
    using echo_cat_repl [OF assms(1) k0(4) _ fs0(1-6), of "[]" regs m] k0(5) fs0(7) unfolding n by auto
  obtain line where l: "run regs ?m (ShellPrompt (replicate 256 NUL)) k0 = run regs n (ShellPrompt line) k1"
    using repl_returns [OF k1(1) assms(2), of n "replicate 256 NUL"] by auto
  have "run regs n (ShellPrompt line) k1 = Stop Await (root_prompt k1)"
    using prompt_waits [OF prompt_at_root [OF k1(3)], of regs "n - 4" line] k1(6,7) assms(2) by simp
  then have "kernel_main regs (?m + 9) (static_kernel vram (strokes (''root'' @ NL @ ''1'' @ NL) @ ?s)) = Stop Await (root_prompt k1)"
    using k0(1) l by (simp add: bindc_def)
  moreover have "screen (con (root_prompt k1)) = screen (echo_cat_screen ws f (first_screen vram))"
  proof -
    have b: "blind (echo_cat_screen ws f)"
      unfolding echo_cat_screen_def by (intro blind_comp [OF blind_prompt] blind_then(2) blind_prompt)
    show ?thesis using screen_prompt [of k1] k1(8) blind_screen [OF b k0(6)] by simp
  qed
  moreover have "find_in_cwd (lower f) is_regular (root_prompt k1) = find_in_cwd (lower f) is_regular k1"
    "entry_at i (root_prompt k1) = entry_at i k1" for i
    by (simp_all add: find_in_cwd_def entry_at_def)
  ultimately show ?thesis using k1(2,4,5) unfolding i by (intro exI [of _ "root_prompt k1"]) simp
qed

theorem power_on_echo_cat_witness:
  "\<exists>k. kernel_main [] 100 (static_kernel (\<lambda>_. 0)
        (strokes (''root'' @ NL @ ''1'' @ NL @ ''echo Hello World > Note'' @ NL @ ''cat '' @ ''Note'' @ NL))) = Stop Await k \<and>
    (\<exists>i. find_in_cwd ''note'' is_regular k = Some i \<and>
         content (fs k) (ino_ix (f_inode (entry_at i k))) = ''hello world'') \<and>
    history_lines (hist k) = [''echo Hello World > Note'', ''cat Note'']"
proof -
  have l: "lower ''Note'' = ''note''" "lower ''Hello World'' = ''hello world''" by code_simp+
  have e: "echo_line [''Hello'', ''World''] ''Note'' = ''echo Hello World > Note''" by (simp add: echo_line_def)
  have t: "list_all (\<lambda>c. c \<in> set typeable) ''echo Hello World > Note''" by code_simp
  have v: "is_valid_filename ''note''" by code_simp
  have "storable [''Hello'', ''World''] ''Note''"
    using t l(1) v unfolding storable_def e list_all_iff by (auto simp: plain_word_def word_ok_def)
  note p = power_on_echo_cat [OF this, of 56 "[]" "\<lambda>_. 0"]
  have u: "unwords [''Hello'', ''World''] = ''Hello World''" "''cat '' @ ''Note'' = ''cat Note''"
    "56 + read_cost [''echo Hello World > Note'', ''cat Note''] + 9 = 100" by (simp_all add: read_cost_def)
  show ?thesis using p unfolding e l u by (simp del: strokes_simps append.simps) blast
qed

text \<open>The first line after the boot, on the loop over lines: \<open>ls\<close> prints the root directory.\<close>

lemma ls_command: "execute_command regs n sys ''ls'' k = void execute_ls k"
proof -
  have r: "find_redirect [''ls''] = None" by code_simp
  have c: "\<not> is_cmd ''ls'' ''help''" "\<not> is_cmd ''ls'' ''cls''" "\<not> is_cmd ''ls'' ''clear''" "\<not> is_cmd ''ls'' ''ver''" "is_cmd ''ls'' ''ls''"
    by code_simp+
  have ok: "\<forall>w \<in> set [''ls'']. word_ok w" by (simp add: word_ok_def)
  have "lower ''ls'' = ''ls''" by code_simp
  then have "execute_command regs n sys ''ls'' k = dispatch regs n sys ''ls'' [''ls''] k"
    using execute_command_words [OF ok, of regs n sys k] r by (simp add: MAX_ARGS_def execute_args_def)
  then show ?thesis using c by (simp add: dispatch_def)
qed

theorem shell_refines_repl_witness:
  "\<exists>k k1 line. repl [] 5 [''ls''] (boot_kernel (\<lambda>_. 0) (strokes (''ls'' @ NL))) = Ret () (show_text (ls_text (fs k1) @ NL) k1) \<and>
    k = show_text (ls_text (fs k1) @ NL) k1 \<and>
    run [] 9 (ShellPrompt (replicate 256 NUL)) (boot_kernel (\<lambda>_. 0) (strokes (''ls'' @ NL))) = run [] 5 (ShellPrompt line) k"
proof -
  let ?k = "boot_kernel (\<lambda>_. 0) (strokes (''ls'' @ NL))"
  obtain t where t: "repl_line [] 5 ''ls'' ?k = call_void (run [] 5) (ExecuteCommand ''ls'') t" "fs t = boot_table boot_entries"
    using line_at_root [of ?k "''ls''" "[]" "[]" 5] static_history by auto
  have "execute_ls t = Ret () (show_text (ls_text (fs t) @ NL) t)" using execute_ls_eq [of t] t(2) boot_table_inv by simp
  from call_command [OF ls_command this, where n = 4 and regs = "[]"] have r: "repl [] 5 [''ls''] ?k = Ret () (show_text (ls_text (fs t) @ NL) t)"
    using t(1) by (simp add: repl_def andthen_def bindc_def ret_def)
  show ?thesis
    using shell_refines_repl [of 5 "replicate 256 NUL" "[]" "[''ls'']" ?k] r by (auto simp: read_cost_def)
qed

end
