(* ===== verification/String_Props.thy ===== *)
theory String_Props imports CString begin

text \<open>
  Properties of the string routines: copying with a limit, searching, and numbers written and read
  back.
\<close>

section \<open>Strings\<close>

text \<open>Copying with a limit is right exactly when the source is shorter than the limit: then the rest up
  to the limit is filled with zeros; otherwise the padding loop, whose counter has wrapped, runs off
  the destination.\<close>

theorem strncpy_outcome:
  assumes "unat n \<le> length dest" and "length dest < 2 ^ 64 - 1"
  shows "strncpy dest src n =
    (if length src < unat n then Inr (src @ replicate (unat n - length src) NUL @ drop (unat n) dest)
     else Inl OutOfBounds)"
  using strncpy_ok [of src n dest] strncpy_runaway [of n src dest] assms by simp

theorem strncpy_outcome_witness:
  "strncpy ''xxxxx'' ''ab'' 4 = Inr (''ab'' @ replicate 2 NUL @ ''x'') \<and> strncpy ''xxxxx'' ''abcd'' 4 = Inl OutOfBounds"
proof -
  have "unat (4 :: u64) = Suc (Suc (Suc (Suc 0)))" by simp
  then show ?thesis
    using strncpy_outcome [of 4 "''xxxxx''" "''ab''"] strncpy_outcome [of 4 "''xxxxx''" "''abcd''"] by simp
qed

text \<open>C36: \<open>strstr\<close> finds the first occurrence: it returns the rest of the text from the least position at
  which the pattern stands, or nothing, and never reads past the terminator.\<close>

theorem strstr_finds_first:
  assumes "is_cstr needle"
  shows "strstr h needle =
    Inr (map_option (\<lambda>i. drop i h) (first_index (\<lambda>i. take (length needle) (drop i h) = needle) (Suc (length h))))"
proof (cases "needle = []")
  case True
  have "first_index (\<lambda>i. take (length needle) (drop i h) = needle) (Suc (length h)) = Some 0"
    unfolding first_index_Some using True by simp
  then show ?thesis using True by (simp add: strstr_def)
next
  case False
  let ?at = "\<lambda>i. take (length needle) (drop i h) = needle"
  have small: "i < Suc (length h)" if "?at i" for i using that False by (cases "i \<le> length h") auto
  obtain r where r: "strstr_from h needle = Inr r" "case r of None \<Rightarrow> \<forall>i. \<not> ?at i
      | Some t \<Rightarrow> \<exists>i. t = drop i h \<and> take (length needle) t = needle \<and> (\<forall>j<i. \<not> ?at j)"
    using strstr_from_correct [OF assms False, of h] by blast
  have "r = map_option (\<lambda>i. drop i h) (first_index ?at (Suc (length h)))"
  proof (cases r)
    case None
    then have "first_index ?at (Suc (length h)) = None" unfolding first_index_None using r(2) by simp
    then show ?thesis using None by simp
  next
    case (Some t)
    then obtain i where i: "t = drop i h" "?at i" "\<forall>j<i. \<not> ?at j" using r(2) by auto
    then have "first_index ?at (Suc (length h)) = Some i" unfolding first_index_Some using small by simp
    then show ?thesis using Some i(1) by simp
  qed
  then show ?thesis using r(1) False by (simp add: strstr_def)
qed

theorem strstr_finds_first_witness: "strstr ''the cat sat'' ''at'' = Inr (Some ''at sat'')"
proof -
  have "first_index (\<lambda>i. take (length ''at'') (drop i ''the cat sat'') = ''at'') (Suc (length ''the cat sat'')) = Some 5"
    by code_simp
  then show ?thesis using strstr_finds_first [of "''at''" "''the cat sat''"] by simp
qed

text \<open>C37: Writing a number and reading it back gives it again if it is not negative, and zero if it is,
  because \<open>atoi\<close> knows no sign; an array of 12 bytes is enough for every \<open>int\<close> but the least.\<close>

theorem int_to_str_atoi:
  assumes "INT_MIN < n" and "n \<le> INT_MAX" and "12 \<le> length a"
  shows "\<exists>a'. int_to_str n a = Inr a' \<and> atoi (cstr a') = Inr (if n < 0 then 0 else n)"
proof -
  have m: "nat \<bar>n\<bar> < 10 ^ 10" using assms(1,2) by simp
  then have "length (dec_nat (nat \<bar>n\<bar>)) \<le> 10" by (intro length_dec_nat_le) simp_all
  then have l: "length (dec_int n) < length a" using assms(3) by (cases "n < 0") (simp_all add: dec_int_def)
  have c: "is_cstr (dec_int n)" using is_cstr_digits by (simp add: dec_int_def)
  have "atoi (dec_int n) = Inr (if n < 0 then 0 else n)"
  proof (cases "n < 0")
    case True
    have "schar (CHR ''-'') = 45" by code_simp
    then show ?thesis using True by (simp add: dec_int_def atoi_def)
  next
    case False
    then show ?thesis
      using atoi_dec_nat [of "nat n"] assms(2) by (simp add: dec_int_def)
  qed
  then show ?thesis using int_to_str_eq [of n a] assms(1) l c by simp
qed

theorem int_to_str_atoi_witness:
  "(\<exists>a'. int_to_str 1927 (replicate 12 NUL) = Inr a' \<and> atoi (cstr a') = Inr 1927) \<and>
   (\<exists>a'. int_to_str (-5) (replicate 12 NUL) = Inr a' \<and> atoi (cstr a') = Inr 0)"
  using int_to_str_atoi [of 1927 "replicate 12 NUL"] int_to_str_atoi [of "-5" "replicate 12 NUL"]
  by (simp del: replicate.simps)

end
