(* ===== verification/Screen_Props.thy ===== *)
theory Screen_Props imports Console_Props begin

text \<open>
  Properties of the console: its bounds along every sequence of screen operations, formatted output
  against a reference rendering, and the terminals as saved screens.
\<close>

section \<open>The console\<close>

text \<open>What the kernel does to the console, in any order.\<close>

inductive con_step :: "console \<Rightarrow> console \<Rightarrow> bool" where
  shown: "con_step c (terminal_writestring s c)"
| char: "con_step c (terminal_putchar ch c)"
| raw: "terminal_write data n c = Inr c' \<Longrightarrow> con_step c c'"
| formatted: "terminal_printf fmt args c = Inr c' \<Longrightarrow> con_step c c'"
| color: "con_step c (terminal_setcolor fg bg c)"
| clear: "con_step c (terminal_clear c)"
| start: "con_step c (terminal_initialize c)"
| mouse_test: "con_step c (c\<lparr>smouse_mode := b\<rparr>)"
| save: "con_step c (save_tty_state n c)"
| switch: "i < MAX_TTYS \<Longrightarrow> con_step c (c\<lparr>current_tty := i\<rparr>)"
| restore: "restore_tty_state c = (n, c') \<Longrightarrow> con_step c c'"

definition console_ok :: "console \<Rightarrow> bool" where
  "console_ok c \<longleftrightarrow> cursor_ok c \<and> length (ttys c) = MAX_TTYS \<and> current_tty c < MAX_TTYS \<and>
     (\<forall>i<MAX_TTYS. tty_row (ttys c ! i) < SCREEN_HEIGHT \<and> tty_column (ttys c ! i) < SCREEN_WIDTH)"

lemma console_okI:
  assumes "console_ok c" and "cursor_ok c'" and "ttys c' = ttys c" and "current_tty c' = current_tty c"
  shows "console_ok c'"
  using assms by (simp add: console_ok_def)

text \<open>The steps that print change the cursor and the screen only.\<close>

lemma writestring_step:
  assumes "console_ok c"
  shows "console_ok (terminal_writestring s c)"
    and "2000 \<le> i \<Longrightarrow> terminal_buffer (terminal_writestring s c) i = terminal_buffer c i"
  using assms writestring_cursor_ok [of c s] writestring_outside [of c i s]
  by (simp_all add: console_ok_def)

lemma write_is_text:
  assumes "terminal_write data n c = Inr c'"
  shows "\<exists>s. c' = terminal_writestring s c"
proof (cases "smouse_mode c \<or> n \<le> length data")
  case True
  then show ?thesis
    using assms terminal_write_eq [of n data c]
    by (auto simp: terminal_write_def terminal_writestring_def intro: exI [of _ "[]"] split: if_splits)
next
  case False
  let ?f = "\<lambda>i c. sbind (read_at data i) (\<lambda>ch. Inr (terminal_putchar ch c))"
  have "[0..<n] = [0..<length data] @ length data # [Suc (length data)..<n]"
    using False by (metis le0 not_le upt_add_eq_append upt_conv_Cons add_diff_inverse_nat not_less le_add_diff_inverse less_imp_le)
  moreover have "sfold ?f (length data # js) c'' = Inl OutOfBounds" for js c'' by (simp add: read_at_def)
  ultimately have "sfold ?f [0..<n] c \<noteq> Inr c'" by (auto simp: sfold_append sbind_eq_Inr)
  then show ?thesis using assms False by (simp add: terminal_write_def)
qed

lemma printf_is_text:
  assumes "terminal_printf fmt args c = Inr c'"
  shows "\<exists>s. c' = terminal_writestring s c"
proof (cases "smouse_mode c")
  case True
  then show ?thesis using assms by (intro exI [of _ "[]"]) (simp add: terminal_printf_def)
qed (use assms in \<open>auto simp: terminal_printf_def sbind_eq_Inr\<close>)

lemma save_step:
  assumes "console_ok c"
  shows "console_ok (save_tty_state n c)" and "terminal_buffer (save_tty_state n c) = terminal_buffer c"
proof -
  have i: "current_tty c < length (ttys c)" using assms by (simp add: console_ok_def)
  let ?d = "save_tty_state n c"
  have f: "terminal_buffer ?d = terminal_buffer c" "terminal_row ?d = terminal_row c" "terminal_column ?d = terminal_column c"
    "length (ttys ?d) = length (ttys c)" "current_tty ?d = current_tty c"
    using i unfolding save_tty_state_def by (simp_all add: save_rows del: upt.simps upt_rec_numeral)
  have "tty_row (ttys ?d ! j) < SCREEN_HEIGHT \<and> tty_column (ttys ?d ! j) < SCREEN_WIDTH" if "j < MAX_TTYS" for j
    using that assms save_holds(1) [OF i, of n] save_holds(2) [OF i, of j n]
    by (cases "j = current_tty c") (auto simp: console_ok_def holds_screen_def cursor_ok_def)
  then show "console_ok ?d" using assms f by (simp add: console_ok_def cursor_ok_def)
  show "terminal_buffer ?d = terminal_buffer c" by (rule f)
qed

lemma initialize_step:
  assumes "console_ok c"
  shows "console_ok (terminal_initialize c)"
    and "2000 \<le> i \<Longrightarrow> terminal_buffer (terminal_initialize c) i = terminal_buffer c i"
  using assms
  by (simp_all add: terminal_initialize_def initialize_ttys_def terminal_setcolor_def terminal_clear_eq Let_def
      console_ok_def cursor_ok_def)

lemma con_step_ok:
  assumes "con_step c c'" and ok: "console_ok c"
  shows "console_ok c' \<and> (\<forall>i\<ge>2000. terminal_buffer c' i = terminal_buffer c i)"
  using assms(1)
proof cases
  case (raw data n)
  then show ?thesis using write_is_text writestring_step [OF ok] by blast
next
  case (formatted fmt args)
  then show ?thesis using printf_is_text writestring_step [OF ok] by blast
next
  case (color fg bg)
  then show ?thesis using ok by (auto simp: terminal_setcolor_def Let_def console_ok_def cursor_ok_def nth_list_update)
next
  case (char ch)
  then show ?thesis using ok putchar_cursor_ok putchar_outside by (simp add: console_ok_def)
next
  case (restore n)
  then show ?thesis using ok by (auto simp: restore_eq Let_def console_ok_def cursor_ok_def)
qed (use ok writestring_step [OF ok] initialize_step [OF ok] save_step [OF ok] in
    \<open>auto simp: terminal_clear_eq console_ok_def cursor_ok_def\<close>)

interpretation console_steps: stepping con_step "\<lambda>c. console_ok c \<and> (\<forall>i\<ge>2000. terminal_buffer c i = vram i)" for vram
  by unfold_locales (use con_step_ok in simp)

lemma static_console_ok: "console_ok (static_console vram)"
  by (simp add: console_ok_def cursor_ok_def static_console_def zero_tty_def del: replicate.simps)

text \<open>C19: The screen's bounds: whatever is printed, cleared, saved, switched and restored from the start,
  the cursor stays inside the 80 by 25 cells, so does every saved cursor, and the video memory behind
  the last cell is never written.\<close>

theorem console_stays_on_screen:
  assumes "con_step\<^sup>*\<^sup>* (static_console vram) c"
  shows "console_ok c \<and> (\<forall>i\<ge>2000. terminal_buffer c i = vram i)"
  by (rule console_steps.ok_reachable [OF assms]) (use static_console_ok in \<open>simp add: static_console_def\<close>)

theorem console_stays_on_screen_witness:
  "let c = terminal_writestring (replicate 3000 CHR ''x'') (terminal_initialize (static_console (\<lambda>_. 7)))
   in cursor_ok c \<and> terminal_buffer c 2000 = 7"
proof -
  have "con_step\<^sup>*\<^sup>* (static_console (\<lambda>_. 7))
      (terminal_writestring (replicate 3000 CHR ''x'') (terminal_initialize (static_console (\<lambda>_. 7))))"
    by (blast intro: con_step.intros rtranclp.intros)
  from console_stays_on_screen [OF this] show ?thesis by (simp add: Let_def console_ok_def del: replicate.simps)
qed

text \<open>C20: \<open>terminal_printf\<close> prints what the reference rendering of the format gives when that is shorter
  than 256 characters, and overruns its buffer otherwise.\<close>

theorem printf_renders_or_overruns:
  assumes "render fmt args = Some t" and "\<not> smouse_mode c"
  shows "terminal_printf fmt args c =
    (if length t < 256 then Inr (terminal_writestring (cstr t) c) else Inl OutOfBounds)"
  by (rule terminal_printf_eq [OF assms])

theorem printf_renders_or_overruns_witness:
  "terminal_printf ''%s has %d%%'' [Str ''sda'', Word 7] (static_console (\<lambda>_. 0)) =
     Inr (terminal_writestring ''sda has 7%'' (static_console (\<lambda>_. 0)))"
proof -
  have "render ''%s has %d%%'' [Str ''sda'', Word 7] = Some ''sda has 7%''" by code_simp
  moreover have "cstr ''sda has 7%'' = ''sda has 7%''" by code_simp
  ultimately show ?thesis
    using printf_renders_or_overruns [of "''%s has %d%%''" "[Str ''sda'', Word 7]" "''sda has 7%''" "static_console (\<lambda>_. 0)"]
    by (simp add: static_console_def del: replicate.simps)
qed

text \<open>Switching terminals is a round trip: if the terminal left behind still is as it was saved, coming
  back restores its 2000 cells, cursor, colour and working directory.\<close>

theorem tty_switch_restores:
  assumes "current_tty c < length (ttys c)" and "current_tty d = current_tty c"
    and "ttys d ! current_tty c = ttys (save_tty_state n c) ! current_tty c"
  shows "\<exists>d'. restore_tty_state d = (n, d') \<and> same_screen (terminal_buffer d') (terminal_buffer c) \<and>
    terminal_row d' = terminal_row c \<and> terminal_column d' = terminal_column c \<and> terminal_color d' = terminal_color c"
proof -
  obtain n' d' where r: "restore_tty_state d = (n', d')" by (cases "restore_tty_state d")
  have "holds_screen (ttys d ! current_tty d) n c" using save_holds(1) [OF assms(1), of n] assms(2,3) by simp
  from restore_holds [OF this r] show ?thesis using r by blast
qed

theorem tty_switch_restores_witness:
  "\<exists>d'. restore_tty_state ((terminal_clear (save_tty_state 6 (static_console (\<lambda>_. 7))))\<lparr>current_tty := 0\<rparr>) = (6, d') \<and>
    same_screen (terminal_buffer d') (\<lambda>_. 7)"
proof -
  let ?c = "static_console (\<lambda>_. 7)"
  have c: "current_tty ?c = 0" "length (ttys ?c) = MAX_TTYS" "terminal_buffer ?c = (\<lambda>_. 7)"
    by (simp_all add: static_console_def del: replicate.simps)
  show ?thesis
    using tty_switch_restores [of ?c "(terminal_clear (save_tty_state 6 ?c))\<lparr>current_tty := 0\<rparr>" 6] c
    by (auto simp: terminal_clear_eq simp del: replicate.simps)
qed

end
