(* ===== verification/Device_Props.thy ===== *)
theory Device_Props imports InfoCmds Mouse begin

text \<open>
  Properties of the clock, the process table, the network device and the mouse.
\<close>

section \<open>The clock\<close>

text \<open>The value a clock register yields.\<close>

definition clock_value :: "u8 \<Rightarrow> nat" where
  "clock_value x = nat (uint (bcd8 x))"

lemma clock_value_bcd: "clock_value x = nat (uint x mod 16 + uint x div 16 * 10)"
  by (simp add: clock_value_def bcd8_value)

lemma number_clock: "number 3 (uint (bcd8 x)) k =
    (if clock_value x < 100 then Ret (dec_nat (clock_value x) @ NUL # drop (Suc (length (dec_nat (clock_value x)))) (replicate 3 NUL)) k
     else Stop (Fault OutOfBounds) k)"
  using two_digits [of "clock_value x" k] by (simp add: clock_value_def)

lemma cmos_read_Cons:
  "io_in k = b # bs \<Longrightarrow> cmos_read reg k = Ret b (k\<lparr>io_in := bs, con := (outb CMOS_ADDRESS reg (con k))\<lparr>io_trace :=
     InB CMOS_DATA b # io_trace (outb CMOS_ADDRESS reg (con k))\<rparr>\<rparr>)"
  by (simp add: cmos_read_def andthen_def bindc_def act_def inb_def on_con_def)

text \<open>Reading three registers in a row.\<close>

definition after_clock :: "u8 \<times> u8 \<Rightarrow> u8 \<times> u8 \<Rightarrow> u8 \<times> u8 \<Rightarrow> kernel \<Rightarrow> kernel" where
  "after_clock a b c k = k\<lparr>io_in := drop 3 (io_in k), con := (con k)\<lparr>io_trace :=
     InB CMOS_DATA (snd c) # OutB CMOS_ADDRESS (fst c) # InB CMOS_DATA (snd b) # OutB CMOS_ADDRESS (fst b) #
     InB CMOS_DATA (snd a) # OutB CMOS_ADDRESS (fst a) # io_trace (con k)\<rparr>\<rparr>"

text \<open>\<open>time\<close> prints hour, minute and second as decimal numbers when each register reads below 100,
  which every valid BCD byte does; any byte that reads 100 or more, such as 0xFF from a clock that is
  not there, overruns the array of three characters.\<close>

theorem time_prints_or_overruns:
  assumes "io_in k = h # m # s # rest"
  shows "execute_time k =
    (let k1 = after_clock (4, h) (2, m) (0, s) k
     in if clock_value h < 100 \<and> clock_value m < 100 \<and> clock_value s < 100
        then Ret () (show_text (dec_nat (clock_value h) @ '':'' @ dec_nat (clock_value m) @ '':'' @
               dec_nat (clock_value s) @ NL) k1)
        else Stop (Fault OutOfBounds) k1)"
proof -
  have c: "cstr (dec_nat n @ NUL # r) = dec_nat n" for n r using is_cstr_digits [of n] by simp
  have "show_text [] k = k" for k by (simp add: show_text_def on_con_def)
  then show ?thesis
    using assms
    by (simp add: execute_time_def bindc_def cmos_read_Cons number_clock Let_def c andthen_def say_def act_def ret_def
        show_text_append after_clock_def outb_def)
qed

theorem time_prints_or_overruns_witness:
  "execute_time (static_kernel (\<lambda>_. 0) [0x23, 0x59, 0xFF]) =
    Stop (Fault OutOfBounds) (after_clock (4, 0x23) (2, 0x59) (0, 0xFF) (static_kernel (\<lambda>_. 0) [0x23, 0x59, 0xFF]))"
  using time_prints_or_overruns [of "static_kernel (\<lambda>_. 0) [0x23, 0x59, 0xFF]" "0x23" "0x59" "0xFF" "[]"]
  by (simp add: clock_value_bcd Let_def static_kernel_def del: replicate.simps)

section \<open>Processes\<close>

inductive proc_step :: "proctab \<Rightarrow> proctab \<Rightarrow> bool" where
  fork: "sys_fork t = (n, t') \<Longrightarrow> proc_step t t'"
| exit: "proc_step t (sys_exit status t)"
| signal: "find_proc n t = Some i \<Longrightarrow> proc_step t (signal_proc i sig t)"

lemma proc_step_ok: "proc_step t t' \<Longrightarrow> proctab_ok t \<Longrightarrow> proctab_ok t' \<and> current_process t' = current_process t"
proof (induction rule: proc_step.induct)
  case (fork t n t')
  then show ?case by (auto simp: sys_fork_def Let_def proctab_ok_def split: if_splits)
next
  case (signal n t i sig)
  have "current_process (signal_proc i sig t) = current_process t" by (simp add: signal_proc_def remove_proc_def upd_proc_def)
  then show ?case
    using remove_proc_active [OF signal.prems, of i] find_proc_Some [OF signal.hyps] signal.prems
    by (auto simp: signal_proc_def upd_proc_def proctab_ok_def)
qed (simp add: sys_exit_def upd_proc_def proctab_ok_def)

interpretation proc_steps: stepping proc_step "\<lambda>t. proctab_ok t \<and> current_process t = 0"
  by unfold_locales (simp add: proc_step_ok)

lemma static_proctab: "proctab_ok (proc (static_kernel vram input))" "current_process (proc (static_kernel vram input)) = 0"
  by (simp_all add: static_kernel_def proctab_ok_def del: replicate.simps)

text \<open>The process table keeps its shape: after any sequence of forks, exits and signals from the start
  it has its 16 slots, the count is at most 16 and the current process is still slot 0, so no index
  of the table is out of range.\<close>

theorem proc_table_shape:
  assumes "proc_step\<^sup>*\<^sup>* (proc (static_kernel vram input)) t"
  shows "proctab_ok t \<and> current_process t = 0"
  by (rule proc_steps.ok_reachable [OF assms]) (simp add: static_proctab)

theorem proc_table_shape_witness:
  "proctab_ok (sys_exit 1 (snd (sys_fork (proc (static_kernel (\<lambda>_. 0) [])))))"
proof -
  let ?t = "proc (static_kernel (\<lambda>_. 0) [])"
  have "proc_step ?t (snd (sys_fork ?t))" by (rule proc_step.fork [of _ "fst (sys_fork ?t)"]) simp
  then have "proc_step\<^sup>*\<^sup>* ?t (sys_exit 1 (snd (sys_fork ?t)))" by (blast intro: proc_step.exit rtranclp.intros)
  from proc_table_shape [OF this] show ?thesis by simp
qed

text \<open>\<open>kill pid 2\<close> and \<open>kill pid 9\<close> take exactly the first process with that number out of the table
  and keep the order of the others; nothing else changes.\<close>

theorem kill_removes_one:
  assumes "atoi pid_str = Inr n" and "atoi sig_str = Inr s" and "word_of_int s = SIGINT \<or> word_of_int s = SIGKILL"
    and "proctab_ok (proc k)" and "find_proc (word_of_int n) (proc k) = Some i"
  shows "\<exists>t. execute_kill pid_str sig_str k = Ret () (k\<lparr>proc := t\<rparr>) \<and> proctab_ok t \<and>
    active t = take i (active (proc k)) @ drop (Suc i) (active (proc k))"
  using remove_proc_active [OF assms(4), of i] find_proc_Some [OF assms(5)] assms
  by (auto simp: execute_kill_def bindc_def lift_sum_def send_signal_def signal_proc_def on_proc_def)

theorem kill_removes_one_witness:
  "\<exists>t. execute_kill ''2'' ''9'' ((static_kernel (\<lambda>_. 0) [])\<lparr>proc := snd (sys_fork (proc (static_kernel (\<lambda>_. 0) [])))\<rparr>) =
    Ret () ((static_kernel (\<lambda>_. 0) [])\<lparr>proc := t\<rparr>) \<and> active t = []"
proof -
  let ?t = "snd (sys_fork (proc (static_kernel (\<lambda>_. 0) [])))"
  have "proc_step (proc (static_kernel (\<lambda>_. 0) [])) ?t" by (rule proc_step.fork [of _ "fst (sys_fork (proc (static_kernel (\<lambda>_. 0) [])))"]) simp
  then have ok: "proctab_ok ?t" using proc_step_ok static_proctab(1) by blast
  have a: "atoi ''2'' = Inr 2" "atoi ''9'' = Inr 9" by code_simp+
  have p: "process_count ?t = 1" "pid (processes ?t ! 0) = 2"
    by (simp_all add: sys_fork_def static_kernel_def Let_def del: replicate.simps)
  then have f: "find_proc 2 ?t = Some 0" by (simp add: find_proc_def first_index_Some)
  have "length (active ?t) = 1" using ok p by (simp add: active_def proctab_ok_def)
  then show ?thesis
    using kill_removes_one [OF a _ _ , of "(static_kernel (\<lambda>_. 0) [])\<lparr>proc := ?t\<rparr>" 0] ok f by auto
qed

text \<open>Process numbers are not unique: fork, fork, kill the first, fork gives the third the number of the second.\<close>

lemma fork_reuses_pid:
  "let t1 = snd (sys_fork (proc (static_kernel vram input))); (p2, t2) = sys_fork t1;
       (p3, t3) = sys_fork (signal_proc 0 SIGKILL t2)
   in p2 = 3 \<and> p3 = 3 \<and> map pid (active t3) = [3, 3]"
  by (simp add: sys_fork_def static_kernel_def Let_def signal_proc_def remove_proc_def active_def
      take_Suc_conv_app_nth numeral_2_eq_2 del: replicate.simps)


section \<open>The network device\<close>

text \<open>An address always fits its array of 16 bytes: the four decimal octets with dots, at most 15
  characters, and the terminator.\<close>

theorem ip_to_str_fits:
  assumes "length buf = 16"
  shows "\<exists>b. ip_to_str addr buf = Inr b \<and> length b = 16 \<and> cstr b = dotted addr"
proof -
  have "is_cstr (dotted addr)" using is_cstr_digits by (simp add: dotted_def)
  then show ?thesis using ip_to_str_eq [of buf addr] assms by auto
qed

theorem ip_to_str_fits_witness:
  "\<exists>b. ip_to_str 0xFFFFFFFF not_configured = Inr b \<and> length b = 16 \<and> cstr b = dotted 0xFFFFFFFF"
  by (rule ip_to_str_fits) (simp add: not_configured_def)

section \<open>The mouse\<close>

text \<open>The video memory behind the screen and the mouse before and after.\<close>

definition same_mouse :: "kernel \<Rightarrow> kernel \<Rightarrow> bool" where
  "same_mouse k k' \<longleftrightarrow> mice k' = mice k \<and> terminal_buffer (con k') = terminal_buffer (con k)"

lemma inb_same_mouse: "inb p k = Ret b k' \<Longrightarrow> same_mouse k k'"
  by (auto simp: inb_def same_mouse_def split: list.splits)

lemma mouse_wait_same: "mouse_wait_loop n type k = Ret u k' \<Longrightarrow> same_mouse k k'"
proof (induction n type k rule: mouse_wait_loop.induct)
  case (2 timeout type k)
  obtain st k1 where i: "inb 0x64 k = Ret st k1" using "2.prems" by (cases "inb 0x64 k") (simp_all add: bindc_def)
  have s: "same_mouse k k1" by (rule inb_same_mouse [OF i])
  show ?case
  proof (cases "if type = 0 then st AND 1 = 1 else st AND 2 = 0")
    case True
    then have "k' = k1" using "2.prems" i by (simp add: bindc_def ret_def split: if_splits)
    then show ?thesis using s by simp
  next
    case False
    then have "mouse_wait_loop timeout type k1 = Ret u k'" using "2.prems" i by (simp add: bindc_def split: if_splits)
    then show ?thesis using "2.IH" [OF False] s by (simp add: same_mouse_def)
  qed
qed (simp add: same_mouse_def)

lemma mouse_read_same: "mouse_read k = Ret b k' \<Longrightarrow> same_mouse k k'"
  using mouse_wait_same inb_same_mouse
  by (fastforce simp: mouse_read_def mouse_wait_def andthen_def bindc_def same_mouse_def split: outcome.splits)

text \<open>What a command may do: keep the mouse inside the screen and the memory behind the screen.\<close>

definition mouse_safe :: "kernel \<Rightarrow> kernel \<Rightarrow> bool" where
  "mouse_safe k k' \<longleftrightarrow> mouse_ok (mice k') \<and> (\<forall>i\<ge>2000. terminal_buffer (con k') i = terminal_buffer (con k) i)"

lemma mouse_safe_trans: "mouse_safe k k1 \<Longrightarrow> mouse_safe k1 k2 \<Longrightarrow> mouse_safe k k2"
  by (simp add: mouse_safe_def)

lemma mouse_safe_same: "same_mouse k k' \<Longrightarrow> mouse_ok (mice k) \<Longrightarrow> mouse_safe k k'"
  by (simp add: same_mouse_def mouse_safe_def)

lemma mouse_pos_lt:
  assumes "mouse_ok m"
  shows "mouse_pos m < 2000"
proof -
  have b: "0 \<le> mouse_y m * int SCREEN_WIDTH + mouse_x m" "mouse_y m * int SCREEN_WIDTH + mouse_x m < 2000"
    using assms by (auto simp: mouse_ok_def)
  have "unat (word_of_int x :: u16) = nat x" if "0 \<le> x" "x < 2000" for x
    using that by (simp add: unat_eq_nat_uint uint_word_of_int)
  from this [OF b] show ?thesis using b(2) unfolding mouse_pos_def by linarith
qed

lemma pointer_safe: "mouse_ok (mice k) \<Longrightarrow> mouse_safe k (draw_mouse k)" "mouse_ok (mice k) \<Longrightarrow> mouse_safe k (clear_mouse k)"
  using mouse_pos_lt [of "mice k"] by (auto simp: mouse_safe_def draw_mouse_def clear_mouse_def on_con_def poke_def)

lemma selection_safe:
  assumes "mouse_ok (mice k)"
  shows "mouse_safe k (draw_selection k)" "mouse_safe k (clear_selection k)"
proof -
  have out: "i \<notin> set (selection_cells (mice k))" if "2000 \<le> i" "selection_active (mice k)" for i
    using selection_cells_bound [OF assms that(2), of i] that(1) by auto
  have "terminal_buffer (fold (\<lambda>pos c. recolor (f c) pos c) ps c) i = terminal_buffer c i" if "i \<notin> set ps" for f ps c i
    using that by (induction ps arbitrary: c) (auto simp: recolor_def poke_def)
  then show "mouse_safe k (draw_selection k)" "mouse_safe k (clear_selection k)"
    using assms out recolor_outside
    by (auto simp: mouse_safe_def draw_selection_def clear_selection_def on_con_def)
qed

lemma apply_packet_safe:
  assumes "mouse_ok (mice k)"
  shows "mouse_safe k (apply_packet k)"
proof -
  have "terminal_buffer (con (apply_packet k)) i = terminal_buffer (con k) i" if "2000 \<le> i" for i
  proof -
    have "mouse_safe k1 (clear_selection k1)" if "mouse_ok (mice k1)" for k1 using selection_safe that by blast
    then have *: "mouse_ok m \<Longrightarrow> terminal_buffer (con (clear_selection (k\<lparr>mice := m\<rparr>))) i = terminal_buffer (con k) i" for m
      using \<open>2000 \<le> i\<close> by (auto simp: mouse_safe_def)
    show ?thesis
      using assms clamp_bounds [of "int SCREEN_WIDTH"] clamp_bounds [of "int SCREEN_HEIGHT"]
      by (auto simp: apply_packet_def Let_def intro!: * ) (simp_all add: mouse_ok_def selection_active_def)
  qed
  then show ?thesis using apply_packet_ok [OF assms] by (simp add: mouse_safe_def)
qed

lemma mouse_handler_safe:
  assumes "mouse_ok (mice k)" and "mouse_handler k = Ret u k'"
  shows "mouse_safe k k'"
proof (cases "mouse_cycle (mice k) \<in> {0, 1, 2}")
  case False
  then show ?thesis using assms by (simp add: mouse_handler_def mouse_safe_def)
next
  case True
  let ?f = "\<lambda>b. if mouse_cycle (mice k) = 0 then on_mouse (\<lambda>m. let m1 = m\<lparr>mouse_byte := (mouse_byte m)[0 := b]\<rparr>
             in if b AND 0x08 = 0 then m1 else m1\<lparr>mouse_cycle := 1\<rparr>)
    else if mouse_cycle (mice k) = 1 then on_mouse (\<lambda>m. m\<lparr>mouse_byte := (mouse_byte m)[1 := b], mouse_cycle := 2\<rparr>)
    else (\<lambda>k. apply_packet (on_mouse (\<lambda>m. m\<lparr>mouse_byte := (mouse_byte m)[2 := b]\<rparr>) k))"
  have "mouse_handler k = bindc mouse_read (\<lambda>b. act (?f b)) k" using True by (auto simp: mouse_handler_def)
  then obtain b k1 where r: "mouse_read k = Ret b k1" "k' = ?f b k1"
    using assms(2) by (cases "mouse_read k") (simp_all add: bindc_def act_def)
  have 1: "mouse_safe k k1" using mouse_safe_same [OF mouse_read_same [OF r(1)] assms(1)] .
  then have m: "mouse_ok (mice k1)" by (simp add: mouse_safe_def)
  have "mouse_safe k1 (on_mouse g k1)" if "mouse_ok (g (mice k1))" for g using that by (simp add: mouse_safe_def)
  moreover from this have "mouse_safe k1 (apply_packet (on_mouse (\<lambda>m. m\<lparr>mouse_byte := (mouse_byte m)[2 := b]\<rparr>) k1))"
    using m by (intro mouse_safe_trans [OF _ apply_packet_safe]) (simp_all add: mouse_ok_def selection_active_def)
  ultimately have "mouse_safe k1 (?f b k1)" using m by (auto simp: mouse_ok_def selection_active_def Let_def)
  then show ?thesis using mouse_safe_trans [OF 1] r(2) by simp
qed

text \<open>C38: One mouse event, whatever bytes the device sends, leaves the pointer and the corners of the
  selection on the screen and writes no video memory behind it.\<close>

theorem mouse_stays_on_screen:
  assumes "mouse_ok (mice k)" and "mouse_event k = Ret u k'"
  shows "mouse_ok (mice k') \<and> (\<forall>i\<ge>2000. terminal_buffer (con k') i = terminal_buffer (con k) i)"
proof -
  obtain b k1 where i: "inb 0x60 k = Ret b k1"
    using assms(2) by (cases "inb 0x60 k") (simp_all add: mouse_event_def bindc_def)
  obtain u k2 where h: "mouse_handler k1 = Ret u k2" "k' = update_selection (draw_mouse (clear_mouse k2))"
    using assms(2) i by (cases "mouse_handler k1") (simp_all add: mouse_event_def bindc_def andthen_def act_def ret_def)
  have 1: "mouse_safe k k1" using mouse_safe_same [OF inb_same_mouse [OF i] assms(1)] .
  have ok: "mouse_safe a b \<Longrightarrow> mouse_ok (mice b)" for a b by (simp add: mouse_safe_def)
  have 2: "mouse_safe k k2" using mouse_safe_trans [OF 1 mouse_handler_safe [OF ok [OF 1] h(1)]] .
  have 3: "mouse_safe k (clear_mouse k2)" using mouse_safe_trans [OF 2 pointer_safe(2) [OF ok [OF 2]]] .
  have 4: "mouse_safe k (draw_mouse (clear_mouse k2))" using mouse_safe_trans [OF 3 pointer_safe(1) [OF ok [OF 3]]] .
  let ?d = "draw_mouse (clear_mouse k2)"
  have 5: "mouse_safe k (clear_selection ?d)" using mouse_safe_trans [OF 4 selection_safe(2) [OF ok [OF 4]]] .
  have 6: "mouse_safe k (draw_selection (clear_selection ?d))" using mouse_safe_trans [OF 5 selection_safe(1) [OF ok [OF 5]]] .
  have "mouse_safe k k'" using 4 6 h(2) by (simp add: update_selection_def)
  then show ?thesis by (simp add: mouse_safe_def)
qed

text \<open>A kernel on which a packet starts; the controller is ready at once.\<close>

definition moving :: kernel where
  "moving = static_kernel (\<lambda>_. 0) [0, 1, 0x28]"

lemma mouse_read_ready:
  assumes "io_in k = st # b # rest" and "st AND 1 = 1"
  shows "\<exists>k'. mouse_read k = Ret b k'"
proof -
  have "\<exists>k1. mouse_wait_loop (Suc n) 0 k = Ret () k1 \<and> io_in k1 = b # rest" for n
    using assms by (simp add: bindc_def inb_def ret_def)
  then obtain k1 where "mouse_wait_loop (Suc 99999) 0 k = Ret () k1" "io_in k1 = b # rest" by blast
  moreover have "Suc 99999 = 100000" by simp
  ultimately have "mouse_wait 0 k = Ret () k1" "io_in k1 = b # rest" by (simp_all only: mouse_wait_def)
  then show ?thesis by (simp add: mouse_read_def andthen_def bindc_def inb_def)
qed

theorem mouse_stays_on_screen_witness:
  "\<exists>k'. mouse_event moving = Ret () k' \<and> mouse_ok (mice k') \<and> terminal_buffer (con k') 2000 = 0"
proof -
  have m: "mouse_ok (mice moving)" "mouse_cycle (mice moving) = 0" "io_in moving = [0, 1, 0x28]"
    "terminal_buffer (con moving) = (\<lambda>_. 0)"
    by (simp_all add: moving_def static_kernel_def mouse_ok_def selection_active_def static_console_def)
  obtain k1 where i: "inb 0x60 moving = Ret 0 k1" "io_in k1 = [1, 0x28]" "mice k1 = mice moving"
    using m(3) by (simp add: inb_def)
  obtain k2 where "mouse_read k1 = Ret 0x28 k2" using mouse_read_ready [OF i(2)] by auto
  then have "\<exists>k'. mouse_event moving = Ret () k'"
    using i m(2) by (simp add: mouse_event_def mouse_handler_def bindc_def andthen_def act_def ret_def)
  then obtain k' where k': "mouse_event moving = Ret () k'" by blast
  show ?thesis using mouse_stays_on_screen [OF m(1) k'] k' m(4) by simp
qed

section \<open>The processor's name\<close>

lemma length_cpu_regs [simp]: "length (cpu_regs cpuid) = 48"
  by (simp add: cpu_regs_def reg_bytes_def split: prod.splits)

lemma trim_end_le: "trim_end b p e \<le> e"
  by (induction b p e rule: trim_end.induct) auto

text \<open>Whatever the processor answers, its name fits the array of 64 bytes.\<close>

lemma cpu_name_fits: "\<exists>buf. get_cpu_name (cpu_regs cpuid) (replicate 64 NUL) = Inr buf \<and> length buf = 64"
proof -
  let ?b1 = "cpu_regs cpuid @ NUL # replicate 15 NUL"
  have "memcpy (replicate 64 NUL) 0 (cpu_regs cpuid) 0 48 = Inr (cpu_regs cpuid @ drop 48 (replicate 64 NUL))"
    using memcpy_step [of 0 48 "replicate 64 NUL" 0 "cpu_regs cpuid"] by simp
  moreover have "drop 48 (replicate 64 NUL) = NUL # replicate 15 NUL"
    unfolding drop_replicate by (simp add: numeral_eq_Suc)
  moreover have "write_at ?b1 48 NUL = Inr ?b1"
    by (simp add: write_at_def list_update_append del: replicate.simps)
  ultimately have b: "get_cpu_name (cpu_regs cpuid) (replicate 64 NUL) =
     (let p = length (takeWhile (\<lambda>c. c = CHR '' '') ?b1); n = length (cstr (drop p ?b1))
      in if n = 0 then write_at ?b1 p NUL else write_at ?b1 (trim_end ?b1 p (p + n - 1) + 1) NUL)"
    by (simp only: get_cpu_name_def sbind_simps)
  let ?p = "length (takeWhile (\<lambda>c. c = CHR '' '') ?b1)"
  let ?n = "length (cstr (drop ?p ?b1))"
  have "takeWhile (\<lambda>c. c = CHR '' '') ?b1 = takeWhile (\<lambda>c. c = CHR '' '') (cpu_regs cpuid)"
  proof (cases "\<forall>c \<in> set (cpu_regs cpuid). c = CHR '' ''")
    case True
    then show ?thesis by (simp add: takeWhile_append2 takeWhile_eq_all_conv [THEN iffD2] del: replicate.simps)
  next
    case False
    then show ?thesis by (auto simp: takeWhile_append1 simp del: replicate.simps)
  qed
  then have p: "?p \<le> 48" using length_takeWhile_le [of "\<lambda>c. c = CHR '' ''" "cpu_regs cpuid"] by simp
  have l: "length ?b1 = 64" by (simp del: replicate.simps)
  have "?n \<le> length (drop ?p (cpu_regs cpuid))"
  proof -
    have d: "drop ?p ?b1 = drop ?p (cpu_regs cpuid) @ NUL # replicate 15 NUL" using p by (simp del: replicate.simps)
    have "cstr (a @ NUL # r) = cstr a" for a r :: carray by (induction a) (auto simp: cstr_def)
    then have "cstr (drop ?p ?b1) = cstr (drop ?p (cpu_regs cpuid))" unfolding d .
    then show ?thesis unfolding cstr_def by (simp only: length_takeWhile_le)
  qed
  then have n: "?p + ?n \<le> 48" using p by (simp only: length_drop length_cpu_regs)
  have "trim_end ?b1 ?p (?p + ?n - 1) + 1 < 64" using trim_end_le [of ?b1 ?p "?p + ?n - 1"] n by linarith
  then show ?thesis
    unfolding b Let_def write_at_def l using p by (simp add: l del: replicate.simps)
qed

end
