(* ===== verification/Tables.thy ===== *)
theory Tables imports Bkfs_Dir begin

text \<open>
  What the tables of bkFS keep even when a write has failed: a weaker invariant than the consistency
  of the file system, which a full disk breaks. The tables have their sizes, every inode owns at most
  its 12 blocks with numbers inside the block table, and every name is terminated. It is
  enough for reading and writing never to leave a table.
\<close>

section \<open>The invariant\<close>

definition inode_fits :: "inode \<Rightarrow> bool" where
  "inode_fits i \<longleftrightarrow> length (i_block i) = INODE_DIRECT_BLOCKS \<and> unat (i_blocks i) \<le> INODE_DIRECT_BLOCKS \<and>
     (\<forall>b \<in> set (i_block i). unat b < MAX_BLOCKS)"

definition name_fits :: "file_entry \<Rightarrow> bool" where
  "name_fits f \<longleftrightarrow> length (f_name f) = 32 \<and> f_name f ! 31 = NUL"

definition tables_ok :: "bkfs \<Rightarrow> bool" where
  "tables_ok s \<longleftrightarrow> fs_shape s \<and> (\<forall>i \<in> set (inodes s). inode_fits i) \<and> (\<forall>f \<in> set (files s). name_fits f)"

text \<open>Over the lists alone, as the operations change them.\<close>

lemma tables_ok_iff:
  "tables_ok s \<longleftrightarrow> length (files s) = MAX_FILES \<and> file_count s \<le> MAX_FILES \<and> length (inodes s) = MAX_INODES \<and>
     length (block_used s) = MAX_BLOCKS \<and> (\<forall>b<MAX_BLOCKS. length (blocks s b) = BLOCK_SIZE) \<and>
     (\<forall>i \<in> set (inodes s). inode_fits i) \<and> (\<forall>f \<in> set (files s). name_fits f)"
  by (auto simp: tables_ok_def fs_shape_def inode_shape_def block_shape_def inode_fits_def name_fits_def)

text \<open>A name is a string: the terminator stands inside the array.\<close>

lemma name_terminated: "name_fits f \<Longrightarrow> length (entry_name f) < 32"
proof -
  assume f: "name_fits f"
  then have "f_name f ! 31 \<in> set (f_name f)" by (intro nth_mem) (simp add: name_fits_def)
  then show ?thesis using f length_cstr_less [of "f_name f"] by (simp add: entry_name_def name_fits_def)
qed

lemma zero_fits [simp]: "inode_fits zero_inode" "inode_fits (zero_inode\<lparr>i_mode := m\<rparr>)" "name_fits zero_file"
  by (simp_all add: inode_fits_def name_fits_def zero_inode_def zero_file_def)

lemma static_tables: "tables_ok static_bkfs"
  by (simp add: tables_ok_iff static_bkfs_def del: replicate.simps)

lemma all_update: "\<forall>x \<in> set xs. P x \<Longrightarrow> P y \<Longrightarrow> \<forall>x \<in> set (xs[i := y]). P x"
  using set_update_subset_insert [of xs i y] by blast

section \<open>The parts of the operations\<close>

lemma get_inode_fits: "tables_ok s \<Longrightarrow> valid_ino n \<Longrightarrow> inode_fits (get_inode n s)"
  using ino_ix_lt [of n] by (simp add: tables_ok_iff get_inode_def)

lemma upd_inode_tables:
  assumes "tables_ok s" and "\<And>i. inode_fits i \<Longrightarrow> inode_fits (f i)"
  shows "tables_ok (upd_inode n f s)"
proof (cases "ino_ix n < MAX_INODES")
  case True
  then have "inode_fits (get_inode n s)" using assms(1) by (simp add: tables_ok_iff get_inode_def)
  then show ?thesis using assms all_update [of "inodes s" inode_fits "f (get_inode n s)" "ino_ix n"]
    by (simp add: tables_ok_iff upd_inode_def)
next
  case False
  then have "(inodes s)[ino_ix n := x] = inodes s" for x
    using assms(1) by (intro list_update_beyond) (simp add: tables_ok_iff)
  then show ?thesis using assms(1) by (simp add: upd_inode_def)
qed

lemma free_block_tables: "tables_ok s \<Longrightarrow> tables_ok (fs_free_block b s)"
  by (simp add: tables_ok_iff fs_free_block_def)

lemma free_inode_tables: "tables_ok s \<Longrightarrow> tables_ok (fs_free_inode n s)"
  using all_update [of "inodes s" inode_fits zero_inode] by (simp add: tables_ok_iff fs_free_inode_def)

lemma alloc_inode_tables: "tables_ok s \<Longrightarrow> tables_ok (snd (fs_alloc_inode s))"
  using all_update [of "inodes s" inode_fits "zero_inode\<lparr>i_mode := 1\<rparr>"]
  by (auto simp: tables_ok_iff fs_alloc_inode_def split: option.split)

lemma alloc_block_tables:
  assumes "tables_ok s" and "fs_alloc_block s = (b, s')"
  shows "tables_ok s'" and "b = -1 \<or> (\<exists>i<MAX_BLOCKS. b = int i)"
  using assms by (auto simp: tables_ok_iff fs_alloc_block_def first_index_Some split: if_splits option.splits)

lemma fold_tables: "(\<And>x s. tables_ok s \<Longrightarrow> tables_ok (f x s)) \<Longrightarrow> tables_ok s \<Longrightarrow> tables_ok (fold f xs s)"
  by (induction xs arbitrary: s) simp_all

lemma free_blocks_tables: "tables_ok s \<Longrightarrow> tables_ok (free_inode_blocks n s)"
  unfolding free_inode_blocks_def Let_def by (rule fold_tables) (simp_all add: free_block_tables)

lemma remove_entry_tables: "tables_ok s \<Longrightarrow> tables_ok (remove_entry n s)"
proof (cases "find_entry (\<lambda>f. f_inode f = n) s")
  case (Some i)
  assume t: "tables_ok s"
  then have "file_count s \<le> length (files s)" by (simp add: tables_ok_iff)
  note r = remove_entry_at [OF this Some]
  then have "set (files (remove_entry n s)) \<subseteq> set (files s)" by blast
  then show ?thesis using t r unfolding tables_ok_iff by (auto simp: subset_iff)
qed (simp add: remove_entry_def)

section \<open>Creating\<close>

lemma strncpy_name:
  assumes "length d = 32" and "d ! 31 = NUL" and "strncpy d name 31 = Inr nm"
  shows "length nm = 32 \<and> nm ! 31 = NUL"
proof (cases "length name < 31")
  case True
  then have "nm = name @ replicate (31 - length name) NUL @ drop 31 d" using strncpy_ok [of name 31 d] assms by simp
  then show ?thesis using True assms by (simp add: nth_append)
next
  case False
  then show ?thesis using strncpy_runaway [of 31 name d] assms by simp
qed

lemma create_entry_tables:
  assumes t: "tables_ok s" and c: "create_entry ticks name parent type s = Inr (r, s')"
  shows "tables_ok s'"
proof (cases "file_count s \<ge> MAX_FILES")
  case True
  then show ?thesis using t c by (simp add: create_entry_full)
next
  case fc: False
  obtain m s1 where a: "fs_alloc_inode s = (m, s1)" by (cases "fs_alloc_inode s")
  have t1: "tables_ok s1" using alloc_inode_tables [OF t] a by simp
  have fc1: "file_count s1 < MAX_FILES"
    using a fc by (auto simp: fs_alloc_inode_def split: if_splits option.splits)
  show ?thesis
  proof (cases "m = -1")
    case True
    then show ?thesis using c a fc t1 by (simp add: create_entry_def)
  next
    case False
    let ?e = "files s1 ! file_count s1"
    obtain nm where nm: "strncpy (f_name ?e) name 31 = Inr nm"
      using c a fc False by (cases "strncpy (f_name ?e) name 31") (simp_all add: create_entry_def Let_def)
    define e where "e = ?e\<lparr>f_name := nm, f_inode := word_of_int m, f_parent_inode := parent, f_type := type, f_size := 0\<rparr>"
    define s2 where "s2 = s1\<lparr>files := (files s1)[file_count s1 := e]\<rparr>"
    let ?f = "\<lambda>ino. ino\<lparr>i_mode := (if type = FILE_DIR then 0x4000 else 0x8000), i_uid := 0, i_gid := 0, i_size := 0,
      i_atime := ticks, i_ctime := ticks, i_mtime := ticks, i_blocks := 0\<rparr>"
    have "name_fits ?e" using t1 fc1 by (simp add: tables_ok_iff)
    then have "name_fits e" using strncpy_name [OF _ _ nm] by (simp add: name_fits_def e_def)
    then have "tables_ok s2"
      using t1 all_update [of "files s1" name_fits e "file_count s1"] by (simp add: tables_ok_iff s2_def)
    then have t3: "tables_ok (upd_inode (word_of_int m) ?f s2)"
      by (rule upd_inode_tables) (simp add: inode_fits_def)
    have "s' = (upd_inode (word_of_int m) ?f s2)\<lparr>file_count := file_count s2 + 1\<rparr>"
      using c a fc False nm by (simp add: create_entry_def Let_def s2_def e_def)
    moreover have "file_count s2 + 1 \<le> MAX_FILES" using fc1 by (simp add: s2_def)
    ultimately show ?thesis using t3 by (simp add: tables_ok_iff)
  qed
qed

section \<open>Writing and reading\<close>

lemma release_tables:
  assumes "tables_ok s" and "valid_ino n"
  shows "\<exists>s1. release_old_blocks n s = Inr s1 \<and> tables_ok s1"
proof -
  have f: "inode_fits (get_inode n s)" by (rule get_inode_fits [OF assms])
  have "\<exists>s1. sfold (\<lambda>i s. sbind (read_at bl i) (\<lambda>b. Inr (if b \<noteq> 0 then fs_free_block b s else s))) is s = Inr s1 \<and> tables_ok s1"
    if "\<forall>i \<in> set is. i < length bl" "tables_ok s" for bl "is" s
    using that by (induction "is" arbitrary: s) (simp_all add: read_at_def free_block_tables)
  from this [of "[0..<unat (i_blocks (get_inode n s))]"] show ?thesis
    using f assms(1) unfolding release_old_blocks_def Let_def by (auto simp: inode_fits_def)
qed

lemma alloc_blocks_tables:
  "tables_ok s \<Longrightarrow> tables_ok (snd (alloc_blocks n is s))"
proof (induction "is" arbitrary: s)
  case (Cons i "is")
  obtain b s1 where a: "fs_alloc_block s = (b, s1)" by (cases "fs_alloc_block s")
  note t = alloc_block_tables [OF Cons.prems a]
  show ?case
  proof (cases "b = -1")
    case True
    have "tables_ok (fold (\<lambda>j s. fs_free_block (i_block (get_inode n s) ! j) s) [0..<i] s1)"
      using t(1) by (intro fold_tables) (simp_all add: free_block_tables)
    then show ?thesis using a True by simp
  next
    case False
    then obtain m where m: "m < MAX_BLOCKS" "b = int m" using t(2) by blast
    have "inode_fits (ino\<lparr>i_block := (i_block ino)[i := word_of_int b]\<rparr>)" if "inode_fits ino" for ino
      using that m all_update [of "i_block ino" "\<lambda>b. unat b < MAX_BLOCKS" "word_of_int b" i] by (simp add: inode_fits_def)
    then show ?thesis using Cons.IH [OF upd_inode_tables [OF t(1)]] a False by simp
  qed
qed simp

lemma copy_out_tables:
  assumes "tables_ok s" and "valid_ino n" and "nb \<le> INODE_DIRECT_BLOCKS"
    and "unat r = 0 \<or> j * BLOCK_SIZE + unat r \<le> length data"
  shows "\<exists>r' s'. sfold (copy_block_out n data) [j..<nb] (r, s) = Inr (r', s') \<and> tables_ok s'"
  using assms(1,4)
proof (induction "nb - j" arbitrary: j r s)
  case (Suc m)
  then have j: "j < nb" and d: "m = nb - Suc j" by simp_all
  have f: "inode_fits (get_inode n s)" using get_inode_fits Suc.prems(1) assms(2) by blast
  define b where "b = i_block (get_inode n s) ! j"
  have b: "unat b < MAX_BLOCKS" and l: "j < length (i_block (get_inode n s))"
    using f j assms(3) by (simp_all add: inode_fits_def b_def)
  let ?t = "if r > of_nat BLOCK_SIZE then of_nat BLOCK_SIZE else r"
  define c where "c = min BLOCK_SIZE (unat r)"
  have tc: "unat ?t = c" unfolding unat_to_copy c_def ..
  have len: "length (blocks s (unat b)) = BLOCK_SIZE" using Suc.prems(1) b by (simp add: tables_ok_iff)
  obtain nb' where m: "memcpy (blocks s (unat b)) 0 data (j * BLOCK_SIZE) c = Inr nb'" "length nb' = BLOCK_SIZE"
  proof (cases "c = 0")
    case True
    then show ?thesis using that [of "blocks s (unat b)"] len by (simp add: memcpy_def)
  next
    case False
    then have "c \<le> BLOCK_SIZE" "j * BLOCK_SIZE + c \<le> length data" using Suc.prems(2) by (auto simp: c_def)
    then show ?thesis using memcpy_step [of 0 c "blocks s (unat b)" "j * BLOCK_SIZE" data] len that by auto
  qed
  let ?s = "s\<lparr>blocks := (blocks s)(unat b := nb')\<rparr>"
  have step: "copy_block_out n data j (r, s) = Inr (r - ?t, ?s)"
    using b l m tc by (simp add: copy_block_out_def read_at_def b_def [symmetric] Let_def)
  have "tables_ok ?s" using Suc.prems(1) m(2) by (simp add: tables_ok_iff)
  moreover have "unat (r - ?t) = 0 \<or> Suc j * BLOCK_SIZE + unat (r - ?t) \<le> length data"
    unfolding unat_rest using Suc.prems(2) by auto
  ultimately obtain r' s' where "sfold (copy_block_out n data) [Suc j..<nb] (r - ?t, ?s) = Inr (r', s')" "tables_ok s'"
    using Suc.hyps(1) [OF d, of ?s "r - ?t"] by blast
  then show ?case using step j by (simp add: upt_conv_Cons)
qed auto

lemma copy_in_tables:
  assumes "tables_ok s" and "inode_fits ino" and "nb \<le> INODE_DIRECT_BLOCKS"
    and "unat r = 0 \<or> j * BLOCK_SIZE + unat r \<le> length buf" and "unat (i_blocks ino) = nb"
  shows "\<exists>r' buf'. sfold (copy_block_in ino s) [j..<nb] (r, buf) = Inr (r', buf') \<and> length buf' = length buf"
  using assms(4)
proof (induction "nb - j" arbitrary: j r buf)
  case (Suc m)
  then have j: "j < nb" and d: "m = nb - Suc j" by simp_all
  let ?t = "if r > of_nat BLOCK_SIZE then of_nat BLOCK_SIZE else r"
  define b where "b = i_block ino ! j"
  define c where "c = min BLOCK_SIZE (unat r)"
  have tc: "unat ?t = c" unfolding unat_to_copy c_def ..
  have b: "unat b < MAX_BLOCKS" and l: "j < length (i_block ino)"
    using assms(2,3) j by (simp_all add: inode_fits_def b_def)
  have "\<exists>buf'. copy_block_in ino s j (r, buf) = Inr (r - ?t, buf') \<and> length buf' = length buf"
  proof (cases "r = 0")
    case True
    then show ?thesis by (simp add: copy_block_in_def)
  next
    case False
    then have "0 < unat r" by (simp add: unat_gt_0_u32)
    then have "c \<le> BLOCK_SIZE" "j * BLOCK_SIZE + c \<le> length buf" using Suc.prems by (auto simp: c_def)
    moreover have "length (blocks s (unat b)) = BLOCK_SIZE" using assms(1) b by (simp add: tables_ok_iff)
    ultimately obtain buf' where "memcpy buf (j * BLOCK_SIZE) (blocks s (unat b)) 0 c = Inr buf'" "length buf' = length buf"
      using memcpy_step [of "j * BLOCK_SIZE" c buf 0 "blocks s (unat b)"] by auto
    then show ?thesis using False b l tc by (simp add: copy_block_in_def read_at_def b_def [symmetric] Let_def)
  qed
  then obtain buf1 where 1: "copy_block_in ino s j (r, buf) = Inr (r - ?t, buf1)" "length buf1 = length buf" by blast
  moreover have "unat (r - ?t) = 0 \<or> Suc j * BLOCK_SIZE + unat (r - ?t) \<le> length buf1"
    unfolding unat_rest 1(2) using Suc.prems by auto
  ultimately obtain r' buf' where "sfold (copy_block_in ino s) [Suc j..<nb] (r - ?t, buf1) = Inr (r', buf')" "length buf' = length buf1"
    using Suc.hyps(1) [OF d, of "r - ?t" buf1] by blast
  then show ?case using 1 j by (simp add: upt_conv_Cons)
qed auto

text \<open>Neither operation leaves the tables, whatever they hold, if the array is as long as the size says.\<close>

lemma write_file_tables:
  assumes t: "tables_ok s" and sz: "unat sz \<le> length data"
  shows "\<exists>r s'. fs_write_file ticks n data sz s = Inr (r, s') \<and> tables_ok s'"
proof -
  define nb where "nb = (sz + of_nat BLOCK_SIZE - 1) div of_nat BLOCK_SIZE"
  show ?thesis
  proof (cases "valid_ino n \<and> \<not> nb > of_nat INODE_DIRECT_BLOCKS")
    case False
    then show ?thesis using t by (auto simp: fs_write_file_def nb_def Let_def)
  next
    case True
    then have v: "valid_ino n" and nb: "unat nb \<le> INODE_DIRECT_BLOCKS" by (simp_all add: word_less_nat_alt not_less)
    obtain s1 where 1: "release_old_blocks n s = Inr s1" "tables_ok s1" using release_tables [OF t v] by blast
    obtain ok s2 where 2: "alloc_blocks n [0..<unat nb] s1 = (ok, s2)" by (cases "alloc_blocks n [0..<unat nb] s1")
    have t2: "tables_ok s2" using alloc_blocks_tables [OF 1(2), of n "[0..<unat nb]"] 2 by simp
    let ?s3 = "upd_inode n (\<lambda>ino. ino\<lparr>i_blocks := nb, i_size := sz, i_mtime := ticks\<rparr>) s2"
    have "tables_ok ?s3" using nb by (intro upd_inode_tables [OF t2]) (simp add: inode_fits_def)
    then obtain r' s4 where 4: "sfold (copy_block_out n data) [0..<unat nb] (sz, ?s3) = Inr (r', s4)" "tables_ok s4"
      using copy_out_tables [OF _ v nb, of ?s3 sz 0 data] sz by auto
    show ?thesis
      using True 1 2 4 t2 unfolding fs_write_file_def nb_def [symmetric] Let_def by (cases ok) auto
  qed
qed

lemma read_file_tables:
  assumes t: "tables_ok s" and sz: "unat sz \<le> length buf"
  shows "\<exists>r buf' s'. fs_read_file ticks n buf sz s = Inr (r, buf', s') \<and> length buf' = length buf \<and> tables_ok s'"
proof (cases "valid_ino n")
  case False
  then show ?thesis using t by (simp add: fs_read_file_def)
next
  case True
  let ?ino = "get_inode n s"
  let ?size = "if sz > i_size ?ino then i_size ?ino else sz"
  have f: "inode_fits ?ino" by (rule get_inode_fits [OF t True])
  have "unat ?size \<le> length buf" using sz by (auto simp: word_less_nat_alt)
  then obtain r buf' where 1: "sfold (copy_block_in ?ino s) [0..<unat (i_blocks ?ino)] (?size, buf) = Inr (r, buf')" "length buf' = length buf"
    using copy_in_tables [OF t f, of "unat (i_blocks ?ino)" ?size 0 buf] f by (auto simp: inode_fits_def)
  have "tables_ok (upd_inode n (\<lambda>ino. ino\<lparr>i_atime := ticks\<rparr>) s)"
    by (rule upd_inode_tables [OF t]) (simp add: inode_fits_def)
  then show ?thesis using True 1 by (simp add: fs_read_file_def Let_def)
qed

end
