(* ===== verification/Machine_Inv.thy ===== *)
theory Machine_Inv imports Shell History Tables Screen_Props Device_Props begin

text \<open>
  The invariant of the whole kernel: what every part keeps, whatever is typed, for as long as the
  machine runs, also past failed writes and up to the point of a fault. The rules follow the
  combinators of the model, so that the proof for a command walks along its definition.
\<close>

section \<open>The invariant\<close>

definition con_ok :: "(nat \<Rightarrow> u16) \<Rightarrow> console \<Rightarrow> bool" where
  "con_ok vram c \<longleftrightarrow> console_ok c \<and> (\<forall>i\<ge>2000. terminal_buffer c i = vram i) \<and> \<not> smouse_mode c"

definition device_ok :: "net_device \<Rightarrow> bool" where
  "device_ok d \<longleftrightarrow> length (dev_name d) = 16 \<and> length (mac d) = 6"

text \<open>What nothing ever starts: the mouse, the clock ticks, the linked list of nodes.\<close>

definition dormant :: "kernel \<Rightarrow> bool" where
  "dormant k \<longleftrightarrow> \<not> mouse_enabled (mice k) \<and> timer_ticks k = 0 \<and> next_node_addr k = 0x100000"

definition machine_ok :: "(nat \<Rightarrow> u16) \<Rightarrow> kernel \<Rightarrow> bool" where
  "machine_ok vram k \<longleftrightarrow> con_ok vram (con k) \<and> tables_ok (fs k) \<and>
     proctab_ok (proc k) \<and> current_process (proc k) = 0 \<and> history_ok (hist k) \<and> device_ok (net_dev k) \<and> dormant k"

primrec final :: "('s, 'a) outcome \<Rightarrow> 's" where
  "final (Ret a s) = s"
| "final (Stop e s) = s"

definition keeps :: "(nat \<Rightarrow> u16) \<Rightarrow> (kernel, 'a) outcome \<Rightarrow> bool" where
  "keeps vram out \<longleftrightarrow> machine_ok vram (final out)"

lemma static_machine_ok: "machine_ok vram (static_kernel vram input)"
  using static_proctab [of vram input] static_history(1) [of vram input] static_console_ok [of vram] static_tables
  by (simp add: machine_ok_def con_ok_def device_ok_def dormant_def static_kernel_def static_console_def zero_net_def
      del: replicate.simps)

section \<open>The combinators\<close>

named_theorems keep

lemma keeps_simps [simp]: "keeps v (Ret a k) = machine_ok v k" "keeps v (Stop e k) = machine_ok v k"
  by (simp_all add: keeps_def)

lemma keeps_end [keep]:
  "machine_ok v k \<Longrightarrow> keeps v (Ret a k)" "machine_ok v k \<Longrightarrow> keeps v (Stop e k)"
  "machine_ok v k \<Longrightarrow> keeps v (ret a k)" "machine_ok v k \<Longrightarrow> keeps v (halt e k)"
  "machine_ok v k \<Longrightarrow> keeps v (lift_sum x k)" "machine_ok v (f k) \<Longrightarrow> keeps v (act f k)"
  by (simp_all add: ret_def halt_def lift_sum_def act_def split: sum.split)

lemma keeps_bindc [keep]:
  assumes "keeps v (m k)" and "\<And>a t. machine_ok v t \<Longrightarrow> keeps v (f a t)"
  shows "keeps v (bindc m f k)"
  using assms by (cases "m k") (simp_all add: bindc_def)

lemma keeps_andthen [keep]:
  "keeps v (m k) \<Longrightarrow> (\<And>t. machine_ok v t \<Longrightarrow> keeps v (n t)) \<Longrightarrow> keeps v (andthen m n k)"
  unfolding andthen_def by (rule keeps_bindc)

lemma keeps_if [keep]:
  "(b \<Longrightarrow> keeps v x) \<Longrightarrow> (\<not> b \<Longrightarrow> keeps v y) \<Longrightarrow> keeps v (if b then x else y)"
  "(b \<Longrightarrow> keeps v (m k)) \<Longrightarrow> (\<not> b \<Longrightarrow> keeps v (n k)) \<Longrightarrow> keeps v ((if b then m else n) k)"
  by simp_all

lemma keeps_option [keep]:
  "keeps v x \<Longrightarrow> (\<And>a. t = Some a \<Longrightarrow> keeps v (f a)) \<Longrightarrow> keeps v (case t of None \<Rightarrow> x | Some a \<Rightarrow> f a)"
  "keeps v (m k) \<Longrightarrow> (\<And>a. t = Some a \<Longrightarrow> keeps v (g a k)) \<Longrightarrow> keeps v ((case t of None \<Rightarrow> m | Some a \<Rightarrow> g a) k)"
  by (cases t; simp)+

lemma keeps_prod [keep]:
  "(\<And>a b. keeps v (f a b)) \<Longrightarrow> keeps v (case t of (a, b) \<Rightarrow> f a b)"
  "(\<And>a b. keeps v (g a b k)) \<Longrightarrow> keeps v ((case t of (a, b) \<Rightarrow> g a b) k)"
  by (cases t; simp)+

lemma keeps_sum [keep]:
  "(\<And>e. keeps v (f e)) \<Longrightarrow> (\<And>a. keeps v (g a)) \<Longrightarrow> keeps v (case t of Inl e \<Rightarrow> f e | Inr a \<Rightarrow> g a)"
  by (cases t) simp_all

lemma keeps_cseq [keep]:
  "machine_ok v k \<Longrightarrow> keeps v (cseq [] k)"
  "keeps v (m k) \<Longrightarrow> (\<And>t. machine_ok v t \<Longrightarrow> keeps v (cseq ms t)) \<Longrightarrow> keeps v (cseq (m # ms) k)"
  unfolding cseq.simps by (intro keep; simp)+

lemma keeps_for_each [keep]:
  "(\<And>i t. machine_ok v t \<Longrightarrow> keeps v (f i t)) \<Longrightarrow> machine_ok v k \<Longrightarrow> keeps v (for_each f is k)"
proof (induction "is" arbitrary: k)
  case (Cons i "is")
  show ?case unfolding for_each.simps using Cons by (intro keep) simp_all
qed (simp add: ret_def)

section \<open>Printing and ports\<close>

lemma machine_con: "machine_ok v k \<Longrightarrow> con_ok v c \<Longrightarrow> machine_ok v (k\<lparr>con := c\<rparr>)"
  by (simp add: machine_ok_def dormant_def)

lemma machine_fs: "machine_ok v k \<Longrightarrow> tables_ok s \<Longrightarrow> machine_ok v (k\<lparr>fs := s\<rparr>)"
  by (simp add: machine_ok_def dormant_def)

lemma machine_on_con [keep]:
  "machine_ok v k \<Longrightarrow> (\<And>c. con_ok v c \<Longrightarrow> con_ok v (f c)) \<Longrightarrow> machine_ok v (on_con f k)"
  unfolding on_con_def by (rule machine_con) (simp_all add: machine_ok_def)

lemma machine_on_fs [keep]:
  "machine_ok v k \<Longrightarrow> (\<And>s. tables_ok s \<Longrightarrow> tables_ok (f s)) \<Longrightarrow> machine_ok v (on_fs f k)"
  unfolding on_fs_def by (rule machine_fs) (simp_all add: machine_ok_def)

lemma machine_frame [keep]:
  "machine_ok v k \<Longrightarrow> machine_ok v (k\<lparr>boot_time := n\<rparr>)"
  "machine_ok v k \<Longrightarrow> machine_ok v (on_keys g k)"
  "machine_ok v k \<Longrightarrow> machine_ok v (chdir i k)"
  by (simp_all add: machine_ok_def dormant_def on_keys_def chdir_def on_fs_def tables_ok_iff)

text \<open>A step of the console keeps it, if it does not enter the mouse test.\<close>

lemma con_ok_step: "con_ok v c \<Longrightarrow> con_step c c' \<Longrightarrow> \<not> smouse_mode c' \<Longrightarrow> con_ok v c'"
  using con_step_ok [of c c'] by (auto simp: con_ok_def)

lemma con_ok_ports [keep]:
  "con_ok v c \<Longrightarrow> con_ok v (outb p b c)" "con_ok v c \<Longrightarrow> con_ok v (outw p w c)"
  "con_ok v c \<Longrightarrow> con_ok v (c\<lparr>io_trace := t\<rparr>)" "con_ok v c \<Longrightarrow> con_ok v (c\<lparr>terminal_column := 0\<rparr>)"
  "con_ok v c \<Longrightarrow> con_ok v (move_cursor x y c)"
  by (simp_all add: con_ok_def console_ok_def cursor_ok_def outb_def outw_def move_cursor_def Let_def)

lemma con_ok_text [keep]:
  "con_ok v c \<Longrightarrow> con_ok v (terminal_writestring s c)" "con_ok v c \<Longrightarrow> con_ok v (terminal_putchar ch c)"
  "con_ok v c \<Longrightarrow> con_ok v (terminal_setcolor fg bg c)" "con_ok v c \<Longrightarrow> con_ok v (terminal_clear c)"
  by (rule con_ok_step; (assumption | rule con_step.intros)?;
      simp add: con_ok_def terminal_setcolor_def terminal_clear_eq Let_def)+

lemma con_ok_write: "con_ok v c \<Longrightarrow> terminal_write data n c = Inr c' \<Longrightarrow> con_ok v c'"
  using write_is_text con_ok_text(1) by blast

lemma con_ok_printf: "con_ok v c \<Longrightarrow> terminal_printf fmt args c = Inr c' \<Longrightarrow> con_ok v c'"
  using printf_is_text con_ok_text(1) by blast

lemma keeps_printing [keep]:
  "machine_ok v k \<Longrightarrow> keeps v (say s k)" "machine_ok v k \<Longrightarrow> keeps v (setcolor fg bg k)"
  "machine_ok v k \<Longrightarrow> keeps v (put_char ch k)"
  unfolding say_def show_text_def setcolor_def put_char_def by (intro keep; assumption)+

lemma keeps_printf [keep]: "machine_ok v k \<Longrightarrow> keeps v (printf fmt args k)"
  using con_ok_printf [of v "con k" fmt args] machine_con
  by (auto simp: printf_def machine_ok_def split: sum.split)

lemma keeps_print_bytes [keep]: "machine_ok v k \<Longrightarrow> keeps v (print_bytes buf n k)"
  using con_ok_write [of v "con k" buf "nat n"] machine_con
  by (auto simp: print_bytes_def machine_ok_def split: sum.split)

lemma keeps_inb [keep]: "machine_ok v k \<Longrightarrow> keeps v (inb p k)"
  using con_ok_ports(3) [of v "con k"]
  by (auto simp: inb_def machine_ok_def dormant_def split: list.split)

lemma keeps_cmos [keep]: "machine_ok v k \<Longrightarrow> keeps v (cmos_read r k)"
  unfolding cmos_read_def by (intro keep)

lemma keeps_number [keep]: "machine_ok v k \<Longrightarrow> keeps v (number cap n k)"
  unfolding number_def by (intro keep)

lemma keeps_panic [keep]: "machine_ok v k \<Longrightarrow> keeps v (kernel_panic s k)"
  unfolding kernel_panic_def by (intro keep)

section \<open>File operations\<close>

text \<open>The commands pass sizes that their arrays have.\<close>

lemma size_fits [keep]: "n \<le> m \<Longrightarrow> unat (of_nat n :: u32) \<le> m" "length (cstr d) \<le> length d"
  by (simp_all add: unat_of_nat order_trans [OF mod_less_eq_dividend] cstr_def length_takeWhile_le)

lemmas size_bounds [keep] = order_refl [of "_ :: nat"] diff_le_self

lemma keeps_write_file [keep]:
  "machine_ok v k \<Longrightarrow> unat sz \<le> length data \<Longrightarrow> keeps v (write_file n data sz k)"
  using write_file_tables [of "fs k" sz data "timer_ticks k" n] machine_fs
  by (auto simp: write_file_def machine_ok_def)

lemma keeps_read_file [keep]: "machine_ok v k \<Longrightarrow> unat sz \<le> cap \<Longrightarrow> keeps v (read_file n cap sz k)"
  using read_file_tables [of "fs k" sz "replicate cap NUL" "timer_ticks k" n] machine_fs
  by (auto simp: read_file_def machine_ok_def)

lemma keeps_create [keep]: "machine_ok v k \<Longrightarrow> keeps v (fs_create_file name parent type k)"
proof -
  assume m: "machine_ok v k"
  have s: "machine_ok v (k\<lparr>fs := s\<rparr>)" if "create_entry (timer_ticks k) name parent type (fs k) = Inr (r, s)" for r s
    using m machine_fs create_entry_tables [OF _ that] by (simp add: machine_ok_def)
  show ?thesis
  proof (cases "create_entry (timer_ticks k) name parent type (fs k)")
    case (Inl e)
    then show ?thesis using m unfolding fs_create_file_def by (simp only: sum.case) (intro keep)
  next
    case (Inr p)
    then obtain r t where p: "create_entry (timer_ticks k) name parent type (fs k) = Inr (r, t)" by (cases p) simp
    show ?thesis unfolding fs_create_file_def p sum.case prod.case by (intro keep m s [OF p])
  qed
qed

lemma keeps_delete [keep]: "machine_ok v k \<Longrightarrow> keeps v (fs_delete_file n k)"
  unfolding fs_delete_file_def Let_def
  by (intro keep remove_entry_tables free_blocks_tables free_inode_tables)

section \<open>The commands on files\<close>

lemma keeps_looking [keep]:
  "machine_ok v k \<Longrightarrow> keeps v (execute_ls k)" "machine_ok v k \<Longrightarrow> keeps v (execute_pwd k)"
  "machine_ok v k \<Longrightarrow> keeps v (execute_cd d k)" "machine_ok v k \<Longrightarrow> keeps v (execute_cat f k)"
  unfolding execute_ls_def execute_pwd_def execute_cd_def execute_cat_def by (intro keep; assumption)+

lemma keeps_creating [keep]:
  "machine_ok v k \<Longrightarrow> keeps v (execute_mkfile f k)" "machine_ok v k \<Longrightarrow> keeps v (execute_mkdir f k)"
  unfolding execute_mkfile_def execute_mkdir_def by (intro keep; assumption)+

lemma keeps_rm:
  "machine_ok v k \<Longrightarrow> keeps v (execute_rm n p r k)" "machine_ok v k \<Longrightarrow> keeps v (rm_children n d j k)"
proof (induction n p r k and n d j k rule: execute_rm_rm_children.induct)
  case (2 n name recursive k)
  show ?case unfolding execute_rm.simps by (intro keep 2)
next
  case (4 n d j k)
  show ?case unfolding rm_children.simps by (intro keep 4)
qed simp_all

lemma keeps_write_new:
  "machine_ok v k \<Longrightarrow> (\<And>t. machine_ok v t \<Longrightarrow> keeps v (ok t)) \<Longrightarrow> keeps v (write_new n text ok failed k)"
  "machine_ok v k \<Longrightarrow> (\<And>t. machine_ok v t \<Longrightarrow> keeps v (ok t)) \<Longrightarrow> keeps v (append_to n text ok k)"
  unfolding write_new_def append_to_def by (intro keep; assumption)+

lemma keeps_redirect [keep]:
  "machine_ok v k \<Longrightarrow> keeps v (execute_redirect_output f t k)"
  "machine_ok v k \<Longrightarrow> keeps v (execute_append_output f t k)"
  "machine_ok v k \<Longrightarrow> keeps v (execute_cat_redirect f g a k)"
  unfolding execute_redirect_output_def execute_append_output_def execute_cat_redirect_def create_with_def
  by (intro keep keeps_write_new; assumption)+

section \<open>Processes, network and reports\<close>

lemma keeps_signal [keep]: "machine_ok v k \<Longrightarrow> keeps v (send_signal n sig k)"
proof (cases "find_proc n (proc k)")
  case (Some i)
  assume m: "machine_ok v k"
  have "proctab_ok (signal_proc i sig (proc k)) \<and> current_process (signal_proc i sig (proc k)) = current_process (proc k)"
    using proc_step_ok [OF proc_step.signal [OF Some]] m by (simp add: machine_ok_def)
  then show ?thesis using m Some by (simp add: send_signal_def on_proc_def machine_ok_def dormant_def)
qed (simp add: send_signal_def keep)

lemma keeps_processes [keep]:
  "machine_ok v k \<Longrightarrow> keeps v (execute_kill p s k)" "machine_ok v k \<Longrightarrow> keeps v (execute_ps k)"
  "machine_ok v k \<Longrightarrow> keeps v (execute_jobs k)"
  unfolding execute_kill_def execute_ps_def execute_jobs_def Let_def by (intro keep; assumption)+

lemma machine_net [keep]: "machine_ok v k \<Longrightarrow> machine_ok v (on_net dhcp_discover k)"
  by (simp add: machine_ok_def dormant_def on_net_def dhcp_discover_def device_ok_def)

lemma keeps_network [keep]:
  "machine_ok v k \<Longrightarrow> keeps v (execute_dhcpcd i k)" "machine_ok v k \<Longrightarrow> keeps v (execute_ifconfig k)"
  "machine_ok v k \<Longrightarrow> keeps v (execute_ping h k)"
  unfolding execute_dhcpcd_def execute_ifconfig_def execute_ping_def Let_def by (intro keep; assumption)+

lemma keeps_clock [keep]:
  "machine_ok v k \<Longrightarrow> keeps v (execute_date k)" "machine_ok v k \<Longrightarrow> keeps v (execute_time k)"
  "machine_ok v k \<Longrightarrow> keeps v (execute_uptime k)"
  unfolding execute_date_def execute_time_def execute_uptime_def by (intro keep; assumption)+

lemma keeps_reports [keep]:
  "machine_ok v k \<Longrightarrow> keeps v (execute_whoami k)" "machine_ok v k \<Longrightarrow> keeps v (execute_ver k)"
  "machine_ok v k \<Longrightarrow> keeps v (execute_cls k)" "machine_ok v k \<Longrightarrow> keeps v (execute_memory k)"
  "machine_ok v k \<Longrightarrow> keeps v (execute_disk k)" "machine_ok v k \<Longrightarrow> keeps v (execute_fetch regs k)"
  unfolding execute_whoami_def execute_ver_def execute_cls_def execute_memory_def execute_disk_def
    execute_fetch_def fetch_line_def Let_def
  by (intro keep; assumption)+

lemma keeps_screens [keep]:
  "machine_ok v k \<Longrightarrow> keeps v (execute_help page k)" "machine_ok v k \<Longrightarrow> keeps v (execute_echo args k)"
  "machine_ok v k \<Longrightarrow> keeps v (display_info k)" "machine_ok v k \<Longrightarrow> keeps v (zov k)"
  unfolding execute_help_def execute_echo_def display_info_def info_line_def say_all_def zov_def
  by (intro keep; assumption)+

lemma keeps_wait: "machine_ok v k \<Longrightarrow> keeps v (wait_input_clear n k)"
proof (induction n arbitrary: k)
  case (Suc n)
  show ?case unfolding wait_input_clear.simps by (intro keep Suc)
qed simp

lemma keeps_power [keep]:
  "machine_ok v k \<Longrightarrow> keeps v (execute_beep k)" "machine_ok v k \<Longrightarrow> keeps v (execute_poweroff k)"
  "machine_ok v k \<Longrightarrow> keeps v (execute_reboot k)"
  unfolding execute_beep_def beep_def no_sound_def execute_poweroff_def execute_reboot_def Let_def
  by (intro keep keeps_wait; assumption)+

section \<open>The mouse and the terminals\<close>

text \<open>With the mouse disabled its code does nothing, and the test mode is refused.\<close>

lemma keeps_poll [keep]: "machine_ok v k \<Longrightarrow> keeps v (poll_mouse k)"
  by (simp add: poll_mouse_def machine_ok_def dormant_def)

lemma keeps_smouse [keep]:
  "machine_ok v k \<Longrightarrow> keeps v (execute_smouse sys k)" "machine_ok v k \<Longrightarrow> keeps v (smouse_loop sys k)"
proof -
  assume m: "machine_ok v k"
  then have "execute_smouse sys k = void (say (''Mouse is not enabled'' @ NL)) k" "smouse_loop sys k = finish k"
    by (simp_all add: execute_smouse_def smouse_loop_def machine_ok_def dormant_def con_ok_def)
  then show "keeps v (execute_smouse sys k)" "keeps v (smouse_loop sys k)"
    unfolding void_def using m by (simp_all only:) (intro keep; assumption)+
qed

lemma con_ok_ttys [keep]:
  "con_ok v c \<Longrightarrow> con_ok v (save_tty_state i c)"
  "con_ok v c \<Longrightarrow> n < MAX_TTYS \<Longrightarrow> con_ok v (c\<lparr>current_tty := n\<rparr>)"
  "con_ok v c \<Longrightarrow> con_ok v (terminal_initialize c)"
  "con_ok v c \<Longrightarrow> con_ok v (upd_tty j (\<lambda>t. t\<lparr>tty_logged_in := b\<rparr>) c)"
proof -
  assume c: "con_ok v c"
  then have "current_tty c < length (ttys c)" by (simp add: con_ok_def console_ok_def)
  then have "\<not> smouse_mode (save_tty_state i c)"
    using c unfolding save_tty_state_def by (simp add: save_rows con_ok_def del: upt.simps upt_rec_numeral)
  then show "con_ok v (save_tty_state i c)" by (rule con_ok_step [OF c con_step.save])
  show "con_ok v (c\<lparr>current_tty := n\<rparr>)" if "n < MAX_TTYS"
    using con_ok_step [OF c con_step.switch [OF that]] c by (simp add: con_ok_def)
  have "\<not> smouse_mode (terminal_initialize c)"
    using c by (simp add: con_ok_def terminal_initialize_def initialize_ttys_def terminal_setcolor_def terminal_clear_eq Let_def)
  then show "con_ok v (terminal_initialize c)" by (rule con_ok_step [OF c con_step.start])
  show "con_ok v (upd_tty j (\<lambda>t. t\<lparr>tty_logged_in := b\<rparr>) c)"
    using c by (cases "j < MAX_TTYS")
      (auto simp: con_ok_def console_ok_def cursor_ok_def upd_tty_def nth_list_update list_update_beyond)
qed

lemma machine_restore [keep]: "machine_ok v k \<Longrightarrow> machine_ok v (restore_tty k)"
proof -
  assume m: "machine_ok v k"
  obtain n c where r: "restore_tty_state (con k) = (n, c)" by (cases "restore_tty_state (con k)")
  have "con_ok v c" using m con_ok_step [OF _ con_step.restore [OF r], of v] r
    by (auto simp: machine_ok_def con_ok_def restore_eq Let_def)
  then show ?thesis unfolding restore_tty_def r Let_def prod.case by (intro keep machine_con m)
qed

lemma machine_login [keep]: "machine_ok v k \<Longrightarrow> machine_ok v (set_logged_in b k)"
  unfolding set_logged_in_def by (intro keep)

section \<open>The history\<close>

lemma push_history_keeps:
  assumes h: "history_ok h" and s: "is_cstr s" and p: "push_history s h = Inr h'"
  shows "history_ok h'"
proof (cases "length s < MAX_CMD_LEN")
  case True
  then show ?thesis using push_history_ok [OF h, of s] s p by (auto simp: legal_line_def)
next
  case False
  have f: "strcpy l s = Inl OutOfBounds" if "line_ok l" for l
    using that False strcpy_eq [of l s] s by (simp add: line_ok_def)
  have lines: "length (command_history h) = 100" "\<forall>l \<in> set (command_history h). line_ok l"
    using h by (simp_all add: history_ok_def)
  show ?thesis
  proof (cases "history_count h < HISTORY_SIZE")
    case True
    then have "line_ok (command_history h ! history_count h)" using lines by simp
    then show ?thesis using p True f by (simp add: push_history_def)
  next
    case full: False
    obtain cs where cs: "sfold (\<lambda>i cs. sbind (strcpy (cs ! i) (cstr (cs ! (i + 1)))) (\<lambda>line. Inr (cs[i := line]))) [0..<99] (command_history h) = Inr cs"
      "\<forall>l \<in> set cs. line_ok l" "map cstr cs = take 99 (tl (map cstr (command_history h))) @ drop 99 (map cstr (command_history h))"
      using shift_lines [OF lines(2), of 99] lines(1) by auto
    have "length (map cstr cs) = 100" unfolding cs(3) using lines(1) by simp
    then have "line_ok (cs ! 99)" using cs(2) by simp
    then show ?thesis using p full f cs(1) by (simp add: push_history_def)
  qed
qed

lemma keeps_history [keep]:
  assumes m: "machine_ok v k" shows "keeps v (add_to_history (cstr a) k)"
proof (cases "push_history (cstr a) (hist k)")
  case (Inr h)
  then have "history_ok h" using push_history_keeps [OF _ is_cstr_cstr Inr] m by (simp add: machine_ok_def)
  then show ?thesis using m Inr
    by (auto simp: add_to_history_def lift_sum_def bindc_def act_def machine_ok_def dormant_def)
qed (use m in \<open>simp add: add_to_history_def lift_sum_def bindc_def\<close>)

lemma machine_recall:
  "machine_ok v k \<Longrightarrow> n \<le> history_count (hist k) \<Longrightarrow> machine_ok v (k\<lparr>hist := (hist k)\<lparr>history_pos := n\<rparr>\<rparr>)"
  by (simp add: machine_ok_def dormant_def history_ok_def)

section \<open>Start\<close>

lemma reset_tables_ok [keep]: "tables_ok s \<Longrightarrow> tables_ok (reset_tables s)"
  by (simp add: tables_ok_iff reset_tables_def del: replicate.simps)

lemma keeps_network_init [keep]: "machine_ok v k \<Longrightarrow> keeps v (network_init k)"
proof -
  assume m: "machine_ok v k"
  obtain b where "strcpy (replicate 16 NUL) ''eth0'' = Inr b" "length b = 16"
    using strcpy_eq [of "replicate 16 NUL" "''eth0''"] by (simp add: is_cstr_def)
  then show ?thesis using m by (simp add: network_init_def machine_ok_def dormant_def device_ok_def)
qed

lemma keeps_timer [keep]: "machine_ok v k \<Longrightarrow> keeps v (init_timer k)"
  unfolding init_timer_def by (intro keep)

lemma keeps_boot [keep]: "machine_ok v k \<Longrightarrow> keeps v (kernel_boot k)"
  unfolding kernel_boot_def boot_tree_def create_each_def Let_def by (intro keep)

section \<open>The interactive part\<close>

text \<open>Calls that keep the machine.\<close>

definition keeps_sys :: "(nat \<Rightarrow> u16) \<Rightarrow> sys \<Rightarrow> bool" where
  "keeps_sys v f \<longleftrightarrow> (\<forall>c k. machine_ok v k \<longrightarrow> keeps v (f c k))"

lemma keeps_sysD: "keeps_sys v f \<Longrightarrow> machine_ok v k \<Longrightarrow> keeps v (f c k)"
  by (simp add: keeps_sys_def)

lemma keeps_keys:
  assumes "keeps_sys v f" and "machine_ok v k"
  shows "keeps v (keyboard_getchar f k)" and "keeps v (keyboard_loop f k)" and "keeps v (smouse_key_loop f k)"
  unfolding keyboard_getchar_def keyboard_loop_def smouse_key_loop_def key_code_def key_rest_def
    key_mapped_def key_loop_end_def Let_def
  by (intro keep keeps_sysD [OF assms(1)] assms(2); assumption)+

lemma keeps_tty_number [keep]: "machine_ok v k \<Longrightarrow> keeps v (tty_number k)"
  unfolding tty_number_def by (intro keep)

lemma nat_tty: "\<not> (n < 0 \<or> int MAX_TTYS \<le> n) \<Longrightarrow> nat n < MAX_TTYS"
  by (simp add: nat_less_iff)

lemma keeps_terminals:
  assumes "keeps_sys v f" and "machine_ok v k"
  shows "keeps v (switch_tty f t k)" and "keeps v (login_screen f k)"
    and "keeps v (login_name f u p k)" and "keeps v (login_password f u w p k)"
  unfolding switch_tty_def login_screen_def login_name_def login_password_def login_decide_def
  by (intro keep nat_tty keeps_sysD [OF assms(1)] assms(2); assumption)+

lemma keeps_prompt [keep]: "machine_ok v k \<Longrightarrow> keeps v (print_prompt k)"
  unfolding print_prompt_def prompt_color_def by (intro keep)

lemma keeps_shell:
  assumes "keeps_sys v f" and "machine_ok v k"
  shows "keeps v (shell f k)" and "keeps v (shell_prompt f a k)"
  unfolding shell_def shell_prompt_def
  by (intro keep keeps_sysD [OF assms(1)] assms(2); assumption)+

lemma keeps_recall:
  assumes "keeps_sys v f" and "machine_ok v k" and "n \<le> history_count (hist k)"
  shows "keeps v (recall f a n k)"
  unfolding recall_def by (intro keep machine_recall keeps_sysD [OF assms(1)] assms(2,3))

lemma recall_bounds:
  "machine_ok v k \<Longrightarrow> history_pos (hist k) - 1 \<le> history_count (hist k)"
  "int (history_pos (hist k)) < int (history_count (hist k)) - 1 \<Longrightarrow> history_pos (hist k) + 1 \<le> history_count (hist k)"
  by (auto simp: machine_ok_def history_ok_def)

lemma keeps_read:
  assumes "keeps_sys v f" and "machine_ok v k"
  shows "keeps v (shell_read f a p k)"
  unfolding shell_read_def
  by (intro keep keeps_recall [OF assms(1)] recall_bounds keeps_sysD [OF assms(1)] assms(2))

lemma keeps_dispatch:
  assumes "keeps_sys v f" and "machine_ok v k"
  shows "keeps v (dispatch regs n f cmd args k)"
  unfolding dispatch_def execute_pause_def execute_exit_def Let_def void_def call_void_def arg1_def
  by (intro keep keeps_rm keeps_sysD [OF assms(1)] assms(2))

lemma keeps_command:
  assumes "keeps_sys v f" and "machine_ok v k"
  shows "keeps v (execute_command regs n f cmd k)"
  unfolding execute_command_def execute_args_def void_def
  by (intro keep keeps_dispatch [OF assms(1)] assms(2))

lemma keeps_body: "keeps_sys v f \<Longrightarrow> keeps_sys v (body regs n f)"
  unfolding keeps_sys_def [of v "body regs n f"] body_def
  by (auto intro: keeps_keys keeps_terminals keeps_shell keeps_read keeps_command keep split: call.split)

lemma keeps_run: "keeps_sys v (run regs n)"
proof (induction n)
  case 0
  show ?case by (simp add: keeps_sys_def run_0)
next
  case (Suc n)
  then show ?case by (simp add: run.simps keeps_body)
qed

lemma keeps_main: "keeps v (kernel_main regs n (static_kernel v input))"
  unfolding kernel_main_def by (intro keep keeps_sysD [OF keeps_run] static_machine_ok)

section \<open>Properties\<close>

text \<open>C6: Whatever the video memory holds and whatever is typed, for as long as the kernel runs and however it
  stops: the cursor and every saved cursor stay on the screen and nothing is written behind it; the
  tables of the file system keep their sizes, every inode names blocks of the block table only and every
  name is terminated, also after a failed write; the process table and the history keep their bounds; the
  mouse stays disabled, its test mode is never entered, and the clock stands at 0. The fuel \<open>n\<close> cuts the run
  anywhere, so this holds at every call on the way.\<close>

theorem machine_keeps_shape: "machine_ok vram (final (kernel_main regs n (static_kernel vram input)))"
  using keeps_main [of vram regs n input] by (simp add: keeps_def)

text \<open>C11: Reading and writing never leave the tables on a running kernel, even after a write that failed on a
  full disk and broke the consistency of the file system: from every state of a run, with any inode
  number and with arrays as long as the size passed, both end without a fault.\<close>

theorem running_files_never_fault:
  assumes "s = fs (final (kernel_main regs n (static_kernel vram input)))"
    and "unat sz \<le> length data" and "unat sz' \<le> length buf"
  shows "\<exists>r s' r' buf' s''. fs_write_file ticks i data sz s = Inr (r, s') \<and>
    fs_read_file ticks j buf sz' s' = Inr (r', buf', s'') \<and> length buf' = length buf"
proof -
  have "tables_ok s" using keeps_main [of vram regs n input] assms(1) by (simp add: keeps_def machine_ok_def)
  then show ?thesis
    using write_file_tables [OF _ assms(2)] read_file_tables [OF _ assms(3)] by blast
qed

theorem running_files_never_fault_witness:
  "\<exists>r s' r' buf' s''. fs_write_file 0 200 ''abc'' 2 (fs (final (kernel_main [] 0 (static_kernel (\<lambda>_. 0) [])))) = Inr (r, s') \<and>
    fs_read_file 0 1 ''xyz'' 3 s' = Inr (r', buf', s'') \<and> length buf' = length ''xyz''"
  by (rule running_files_never_fault) (rule refl, simp_all)

lemma running_clock_stands: "timer_ticks (final (kernel_main regs n (static_kernel vram input))) = 0"
  using keeps_main [of vram regs n input] by (simp add: keeps_def machine_ok_def dormant_def)

end
