(* ===== verification/Shell_Stays.thy ===== *)
theory Shell_Stays imports Machine_Inv Shell_Props Command_Props begin

text \<open>
  The interactive part never comes back: the login screen and the shell call each other and loop for
  good, so what started them (\<open>kernel_main\<close>, \<open>exit\<close>, \<open>sh\<close>, a terminal switch) waits for ever. The proof walks
  along the bodies as that of the machine's invariant does.
\<close>

section \<open>Calls that do not return\<close>

definition stays :: "(nat \<Rightarrow> u16) \<Rightarrow> (kernel, 'a) outcome \<Rightarrow> bool" where
  "stays v out \<longleftrightarrow> (\<exists>e k. out = Stop e k \<and> machine_ok v k)"

text \<open>The calls of the login and of the shell.\<close>

fun endless :: "call \<Rightarrow> bool" where
  "endless LoginScreen = True"
| "endless (LoginName u p) = True"
| "endless (LoginPassword u w p) = True"
| "endless ShellCall = True"
| "endless (ShellPrompt a) = True"
| "endless (ShellRead a p) = True"
| "endless c = False"

definition stays_sys :: "(nat \<Rightarrow> u16) \<Rightarrow> sys \<Rightarrow> bool" where
  "stays_sys v f \<longleftrightarrow> keeps_sys v f \<and> (\<forall>c k. endless c \<longrightarrow> machine_ok v k \<longrightarrow> stays v (f c k))"

lemma stays_call: "stays_sys v f \<Longrightarrow> machine_ok v k \<Longrightarrow> endless c \<Longrightarrow> stays v (f c k)"
  by (simp add: stays_sys_def)

lemma stays_keeps: "stays_sys v f \<Longrightarrow> machine_ok v k \<Longrightarrow> keeps v (f c k)"
  by (simp add: stays_sys_def keeps_sysD)

named_theorems stay

lemma stays_bindc [stay]:
  assumes "keeps v (m k)" and "\<And>a t. machine_ok v t \<Longrightarrow> stays v (f a t)"
  shows "stays v (bindc m f k)"
  using assms by (cases "m k") (simp_all add: bindc_def stays_def)

lemma stays_andthen [stay]:
  "keeps v (m k) \<Longrightarrow> (\<And>t. machine_ok v t \<Longrightarrow> stays v (n t)) \<Longrightarrow> stays v (andthen m n k)"
  unfolding andthen_def by (rule stays_bindc)

lemma stays_if [stay]:
  "(b \<Longrightarrow> stays v x) \<Longrightarrow> (\<not> b \<Longrightarrow> stays v y) \<Longrightarrow> stays v (if b then x else y)"
  "(b \<Longrightarrow> stays v (m k)) \<Longrightarrow> (\<not> b \<Longrightarrow> stays v (n k)) \<Longrightarrow> stays v ((if b then m else n) k)"
  by simp_all

section \<open>The bodies\<close>

lemma stays_login:
  assumes s: "stays_sys v f" and m: "machine_ok v k"
  shows "stays v (login_screen f k)" and "stays v (login_name f u p k)" and "stays v (login_password f u w p k)"
  unfolding login_screen_def login_name_def login_password_def login_decide_def
  by (intro stay keep stays_call [OF s] stays_keeps [OF s] m; (assumption | simp))+

lemma stays_recall:
  assumes s: "stays_sys v f" and m: "machine_ok v k" and n: "n \<le> history_count (hist k)"
  shows "stays v (recall f a n k)"
  unfolding recall_def by (intro stay keep machine_recall stays_call [OF s] m n) simp_all

lemma stays_shell:
  assumes s: "stays_sys v f" and m: "machine_ok v k"
  shows "stays v (shell f k)" and "stays v (shell_prompt f a k)" and "stays v (shell_read f a p k)"
proof -
  have "\<not> smouse_mode (con k)" using m by (simp add: machine_ok_def con_ok_def)
  then show "stays v (shell f k)"
    unfolding shell_def by (simp only: if_False) (intro stay keep stays_call [OF s] m; simp)
  show "stays v (shell_prompt f a k)"
    unfolding shell_prompt_def by (intro stay keep stays_call [OF s] m; simp)
  show "stays v (shell_read f a p k)"
    unfolding shell_read_def
    by (intro stay keep stays_recall [OF s] recall_bounds stays_call [OF s] stays_keeps [OF s] m; simp)
qed

lemma stays_run: "stays_sys v (run regs n)"
proof (induction n)
  case 0
  show ?case unfolding stays_sys_def using keeps_run [of v regs 0] by (simp add: stays_def run_0)
next
  case (Suc n)
  have "stays v (run regs (Suc n) c k)" if "endless c" "machine_ok v k" for c k
    using that(1) stays_login [OF Suc that(2)] stays_shell [OF Suc that(2)]
    by (cases c) (simp_all add: run_Suc)
  then show ?case using keeps_run [of v regs "Suc n"] by (simp add: stays_sys_def)
qed

section \<open>Commands that start them\<close>

text \<open>Lines whose first word is \<open>exit\<close>, \<open>sh\<close> or \<open>srunix64\<close>, in any case.\<close>

definition nesting_line :: "string \<Rightarrow> bool" where
  "nesting_line s \<longleftrightarrow> (case words_of MAX_ARGS (map lower_char s) of [] \<Rightarrow> False
     | w # ws \<Rightarrow> w = ''exit'' \<or> w = ''sh'' \<or> w = ''srunix64'')"

lemma dispatch_nesting:
  "dispatch regs n f cmd (''exit'' # ws) = execute_exit f"
  "dispatch regs n f cmd (''sh'' # ws) = f ShellCall"
  "dispatch regs n f cmd (''srunix64'' # ws) = f ShellCall"
proof -
  have "list_all (\<lambda>c. is_cmd ''exit'' c \<longleftrightarrow> c = ''exit'') command_names" by code_simp
  then show "dispatch regs n f cmd (''exit'' # ws) = execute_exit f" by (simp add: command_names_def dispatch_def)
  have "list_all (\<lambda>c. is_cmd ''sh'' c \<longleftrightarrow> c = ''sh'') command_names" by code_simp
  then show "dispatch regs n f cmd (''sh'' # ws) = f ShellCall" by (simp add: command_names_def dispatch_def)
  have "list_all (\<lambda>c. is_cmd ''srunix64'' c \<longleftrightarrow> c = ''srunix64'') command_names" by code_simp
  then show "dispatch regs n f cmd (''srunix64'' # ws) = f ShellCall" by (simp add: command_names_def dispatch_def)
qed

lemma stays_exit: "stays_sys v f \<Longrightarrow> machine_ok v k \<Longrightarrow> stays v (execute_exit f k)"
  unfolding execute_exit_def by (intro stay keep stays_call) simp_all

lemma stays_nesting:
  assumes s: "stays_sys v f" and m: "machine_ok v k" and w: "w = ''exit'' \<or> w = ''sh'' \<or> w = ''srunix64''"
  shows "stays v (execute_args regs n f cmd (w # ws) k)"
proof -
  have d: "stays v (dispatch regs n f cmd (w # ws) k)"
    using w stays_exit [OF s m] stays_call [OF s m, of ShellCall] by (auto simp: dispatch_nesting)
  have "list_all (\<lambda>w. \<not> is_cmd w ''echo'' \<and> \<not> is_cmd w ''cat'') [''exit'', ''sh'', ''srunix64'']" by code_simp
  then have "\<not> is_cmd w ''echo''" "\<not> is_cmd w ''cat''" using w by auto
  then have "execute_args regs n f cmd (w # ws) = dispatch regs n f cmd (w # ws)"
    by (simp add: execute_args_def split: option.split)
  then show ?thesis using d by simp
qed

lemma stays_command:
  assumes s: "stays_sys v f" and m: "machine_ok v k" and l: "is_cstr s" "nesting_line s"
  shows "stays v (execute_command regs n f s k)"
proof (cases "length s < MAX_CMD_LEN")
  case True
  obtain w ws where w: "words_of MAX_ARGS (map lower_char s) = w # ws" "w = ''exit'' \<or> w = ''sh'' \<or> w = ''srunix64''"
    using l(2) by (auto simp: nesting_line_def split: list.splits)
  have "execute_command regs n f s k = execute_args regs n f s (w # ws) k"
    using True l(1) w(1) by (simp add: execute_command_def strcpy_eq bindc_def lift_sum_def)
  then show ?thesis using stays_nesting [OF s m w(2)] by simp
next
  case False
  then show ?thesis using m by (simp add: execute_command_def strcpy_eq bindc_def lift_sum_def stays_def)
qed

section \<open>Properties\<close>

text \<open>C32: From every state of a running kernel the login screen, the shell, and the commands \<open>exit\<close>, \<open>sh\<close>
  and \<open>srunix64\<close> never return to their caller, whatever is typed and on any fuel: the run ends only by
  stopping, that is by a fault, at the end of the input, on a processor that halts or loops for good, or
  where the fuel cuts it. So every login and every such command leaves its callers on the stack, and a
  run of the kernel is that of its first login screen: the loop on \<open>hlt\<close> behind it is never reached.\<close>

theorem shell_never_returns:
  assumes "machine_ok vram k"
    and "c = LoginScreen \<or> c = ShellCall \<or> (\<exists>s. c = ExecuteCommand s \<and> is_cstr s \<and> nesting_line s)"
  shows "(\<exists>e k'. run regs n c k = Stop e k' \<and> machine_ok vram k') \<and>
    kernel_main regs n (static_kernel vram input) = run regs n LoginScreen (boot_kernel vram input)"
proof
  have "stays vram (run regs n c k)"
  proof (cases "endless c")
    case True
    then show ?thesis by (rule stays_call [OF stays_run assms(1)])
  next
    case False
    then obtain s where s: "c = ExecuteCommand s" "is_cstr s" "nesting_line s" using assms(2) by auto
    then show ?thesis
      using stays_command [OF stays_run assms(1) s(2,3)] assms(1) by (cases n) (simp_all add: run_0 run_Suc stays_def)
  qed
  then show "\<exists>e k'. run regs n c k = Stop e k' \<and> machine_ok vram k'"
    by (simp add: stays_def)
  have b: "machine_ok vram (boot_kernel vram input)"
    using keeps_boot [OF static_machine_ok, of vram input] by (simp add: kernel_boot_eq)
  then have "stays vram (run regs n LoginScreen (boot_kernel vram input))"
    using stays_call [OF stays_run b] by simp
  then show "kernel_main regs n (static_kernel vram input) = run regs n LoginScreen (boot_kernel vram input)"
    by (auto simp: kernel_main_def andthen_def bindc_def kernel_boot_eq stays_def)
qed

theorem shell_never_returns_witness:
  "(\<exists>e k. run [] 50 (ExecuteCommand ''EXIT now'') (boot_kernel (\<lambda>_. 0) [1, 0x1C]) = Stop e k \<and> machine_ok (\<lambda>_. 0) k) \<and>
    kernel_main [] 50 (static_kernel (\<lambda>_. 0) []) = run [] 50 LoginScreen (boot_kernel (\<lambda>_. 0) [])"
proof (rule shell_never_returns)
  show "machine_ok (\<lambda>_. 0) (boot_kernel (\<lambda>_. 0) [1, 0x1C])"
    using keeps_boot [OF static_machine_ok, of "\<lambda>_. 0" "[1, 0x1C]"] by (simp add: kernel_boot_eq)
  have "nesting_line ''EXIT now''" by code_simp
  then show "ExecuteCommand ''EXIT now'' = LoginScreen \<or> ExecuteCommand ''EXIT now'' = ShellCall \<or>
      (\<exists>s. ExecuteCommand ''EXIT now'' = ExecuteCommand s \<and> is_cstr s \<and> nesting_line s)"
    by (simp add: is_cstr_def)
qed

end
