(* ===== verification/Heap.thy ===== *)
theory Heap imports CString begin

text \<open>
  The allocator of src/lib/prddef.h and \<open>strdup\<close> of src/lib/prdio.h: a break that moves up through
  the region from 2 MB to 4 MB. Memory is a map from addresses to bytes, because the blocks are raw
  addresses.
\<close>

section \<open>State and operations\<close>

record heap =
  heap_start :: u64
  mem :: "u64 \<Rightarrow> char"

abbreviation HEAP_BASE :: u64 where "HEAP_BASE \<equiv> 0x200000"

definition heap_end :: u64 where
  "heap_end = 0x400000"

definition static_heap :: "(u64 \<Rightarrow> char) \<Rightarrow> heap" where
  "static_heap m = \<lparr>heap_start = HEAP_BASE, mem = m\<rparr>"

text \<open>The test is made on \<open>heap_start + size\<close>, which wraps. \<open>NULL\<close> is 0.\<close>

definition malloc :: "u64 \<Rightarrow> heap \<Rightarrow> u64 \<times> heap" where
  "malloc sz h =
     (if heap_start h + sz > heap_end then (0, h)
      else (heap_start h, h\<lparr>heap_start := heap_start h + sz\<rparr>))"

definition free :: "u64 \<Rightarrow> heap \<Rightarrow> heap" where
  "free ptr h = h"

definition mem_copy :: "u64 \<Rightarrow> u64 \<Rightarrow> nat \<Rightarrow> heap \<Rightarrow> heap" where
  "mem_copy dest src n h = fold (\<lambda>i h. h\<lparr>mem := (mem h)(dest + of_nat i := mem h (src + of_nat i))\<rparr>) [0..<n] h"

definition mem_set :: "u64 \<Rightarrow> char \<Rightarrow> nat \<Rightarrow> heap \<Rightarrow> heap" where
  "mem_set p c n h = fold (\<lambda>i h. h\<lparr>mem := (mem h)(p + of_nat i := c)\<rparr>) [0..<n] h"

definition calloc :: "u64 \<Rightarrow> u64 \<Rightarrow> heap \<Rightarrow> u64 \<times> heap" where
  "calloc num sz h =
     (let (ptr, h1) = malloc (num * sz) h
      in (ptr, if ptr \<noteq> 0 then mem_set ptr NUL (unat (num * sz)) h1 else h1))"

text \<open>The old size is not known: the copy takes \<open>new_size\<close> bytes from the old block.\<close>

definition realloc :: "u64 \<Rightarrow> u64 \<Rightarrow> heap \<Rightarrow> u64 \<times> heap" where
  "realloc ptr new_size h =
     (if new_size = 0 then (0, free ptr h)
      else (let (new_ptr, h1) = malloc new_size h
            in (new_ptr, if new_ptr \<noteq> 0 \<and> ptr \<noteq> 0
                         then free ptr (mem_copy new_ptr ptr (unat new_size) h1) else h1)))"

text \<open>\<open>strdup\<close> of a string that lies outside the heap: its bytes are copied with the terminator.\<close>

definition mem_put :: "u64 \<Rightarrow> char list \<Rightarrow> heap \<Rightarrow> heap" where
  "mem_put dest bs h = fold (\<lambda>i h. h\<lparr>mem := (mem h)(dest + of_nat i := bs ! i)\<rparr>) [0..<length bs] h"

definition strdup :: "string \<Rightarrow> heap \<Rightarrow> u64 \<times> heap" where
  "strdup s h =
     (let len = of_nat (length s) + 1; (new, h1) = malloc len h
      in if new = 0 then (0, h1) else (new, mem_put new (s @ [NUL]) h1))"

section \<open>Bytes in memory\<close>

definition bytes_at :: "heap \<Rightarrow> u64 \<Rightarrow> nat \<Rightarrow> char list" where
  "bytes_at h p n = map (\<lambda>i. mem h (p + of_nat i)) [0..<n]"

lemma malloc_frame [simp]: "mem (snd (malloc sz h)) = mem h"
  by (simp add: malloc_def)

lemma of_nat_u64_inj:
  "i < 18446744073709551616 \<Longrightarrow> j < 18446744073709551616 \<Longrightarrow> (of_nat i = (of_nat j :: u64)) = (i = j)"
  by (metis unat_of_nat_u64)

lemma mem_put_frame [simp]: "heap_start (mem_put p bs h) = heap_start h"
proof -
  have "heap_start (fold (\<lambda>i h. h\<lparr>mem := (mem h)(p + of_nat i := bs ! i)\<rparr>) js h) = heap_start h" for js
    by (induction js arbitrary: h) simp_all
  then show ?thesis by (simp add: mem_put_def)
qed

lemma mem_put_nth:
  assumes "length bs \<le> 18446744073709551616" and "j < length bs"
  shows "mem (mem_put p bs h) (p + of_nat j) = bs ! j"
proof -
  have "k \<le> length bs \<Longrightarrow> j < k \<Longrightarrow>
      mem (fold (\<lambda>i h. h\<lparr>mem := (mem h)(p + of_nat i := bs ! i)\<rparr>) [0..<k] h) (p + of_nat j) = bs ! j" for k
  proof (induction k)
    case (Suc k)
    then show ?case using assms(1) of_nat_u64_inj [of j k] by (cases "j = k") auto
  qed simp
  then show ?thesis using assms by (simp add: mem_put_def)
qed

lemma mem_put_bytes: "length bs \<le> 18446744073709551616 \<Longrightarrow> bytes_at (mem_put p bs h) p (length bs) = bs"
  by (rule nth_equalityI) (simp_all add: bytes_at_def mem_put_nth)


section \<open>Blocks\<close>

type_synonym heap_block = "u64 \<times> u64"

definition block_range :: "heap_block \<Rightarrow> nat set" where
  "block_range b = {unat (fst b)..<unat (fst b) + unat (snd b)}"

text \<open>Requests that do not make the sum wrap, and the blocks they were given, newest first.\<close>

inductive heap_run :: "heap \<Rightarrow> heap_block list \<Rightarrow> heap \<Rightarrow> bool" where
  fresh: "heap_run h [] h"
| got: "heap_run h bs h1 \<Longrightarrow> unat sz < 2 ^ 63 \<Longrightarrow> malloc sz h1 = (p, h2) \<Longrightarrow> p \<noteq> 0 \<Longrightarrow>
    heap_run h ((p, sz) # bs) h2"
| refused: "heap_run h bs h1 \<Longrightarrow> unat sz < 2 ^ 63 \<Longrightarrow> malloc sz h1 = (0, h2) \<Longrightarrow> heap_run h bs h2"

definition heap_ok :: "heap \<Rightarrow> bool" where
  "heap_ok h \<longleftrightarrow> unat HEAP_BASE \<le> unat (heap_start h) \<and> unat (heap_start h) \<le> unat heap_end"

lemma malloc_block:
  assumes "heap_ok h" and "unat sz < 2 ^ 63" and "malloc sz h = (p, h')"
  shows "heap_ok h' \<and> (if p = 0 then h' = h else p = heap_start h \<and> unat (heap_start h') = unat p + unat sz)"
proof -
  have top: "unat heap_end = 0x400000" by (simp add: heap_end_def)
  have "unat (heap_start h) + unat sz < 2 ^ 64" using assms(1,2) top by (simp add: heap_ok_def)
  then have s: "unat (heap_start h + sz) = unat (heap_start h) + unat sz" by (simp add: unat_plus_simple [THEN iffD1] no_olen_add_nat)
  have "heap_start h \<noteq> 0" using assms(1) by (auto simp: heap_ok_def)
  then show ?thesis
    using assms s top by (auto simp: malloc_def heap_ok_def word_less_nat_alt split: if_splits)
qed

lemma heap_run_blocks:
  assumes "heap_run h bs h'" and "heap_ok h"
  shows "heap_ok h' \<and> (\<forall>b \<in> set bs. block_range b \<subseteq> {unat (heap_start h)..<unat (heap_start h')}) \<and>
    unat (heap_start h) \<le> unat (heap_start h') \<and>
    (\<forall>i<length bs. \<forall>j<length bs. i \<noteq> j \<longrightarrow> block_range (bs ! i) \<inter> block_range (bs ! j) = {})"
  using assms
proof (induction rule: heap_run.induct)
  case (got h bs h1 sz p h2)
  then have IH: "heap_ok h1" "\<forall>b \<in> set bs. block_range b \<subseteq> {unat (heap_start h)..<unat (heap_start h1)}"
    "unat (heap_start h) \<le> unat (heap_start h1)"
    "\<forall>i<length bs. \<forall>j<length bs. i \<noteq> j \<longrightarrow> block_range (bs ! i) \<inter> block_range (bs ! j) = {}" by blast+
  have m: "heap_ok h2" "p = heap_start h1" "unat (heap_start h2) = unat p + unat sz"
    using malloc_block [OF IH(1) got.hyps(2,3)] got.hyps(4) by auto
  have new: "block_range (p, sz) \<inter> block_range b = {}" if "b \<in> set bs" for b
    using IH(2) that m(2) by (fastforce simp: block_range_def)
  have "block_range (((p, sz) # bs) ! i) \<inter> block_range (((p, sz) # bs) ! j) = {}"
    if "i < Suc (length bs)" "j < Suc (length bs)" "i \<noteq> j" for i j
    using that IH(4) new [of "bs ! (i - 1)"] new [of "bs ! (j - 1)"]
    by (cases i; cases j) (auto simp: Int_commute)
  moreover have "block_range b \<subseteq> {unat (heap_start h)..<unat (heap_start h2)}" if "b \<in> set ((p, sz) # bs)" for b
    using that IH(2,3) m by (fastforce simp: block_range_def)
  ultimately show ?case using m IH(3) by simp
next
  case (refused h bs h1 sz h2)
  then show ?case using malloc_block [of h1 sz 0 h2] by auto
qed simp

text \<open>C39: The blocks \<open>malloc\<close> hands out never overlap and lie between 2 MB and 4 MB, for any sequence of
  requests below 2^63 bytes.\<close>

theorem malloc_blocks_disjoint:
  assumes "heap_run (static_heap m) bs h"
  shows "(\<forall>b \<in> set bs. block_range b \<subseteq> {0x200000..<0x400000}) \<and>
    (\<forall>i<length bs. \<forall>j<length bs. i \<noteq> j \<longrightarrow> block_range (bs ! i) \<inter> block_range (bs ! j) = {})"
proof -
  have "heap_ok (static_heap m)" by (simp add: heap_ok_def static_heap_def heap_end_def)
  from heap_run_blocks [OF assms this] show ?thesis
    by (fastforce simp: heap_ok_def static_heap_def heap_end_def)
qed

theorem malloc_blocks_disjoint_witness:
  "heap_run (static_heap (\<lambda>_. NUL)) [(0x200010, 32), (0x200000, 16)] ((static_heap (\<lambda>_. NUL))\<lparr>heap_start := 0x200030\<rparr>) \<and>
   block_range (0x200010, 32) \<inter> block_range (0x200000, 16) = {}"
proof -
  let ?h = "static_heap (\<lambda>_. NUL)"
  have "heap_run ?h [(0x200000, 16)] (?h\<lparr>heap_start := 0x200010\<rparr>)"
    by (rule heap_run.got [OF heap_run.fresh]) (simp_all add: malloc_def static_heap_def heap_end_def)
  then have r: "heap_run ?h [(0x200010, 32), (0x200000, 16)] (?h\<lparr>heap_start := 0x200030\<rparr>)"
    by (rule heap_run.got) (simp_all add: malloc_def static_heap_def heap_end_def)
  then show ?thesis using malloc_blocks_disjoint [OF r] by fastforce
qed

text \<open>A size that makes the sum wrap is granted, and moves the break down over the blocks handed out.\<close>

lemma malloc_wraps:
  assumes "heap_ok h" and "2 ^ 64 - unat (heap_start h) \<le> unat sz"
  shows "\<exists>h'. malloc sz h = (heap_start h, h') \<and> unat (heap_start h') < unat (heap_start h)"
proof -
  have sz: "unat sz < 2 ^ 64" using unat_lt_u64 [of sz] by simp
  have w: "unat (heap_start h + sz) = unat (heap_start h) + unat sz - 2 ^ 64"
  proof -
    have "2 ^ 64 \<le> unat (heap_start h) + unat sz" using assms(2) by linarith
    then show ?thesis using unat_lt_u64 [of "heap_start h"] sz by (simp add: unat_word_ariths mod_if)
  qed
  have "\<not> heap_start h + sz > heap_end"
    using w assms(1) sz unfolding word_less_nat_alt heap_ok_def by linarith
  then show ?thesis using w sz assms(2) by (simp add: malloc_def)
qed

text \<open>\<open>calloc\<close> multiplies without a check: for 2^32 elements of 2^32 bytes it asks for nothing.\<close>

lemma calloc_wraps: "calloc 0x100000000 0x100000000 h = (fst (malloc 0 h), snd (malloc 0 h))"
proof -
  have z: "(0x100000000 * 0x100000000 :: u64) = 0" by (simp add: word_unat_eq_iff)
  show ?thesis unfolding calloc_def z by (auto simp: mem_set_def split_def Let_def prod_eq_iff)
qed

text \<open>A duplicate that fits is a terminated copy.\<close>

lemma strdup_copies:
  assumes "heap_ok h" and "unat (heap_start h) + length s < unat heap_end"
  shows "\<exists>h'. strdup s h = (heap_start h, h') \<and> bytes_at h' (heap_start h) (Suc (length s)) = s @ [NUL]"
proof -
  have len: "unat (of_nat (length s) + 1 :: u64) = Suc (length s)"
  proof -
    have "Suc (length s) < 18446744073709551616" using assms(2) by (simp add: heap_end_def)
    from unat_of_nat_u64 [OF this] show ?thesis by (simp only: of_nat_Suc add.commute)
  qed
  obtain p h1 where m: "malloc (of_nat (length s) + 1) h = (p, h1)" by (cases "malloc (of_nat (length s) + 1) h")
  have "unat (heap_start h + (of_nat (length s) + 1)) = unat (heap_start h) + Suc (length s)"
    using assms(2) len by (subst unat_add_lem [THEN iffD1]) (simp_all add: heap_end_def)
  then have "\<not> heap_start h + (of_nat (length s) + 1) > heap_end"
    using assms(2) by (simp add: word_less_nat_alt)
  moreover have "heap_start h \<noteq> 0" using assms(1) by (auto simp: heap_ok_def)
  ultimately have "p = heap_start h" "p \<noteq> 0" using m by (auto simp: malloc_def)
  then show ?thesis
    using m mem_put_bytes [of "s @ [NUL]" p h1] assms(2) by (simp add: strdup_def heap_end_def)
qed

end
