(* ===== verification/Api.thy ===== *)
theory Api imports Shell Heap "HOL-Library.While_Combinator" begin

text \<open>
  The table of functions for programs, src/lib/srunix86_api.c: wrappers around the allocator, the
  processes, the files, the terminal and the counters. The header that declares the type of the table
  and the version string is not in the repository, so the version is a parameter and the table has
  the fields the initialisation assigns. Times are computed in \<open>double\<close> with 18.2 ticks a second; on
  32 bit operands the results are those of the exact rational arithmetic, which is written here.
\<close>

section \<open>State\<close>

record system =
  kern :: kernel
  hp :: heap

definition on_kern :: "(kernel, 'a) cmd \<Rightarrow> (system, 'a) cmd" where
  "on_kern = zoom kern (\<lambda>k. kern_update (\<lambda>_. k))"

definition on_heap :: "(heap \<Rightarrow> 'a \<times> heap) \<Rightarrow> (system, 'a) cmd" where
  "on_heap f s = (let (a, h) = f (hp s) in Ret a (s\<lparr>hp := h\<rparr>))"

section \<open>Memory\<close>

definition api_malloc :: "u64 \<Rightarrow> (system, u64) cmd" where
  "api_malloc sz = on_heap (malloc sz)"

definition api_free :: "u64 \<Rightarrow> (system, unit) cmd" where
  "api_free ptr = on_heap (\<lambda>h. ((), free ptr h))"

definition api_calloc :: "u64 \<Rightarrow> u64 \<Rightarrow> (system, u64) cmd" where
  "api_calloc num sz = on_heap (calloc num sz)"

definition api_realloc :: "u64 \<Rightarrow> u64 \<Rightarrow> (system, u64) cmd" where
  "api_realloc ptr sz = on_heap (realloc ptr sz)"

section \<open>Processes and time\<close>

definition api_fork :: "(kernel, u32) cmd" where
  "api_fork k = (let (n, t) = sys_fork (proc k) in Ret n (k\<lparr>proc := t\<rparr>))"

definition api_exit :: "u32 \<Rightarrow> (kernel, unit) cmd" where
  "api_exit status = act (on_proc (sys_exit status))"

text \<open>
  The conversion of a sum of \<open>2\<^sup>3\<^sup>2\<close> or more to \<open>uint32_t\<close> is undefined. The body of the waiting loop is the
  instruction \<open>pause\<close>, which changes nothing itself; \<open>timer_ticks\<close> is volatile, so what may change it meanwhile
  is an interrupt handler. The parameter \<open>irq\<close> is the effect on the machine of the interrupts that are
  served between two tests of the condition. The loader clears the interrupt flag (src/boot/boot.asm), nothing calls its routines that set
  the flag and no C code installs a handler, so for this kernel \<open>irq\<close> is the identity.
\<close>

definition api_sleep :: "(kernel \<Rightarrow> kernel) \<Rightarrow> u32 \<Rightarrow> (kernel, unit) cmd" where
  "api_sleep irq ms k =
     (let target = unat (timer_ticks k) + unat ms * 91 div 5000
      in if 2 ^ 32 \<le> target then Stop (Fault SignedOverflow) k
         else (case while_option (\<lambda>k. unat (timer_ticks k) < target) irq k of
                 None \<Rightarrow> Stop NoReturn k
               | Some k' \<Rightarrow> Ret () k'))"

section \<open>Files\<close>

definition api_open :: "string \<Rightarrow> int \<Rightarrow> (kernel, int) cmd" where
  "api_open path flags k =
     (case find_entry (\<lambda>f. strcmp (entry_name f) path = 0) (fs k) of
        Some i \<Rightarrow> Ret (sint (f_inode (entry_at i k))) k
      | None \<Rightarrow> Ret (- 1) k)"

definition api_close :: "int \<Rightarrow> (kernel, int) cmd" where
  "api_close fd = ret 0"

text \<open>The descriptor and the count are converted to \<open>uint32_t\<close> by the calls.\<close>

definition api_read :: "int \<Rightarrow> carray \<Rightarrow> u64 \<Rightarrow> (kernel, int \<times> carray) cmd" where
  "api_read fd buf count k =
     (case fs_read_file (timer_ticks k) (word_of_int fd) buf (ucast count) (fs k) of
        Inl e \<Rightarrow> Stop (Fault e) k
      | Inr (r, buf', s) \<Rightarrow> Ret (r, buf') (k\<lparr>fs := s\<rparr>))"

definition api_write :: "int \<Rightarrow> char list \<Rightarrow> u64 \<Rightarrow> (kernel, int) cmd" where
  "api_write fd buf count k = write_file (word_of_int fd) buf (ucast count) k"

section \<open>Terminal\<close>

definition api_print :: "string \<Rightarrow> (kernel, unit) cmd" where
  "api_print s = say s"

definition api_println :: "string \<Rightarrow> (kernel, unit) cmd" where
  "api_println s = cseq [say s, say NL]"

definition api_getchar :: "sys \<Rightarrow> (kernel, char) cmd" where
  "api_getchar sys = sys KeyboardGetchar"

definition api_set_color :: "u8 \<Rightarrow> u8 \<Rightarrow> (kernel, unit) cmd" where
  "api_set_color fg bg = setcolor fg bg"

definition api_clear_screen :: "(kernel, unit) cmd" where
  "api_clear_screen = act (on_con terminal_clear)"

section \<open>Information\<close>

definition api_get_memory_total :: "(kernel, u32) cmd" where
  "api_get_memory_total = ret TOTAL_MEMORY_KB"

definition api_get_memory_used :: "(kernel, u32) cmd" where
  "api_get_memory_used k = Ret (ucast ((next_node_addr k - 0x100000) div 1024)) k"

definition api_get_uptime :: "(kernel, u32) cmd" where
  "api_get_uptime k = Ret (of_nat (unat (timer_ticks k) * 5 div 91)) k"

definition api_get_kernel_version :: "string \<Rightarrow> (kernel, string) cmd" where
  "api_get_kernel_version version = ret version"

section \<open>The table\<close>

text \<open>The entries in the order they are assigned; \<open>NULL\<close> is \<open>None\<close>.\<close>

record srunix86_api =
  t_malloc :: "u64 \<Rightarrow> (system, u64) cmd"
  t_free :: "u64 \<Rightarrow> (system, unit) cmd"
  t_calloc :: "u64 \<Rightarrow> u64 \<Rightarrow> (system, u64) cmd"
  t_realloc :: "u64 \<Rightarrow> u64 \<Rightarrow> (system, u64) cmd"
  t_fork :: "(system, u32) cmd"
  t_exit :: "u32 \<Rightarrow> (system, unit) cmd"
  t_sleep :: "u32 \<Rightarrow> (system, unit) cmd"
  t_open :: "string \<Rightarrow> int \<Rightarrow> (system, int) cmd"
  t_close :: "int \<Rightarrow> (system, int) cmd"
  t_read :: "int \<Rightarrow> carray \<Rightarrow> u64 \<Rightarrow> (system, int \<times> carray) cmd"
  t_write :: "int \<Rightarrow> char list \<Rightarrow> u64 \<Rightarrow> (system, int) cmd"
  t_mkdir :: "string \<Rightarrow> (system, unit) cmd"
  t_unlink :: "name_ptr \<Rightarrow> bool \<Rightarrow> (system, unit) cmd"
  t_print :: "string \<Rightarrow> (system, unit) cmd"
  t_println :: "string \<Rightarrow> (system, unit) cmd"
  t_getchar :: "(system, char) cmd"
  t_set_color :: "u8 \<Rightarrow> u8 \<Rightarrow> (system, unit) cmd"
  t_clear_screen :: "(system, unit) cmd"
  t_get_memory_total :: "(system, u32) cmd"
  t_get_memory_used :: "(system, u32) cmd"
  t_get_uptime :: "(system, u32) cmd"
  t_get_kernel_version :: "(system, string) cmd"
  t_net_connect :: "(system, int) cmd option"
  t_net_send :: "(system, int) cmd option"
  t_net_recv :: "(system, int) cmd option"
  t_net_close :: "(system, int) cmd option"

text \<open>
  \<open>irq\<close> is what interrupts do while \<open>sleep\<close> waits, \<open>sys\<close> makes the calls of the keyboard driver, the fuel
  bounds \<open>execute_rm\<close>.
\<close>

definition init_srunix86_api :: "(kernel \<Rightarrow> kernel) \<Rightarrow> sys \<Rightarrow> nat \<Rightarrow> string \<Rightarrow> srunix86_api" where
  "init_srunix86_api irq sys fuel version =
     \<lparr>t_malloc = api_malloc, t_free = api_free, t_calloc = api_calloc, t_realloc = api_realloc,
      t_fork = on_kern api_fork, t_exit = (\<lambda>st. on_kern (api_exit st)), t_sleep = (\<lambda>ms. on_kern (api_sleep irq ms)),
      t_open = (\<lambda>path flags. on_kern (api_open path flags)), t_close = (\<lambda>fd. on_kern (api_close fd)),
      t_read = (\<lambda>fd buf n. on_kern (api_read fd buf n)), t_write = (\<lambda>fd buf n. on_kern (api_write fd buf n)),
      t_mkdir = (\<lambda>name. on_kern (execute_mkdir name)), t_unlink = (\<lambda>name r. on_kern (execute_rm fuel name r)),
      t_print = (\<lambda>s. on_kern (api_print s)), t_println = (\<lambda>s. on_kern (api_println s)),
      t_getchar = on_kern (api_getchar sys), t_set_color = (\<lambda>fg bg. on_kern (api_set_color fg bg)),
      t_clear_screen = on_kern api_clear_screen, t_get_memory_total = on_kern api_get_memory_total,
      t_get_memory_used = on_kern api_get_memory_used, t_get_uptime = on_kern api_get_uptime,
      t_get_kernel_version = on_kern (api_get_kernel_version version),
      t_net_connect = None, t_net_send = None, t_net_recv = None, t_net_close = None\<rparr>"

end
