(* ===== verification/Api_Props.thy ===== *)
theory Api_Props imports Api Boot_Props begin

text \<open>
  What a program gets through the table: storing bytes in a file and reading them back, and sleeping.
\<close>

section \<open>Calls on one part of the machine\<close>

lemma on_kern_Ret: "m (kern s) = Ret a k \<Longrightarrow> on_kern m s = Ret a (s\<lparr>kern := k\<rparr>)"
  by (simp add: on_kern_def zoom_def)

lemma on_kern_Stop: "m (kern s) = Stop e k \<Longrightarrow> on_kern m s = Stop e (s\<lparr>kern := k\<rparr>)"
  by (simp add: on_kern_def zoom_def)

text \<open>The machine after booting, with an empty heap.\<close>

definition booted_system :: system where
  "booted_system = \<lparr>kern = boot_kernel (\<lambda>_. 0) [], hp = static_heap (\<lambda>_. NUL)\<rparr>"

section \<open>Files\<close>

lemma named_entry:
  assumes "fs_inv t" and "find_entry (\<lambda>f. strcmp (entry_name f) name = 0) t = Some i" and "is_cstr name" and "name \<noteq> []"
  shows "valid_ino (f_inode (files t ! i))" "inode_taken t (ino_ix (f_inode (files t ! i)))" "entry_name (files t ! i) = name"
proof -
  note F = fs_invD [OF assms(1)]
  have f: "i < file_count t" "strcmp (entry_name (files t ! i)) name = 0"
    using assms(2) by (simp_all add: find_entry_def first_index_Some)
  then show nm: "entry_name (files t ! i) = name" using strcmp_zero assms(3) by simp
  have "5 \<le> i"
  proof (rule ccontr)
    assume "\<not> 5 \<le> i"
    then have "entry_name (files t ! i) = []" using F(3) by simp
    then show False using nm assms(4) by simp
  qed
  then show "valid_ino (f_inode (files t ! i))" "inode_taken t (ino_ix (f_inode (files t ! i)))"
    using F(4,5) f(1) by simp_all
qed

lemma api_open_eq:
  "find_entry (\<lambda>f. strcmp (entry_name f) path = 0) (fs k) = Some i \<Longrightarrow>
   api_open path flags k = Ret (sint (f_inode (files (fs k) ! i))) k"
  by (simp add: api_open_def entry_at_def)

lemma count_word: "n < 2 ^ 32 \<Longrightarrow> (ucast (of_nat n :: u64) :: u32) = of_nat n"
  by (simp add: word_unat_eq_iff unsigned_ucast_eq unat_of_nat take_bit_eq_mod)

text \<open>C22: Storing through the table and loading again: opening an existing name, whichever directory holds
  it, writing bytes for which there is room and reading as many back gives the bytes written, leaves
  the rest of the buffer, the terminal and the heap alone and keeps the file system consistent.\<close>

theorem api_write_then_read:
  fixes data buf
  defines "len \<equiv> (of_nat (length data) :: u64)"
  assumes "fs_inv (fs (kern s))" and "is_cstr path" and "path \<noteq> []"
    and "find_entry (\<lambda>f. strcmp (entry_name f) path = 0) (fs (kern s)) = Some i"
    and "length data \<le> INODE_DIRECT_BLOCKS * BLOCK_SIZE"
    and "blocks_for (length data) \<le> room (fs (kern s)) (ino_ix (f_inode (files (fs (kern s)) ! i)))"
    and "length data \<le> length buf"
  shows "\<exists>fd s1 s2. t_open (init_srunix86_api irq sys fuel v) path flags s = Ret fd s \<and>
    t_write (init_srunix86_api irq sys fuel v) fd data len s = Ret FS_SUCCESS s1 \<and>
    t_read (init_srunix86_api irq sys fuel v) fd buf len s1 = Ret (int (length data), data @ drop (length data) buf) s2 \<and>
    fs_inv (fs (kern s2)) \<and> con (kern s2) = con (kern s) \<and> hp s2 = hp s"
proof -
  let ?k = "kern s" and ?n = "f_inode (files (fs (kern s)) ! i)" and ?len = "of_nat (length data) :: u32"
  note E = named_entry [OF assms(2,5,3,4)]
  have l: "length data < 2 ^ 32" "unat ?len = length data" "ucast len = ?len"
    using assms(6) count_word [of "length data"] by (simp_all add: len_def)
  have fd: "word_of_int (sint ?n) = ?n" by simp
  obtain t where w: "write_file ?n data ?len ?k = Ret FS_SUCCESS (?k\<lparr>fs := t\<rparr>)" "stored (fs ?k) (ino_ix ?n) data t" "fs_inv t"
    using write_file_ok [OF assms(2) E(1,2), of ?len data] l(2) assms(6,7) by auto
  let ?k1 = "?k\<lparr>fs := t\<rparr>"
  have c: "content t (ino_ix ?n) = data" using w(2) by (simp add: stored_def)
  have r: "fs_read_file (timer_ticks ?k1) ?n buf ?len (fs ?k1) =
      Inr (int (length data), data @ drop (length data) buf, upd_inode ?n (\<lambda>ino. ino\<lparr>i_atime := timer_ticks ?k1\<rparr>) t)"
    using fs_read_file_content [OF fs_invD(1) [OF w(3)] E(1), of ?len buf] l(2) c assms(8) by simp
  let ?k2 = "touch_atime ?n ?k1"
  have "api_write (sint ?n) data len ?k = Ret FS_SUCCESS ?k1"
    using w(1) l(3) fd by (simp add: api_write_def)
  moreover have "api_read (sint ?n) buf len ?k1 = Ret (int (length data), data @ drop (length data) buf) ?k2"
    using r l(3) fd by (simp add: api_read_def touch_atime_def on_fs_def)
  moreover have "fs_inv (fs ?k2)" "con ?k2 = con ?k"
    using touch_atime_fs(1,5) [of ?k1 ?n] w(3) E(1) by simp_all
  ultimately show ?thesis
    using api_open_eq [OF assms(5), of flags]
    by (intro exI [of _ "sint ?n"] exI [of _ "s\<lparr>kern := ?k1\<rparr>"] exI [of _ "s\<lparr>kern := ?k2\<rparr>"])
      (simp add: init_srunix86_api_def on_kern_def zoom_def)
qed

theorem api_write_then_read_witness:
  "\<exists>fd s1 s2. t_open (init_srunix86_api id (run [] 0) 0 ''1'') ''sda'' 0 booted_system = Ret fd booted_system \<and>
    t_write (init_srunix86_api id (run [] 0) 0 ''1'') fd ''data'' 4 booted_system = Ret FS_SUCCESS s1 \<and>
    t_read (init_srunix86_api id (run [] 0) 0 ''1'') fd [NUL, NUL, NUL, NUL, NUL, NUL] 4 s1 = Ret (4, ''data'' @ [NUL, NUL]) s2"
proof -
  have f: "find_pos (\<lambda>f. strcmp (entry_name f) ''sda'' = 0) boot_entries = Some 8"
    by (simp add: boot_eval strcmp_zero)
  have i: "find_entry (\<lambda>f. strcmp (entry_name f) ''sda'' = 0) (boot_table boot_entries) = Some 13"
    using find_in_table [of "\<lambda>f. strcmp (entry_name f) ''sda'' = 0" boot_entries] f by (simp add: strcmp_zero is_cstr_def)
  have e: "files (boot_table boot_entries) ! 13 = boot_entry ''sda'' 9 5 FILE_REGULAR"
    using boot_at_dev(3) [of "\<lambda>_. 0" "[]"] by (simp add: entry_at_def)
  have r: "1 \<le> room (boot_table boot_entries) 8"
    using free_blocks_room [OF fs_invD(1) [OF boot_table_inv], of 8] by simp
  have k: "fs (kern booted_system) = boot_table boot_entries" by (simp add: booted_system_def)
  have x: "ino_ix (f_inode (files (boot_table boot_entries) ! 13)) = 8" by (simp add: e ino_ix_def)
  have c: "is_cstr ''sda''" "blocks_for (length ''data'') = 1" by (simp_all add: is_cstr_def blocks_for_def)
  have n: "of_nat (length ''data'') = (4 :: u64)" by simp
  obtain fd s1 s2 where "t_open (init_srunix86_api id (run [] 0) 0 ''1'') ''sda'' 0 booted_system = Ret fd booted_system"
    "t_write (init_srunix86_api id (run [] 0) 0 ''1'') fd ''data'' 4 booted_system = Ret FS_SUCCESS s1"
    "t_read (init_srunix86_api id (run [] 0) 0 ''1'') fd [NUL, NUL, NUL, NUL, NUL, NUL] 4 s1 =
      Ret (int (length ''data''), ''data'' @ drop (length ''data'') [NUL, NUL, NUL, NUL, NUL, NUL]) s2"
    using api_write_then_read [of booted_system "''sda''" 13 "''data''" "[NUL, NUL, NUL, NUL, NUL, NUL]" id "run [] 0" 0 "''1''" 0]
      i r boot_table_inv c unfolding k x n by auto
  then show ?thesis by (intro exI [of _ fd] exI [of _ s1] exI [of _ s2]) simp
qed

section \<open>Sleeping\<close>

text \<open>The loop with a clock that stands, and with one that is counted at every round.\<close>

lemma wait_for_ever:
  assumes "\<forall>k. timer_ticks (irq k) = timer_ticks k" and "unat (timer_ticks k) < target"
  shows "while_option (\<lambda>k. unat (timer_ticks k) < target) irq k = None"
proof -
  have "timer_ticks ((irq ^^ j) k) = timer_ticks k" for j using assms(1) by (induction j) simp_all
  then show ?thesis using assms(2) unfolding while_option_def by simp
qed

lemma wait_ticks:
  assumes "\<forall>k. timer_ticks (irq k) = timer_ticks k + 1" and "target < 2 ^ 32"
  shows "unat (timer_ticks k) + d = target \<Longrightarrow>
    while_option (\<lambda>k. unat (timer_ticks k) < target) irq k = Some ((irq ^^ d) k)"
proof (induction d arbitrary: k)
  case 0
  then show ?case by (subst while_option_unfold) simp
next
  case (Suc d)
  have "unat (timer_ticks k) + 1 < 2 ^ 32" using Suc.prems assms(2) by simp
  then have "unat (timer_ticks (irq k)) = unat (timer_ticks k) + 1"
    using assms(1) by (simp add: unat_word_ariths)
  then have "while_option (\<lambda>k. unat (timer_ticks k) < target) irq (irq k) = Some ((irq ^^ d) (irq k))"
    using Suc by simp
  then show ?case using Suc.prems by (subst while_option_unfold) (simp add: funpow_swap1)
qed

text \<open>C40: \<open>sleep\<close> through the table, called with \<open>ms\<close> milliseconds that convert to \<open>ms * 18.2 / 1000\<close> ticks, rounded
  down, while the target stays below \<open>2\<^sup>3\<^sup>2\<close>. If interrupts count one tick in every round of the loop it
  returns after exactly that many rounds. If nothing counts them, as in this kernel, the loop ends
  only if it is not entered: it returns at once and unchanged for at most 54 milliseconds, and never
  for more.\<close>

theorem api_sleep_returns_iff:
  fixes ms :: u32 and s :: system
  defines "ticks \<equiv> unat ms * 91 div 5000"
  assumes "unat (timer_ticks (kern s)) + ticks < 2 ^ 32"
  shows "((\<forall>k. timer_ticks (irq k) = timer_ticks k + 1) \<longrightarrow>
      t_sleep (init_srunix86_api irq sys fuel v) ms s = Ret () (s\<lparr>kern := (irq ^^ ticks) (kern s)\<rparr>)) \<and>
    ((\<forall>k. timer_ticks (irq k) = timer_ticks k) \<longrightarrow>
      t_sleep (init_srunix86_api irq sys fuel v) ms s = (if ms \<le> 54 then Ret () s else Stop NoReturn s))"
proof (intro conjI impI)
  let ?target = "unat (timer_ticks (kern s)) + ticks"
  have e: "api_sleep irq ms (kern s) = (case while_option (\<lambda>k. unat (timer_ticks k) < ?target) irq (kern s) of
      None \<Rightarrow> Stop NoReturn (kern s) | Some k' \<Rightarrow> Ret () k')"
    using assms(2) by (simp add: api_sleep_def Let_def ticks_def)
  { assume "\<forall>k. timer_ticks (irq k) = timer_ticks k + 1"
    from wait_ticks [OF this assms(2) refl]
    show "t_sleep (init_srunix86_api irq sys fuel v) ms s = Ret () (s\<lparr>kern := (irq ^^ ticks) (kern s)\<rparr>)"
      using e by (simp add: init_srunix86_api_def on_kern_def zoom_def) }
  assume c: "\<forall>k. timer_ticks (irq k) = timer_ticks k"
  have "ticks = 0 \<longleftrightarrow> unat ms \<le> 54" unfolding ticks_def by (simp add: div_eq_0_iff) linarith
  then have z: "ticks = 0 \<longleftrightarrow> ms \<le> 54" by (simp add: word_le_nat_alt)
  show "t_sleep (init_srunix86_api irq sys fuel v) ms s = (if ms \<le> 54 then Ret () s else Stop NoReturn s)"
  proof (cases "ticks = 0")
    case True
    then have "while_option (\<lambda>k. unat (timer_ticks k) < ?target) irq (kern s) = Some (kern s)"
      by (subst while_option_unfold) simp
    then show ?thesis using e z True by (simp add: init_srunix86_api_def on_kern_def zoom_def)
  next
    case False
    then show ?thesis
      using e z wait_for_ever [OF c, of "kern s" ?target] by (simp add: init_srunix86_api_def on_kern_def zoom_def)
  qed
qed

theorem api_sleep_returns_iff_witness:
  "t_sleep (init_srunix86_api (\<lambda>k. k\<lparr>timer_ticks := timer_ticks k + 1\<rparr>) (run [] 0) 0 ''1'') 1000 booted_system =
      Ret () (booted_system\<lparr>kern := ((\<lambda>k. k\<lparr>timer_ticks := timer_ticks k + 1\<rparr>) ^^ 18) (kern booted_system)\<rparr>) \<and>
    t_sleep (init_srunix86_api id (run [] 0) 0 ''1'') 1000 booted_system = Stop NoReturn booted_system \<and>
    t_sleep (init_srunix86_api id (run [] 0) 0 ''1'') 54 booted_system = Ret () booted_system"
proof -
  have z: "timer_ticks (kern booted_system) = 0" by (simp add: booted_system_def)
  show ?thesis
    using api_sleep_returns_iff [of booted_system 1000 "\<lambda>k. k\<lparr>timer_ticks := timer_ticks k + 1\<rparr>" "run [] 0" 0 "''1''"]
      api_sleep_returns_iff [of booted_system 1000 id "run [] 0" 0 "''1''"]
      api_sleep_returns_iff [of booted_system 54 id "run [] 0" 0 "''1''"] z
    by (simp del: funpow.simps)
qed

end
