(* ===== verification/Font.thy ===== *)
theory Font imports Console begin

text \<open>
  Saving and replacing the character generator (src/internet/internet.h, src/kernel/kernel.c). The
  window at 0xA0000 is taken as memory that returns what was written last; which plane it shows is
  decided by the VGA, whose registers the model records as port writes.
\<close>

definition VGA_FONT_SIZE :: nat where
  "VGA_FONT_SIZE = 256 * 16"

record vga =
  vga_con :: console
  font_mem :: "u8 list"
  old_vga_font :: "u8 list"

definition on_vga :: "(console \<Rightarrow> console) \<Rightarrow> vga \<Rightarrow> vga" where
  "on_vga f v = v\<lparr>vga_con := f (vga_con v)\<rparr>"

definition map_font :: "vga \<Rightarrow> vga" where
  "map_font = on_vga (steps
     [outb 0x3C4 0x04, outb 0x3C4 0x02, outb 0x3CE 0x04, outb 0x3CE 0x02,
      outb 0x3CE 0x05, outb 0x3CE 0x00, outb 0x3CE 0x06, outb 0x3CE 0x00])"

definition unmap_font :: "vga \<Rightarrow> vga" where
  "unmap_font = on_vga (steps
     [outb 0x3C4 0x03, outb 0x3C4 0x00, outb 0x3CE 0x04, outb 0x3CE 0x00,
      outb 0x3CE 0x05, outb 0x3CE 0x10, outb 0x3CE 0x06, outb 0x3CE 0x0E])"

text \<open>The buffer to fill is an argument and part of the result.\<close>

definition vga_save_current_font :: "u8 list \<Rightarrow> vga \<Rightarrow> fault + (u8 list \<times> vga)" where
  "vga_save_current_font buffer v =
     (let v1 = map_font v
      in sbind (memcpy buffer 0 (font_mem v1) 0 VGA_FONT_SIZE) (\<lambda>b. Inr (b, unmap_font v1)))"

definition vga_set_font :: "u8 list \<Rightarrow> vga \<Rightarrow> fault + vga" where
  "vga_set_font new_font v =
     sbind (vga_save_current_font (old_vga_font v) v) (\<lambda>(b, v1).
       let v2 = map_font (v1\<lparr>old_vga_font := b\<rparr>)
       in sbind (memcpy (font_mem v2) 0 new_font 0 VGA_FONT_SIZE) (\<lambda>m.
            Inr (on_vga (steps [outb 0x3D4 0x09, outb 0x3D5 0x00]) (unmap_font (v2\<lparr>font_mem := m\<rparr>)))))"

lemma on_vga_frame [simp]:
  "font_mem (on_vga f v) = font_mem v" "old_vga_font (on_vga f v) = old_vga_font v"
  by (simp_all add: on_vga_def)

text \<open>Setting a font keeps the replaced one; setting that again restores it.\<close>

lemma set_font_swaps:
  assumes "length (font_mem v) = VGA_FONT_SIZE" and "length (old_vga_font v) = VGA_FONT_SIZE"
    and "length f = VGA_FONT_SIZE"
  shows "\<exists>v'. vga_set_font f v = Inr v' \<and> font_mem v' = f \<and> old_vga_font v' = font_mem v"
  using assms memcpy_step [of 0 VGA_FONT_SIZE "old_vga_font v" 0 "font_mem v"]
    memcpy_step [of 0 VGA_FONT_SIZE "font_mem v" 0 f]
  by (simp add: vga_set_font_def vga_save_current_font_def map_font_def unmap_font_def Let_def)

end
