(* ===== verification/Disk_Format.thy ===== *)
theory Disk_Format imports Prelude begin

text \<open>
  The formatter src/fs/mkfs_bkfs.c: the three structures it writes, as bytes with the offsets of the
  C layout on x86-64, and its \<open>main\<close>. The device is a list of bytes. \<open>pwrite\<close>, \<open>open\<close>, the size
  request and the clock belong to the host and are parameters. Messages are left out.
\<close>

section \<open>Little-endian fields\<close>

definition le16 :: "u16 \<Rightarrow> u8 list" where
  "le16 w = [ucast w, ucast (drop_bit 8 w)]"

definition le32 :: "u32 \<Rightarrow> u8 list" where
  "le32 w = [ucast w, ucast (drop_bit 8 w), ucast (drop_bit 16 w), ucast (drop_bit 24 w)]"

definition le64 :: "u64 \<Rightarrow> u8 list" where
  "le64 w = le32 (ucast w) @ le32 (ucast (drop_bit 32 w))"

definition get16 :: "u8 list \<Rightarrow> nat \<Rightarrow> u16" where
  "get16 b p = ucast (b ! p) OR push_bit 8 (ucast (b ! (p + 1)))"

definition get32 :: "u8 list \<Rightarrow> nat \<Rightarrow> u32" where
  "get32 b p = ucast (b ! p) OR push_bit 8 (ucast (b ! (p + 1))) OR push_bit 16 (ucast (b ! (p + 2))) OR
     push_bit 24 (ucast (b ! (p + 3)))"

lemma length_le [simp]: "length (le16 v) = 2" "length (le32 w) = 4" "length (le64 x) = 8"
  by (simp_all add: le16_def le32_def le64_def)

lemma le16_round [simp]: "ucast (ucast w :: u8) OR push_bit 8 (ucast (ucast (drop_bit 8 w) :: u8)) = (w :: u16)"
  by (rule bit_word_eqI) (auto simp: bit_simps)

lemma le32_round: "ucast (ucast w :: u8) OR push_bit 8 (ucast (ucast (drop_bit 8 w) :: u8)) OR
    push_bit 16 (ucast (ucast (drop_bit 16 w) :: u8)) OR push_bit 24 (ucast (ucast (drop_bit 24 w) :: u8)) = (w :: u32)"
  (is "?l = w")
proof (rule bit_word_eqI)
  fix n assume n: "n < LENGTH(32)"
  consider "n < 8" | "8 \<le> n" "n < 16" | "16 \<le> n" "n < 24" | "24 \<le> n" by linarith
  then show "bit ?l n = bit w n" using n by cases (simp_all add: bit_simps, linarith+)
qed

text \<open>Reading a field of a concatenation: skip what lies before, stop at the field.\<close>

lemma get32_here [simp]: "get32 (le32 w @ r) 0 = w"
  using le32_round [of w] by (simp add: get32_def le32_def)

lemma get16_here [simp]: "get16 (le16 w @ r) 0 = w"
  by (simp add: get16_def le16_def)

lemma get_skip: "length a \<le> p \<Longrightarrow> get32 (a @ b) p = get32 b (p - length a)"
    "length a \<le> p \<Longrightarrow> get16 (a @ b) p = get16 b (p - length a)"
  by (simp_all add: get32_def get16_def nth_append Suc_diff_le)

lemma get_within: "p + 4 \<le> n \<Longrightarrow> get32 (take n b) p = get32 b p" "p + 2 \<le> n \<Longrightarrow> get16 (take n b) p = get16 b p"
    "get32 (drop n b) p = get32 b (n + p)" "get16 (drop n b) p = get16 b (n + p)" if "n \<le> length b"
  using that by (simp_all add: get32_def get16_def add.assoc)

section \<open>Structures\<close>

abbreviation BKFS_MAGIC :: u32 where "BKFS_MAGIC \<equiv> 0xBACAF5"
abbreviation BKFS_ROOT_INO :: nat where "BKFS_ROOT_INO \<equiv> 2"
abbreviation BKFS_BLOCK_SIZE :: nat where "BKFS_BLOCK_SIZE \<equiv> 4096"
abbreviation BKFS_MAX_EXTENTS :: nat where "BKFS_MAX_EXTENTS \<equiv> 12"

record mkfs_super =
  s_magic :: u32
  s_block_size :: u32
  s_blocks_count :: u32
  s_free_blocks_count :: u32
  s_free_inodes_count :: u32
  s_inodes_count :: u32
  s_first_data_block :: u32
  s_first_ino :: u32
  s_inode_blocks :: u32
  s_mtime :: u64
  s_state :: u32
  s_errors :: u32
  s_creator_os :: u32
  s_rev_level :: u32
  s_def_resuid :: u16
  s_def_resgid :: u16

text \<open>Four bytes align \<open>s_mtime\<close> and four end the structure; \<open>s_reserved\<close> and the padding are zero.\<close>

definition super_bytes :: "mkfs_super \<Rightarrow> u8 list" where
  "super_bytes sb =
     le32 (s_magic sb) @ le32 (s_block_size sb) @ le32 (s_blocks_count sb) @ le32 (s_free_blocks_count sb) @
     le32 (s_free_inodes_count sb) @ le32 (s_inodes_count sb) @ le32 (s_first_data_block sb) @
     le32 (s_first_ino sb) @ le32 (s_inode_blocks sb) @ replicate 4 0 @ le64 (s_mtime sb) @ le32 (s_state sb) @
     le32 (s_errors sb) @ le32 (s_creator_os sb) @ le32 (s_rev_level sb) @ le16 (s_def_resuid sb) @
     le16 (s_def_resgid sb) @ replicate (4 * 236) 0 @ replicate 4 0"

record mkfs_inode =
  d_mode :: u16
  d_uid :: u16
  d_gid :: u16
  d_size :: u32
  d_atime :: u32
  d_ctime :: u32
  d_mtime :: u32
  d_dtime :: u32
  d_links_count :: u16
  d_blocks :: u32
  d_flags :: u32
  d_block :: "u32 list"
  d_generation :: u32

definition inode_bytes :: "mkfs_inode \<Rightarrow> u8 list" where
  "inode_bytes ino =
     le16 (d_mode ino) @ le16 (d_uid ino) @ le16 (d_gid ino) @ replicate 2 0 @ le32 (d_size ino) @
     le32 (d_atime ino) @ le32 (d_ctime ino) @ le32 (d_mtime ino) @ le32 (d_dtime ino) @
     le16 (d_links_count ino) @ replicate 2 0 @ le32 (d_blocks ino) @ le32 (d_flags ino) @
     concat (map (\<lambda>i. le32 (d_block ino ! i)) [0..<BKFS_MAX_EXTENTS]) @ le32 (d_generation ino) @ replicate 4 0"

definition SUPER_SIZE :: nat where "SUPER_SIZE = 1016"
definition INODE_SIZE :: nat where "INODE_SIZE = 96"

lemma length_super_bytes [simp]: "length (super_bytes sb) = SUPER_SIZE"
  by (simp add: super_bytes_def SUPER_SIZE_def del: replicate.simps)

lemma length_inode_bytes [simp]: "length (inode_bytes ino) = INODE_SIZE"
  by (simp add: inode_bytes_def INODE_SIZE_def numeral_eq_Suc)

section \<open>Writing\<close>

type_synonym device = "u8 list"

text \<open>
  \<open>pwrite\<close> returns the number of bytes written, or a negative error. \<open>writes\<close> is what the manual
  promises for a write inside the device that is not interrupted.
\<close>

type_synonym pwrite = "u8 list \<Rightarrow> nat \<Rightarrow> device \<Rightarrow> int \<times> device"

definition put :: "nat \<Rightarrow> 'a list \<Rightarrow> 'a list \<Rightarrow> 'a list" where
  "put p bs d = take p d @ bs @ drop (p + length bs) d"

definition writes :: "pwrite \<Rightarrow> device \<Rightarrow> bool" where
  "writes pw d \<longleftrightarrow> (\<forall>bs p d'. length d' = length d \<longrightarrow> p + length bs \<le> length d \<longrightarrow> pw bs p d' = (int (length bs), put p bs d'))"

definition INODES_COUNT :: u32 where "INODES_COUNT = 1024"

definition inode_table_blocks :: u32 where
  "inode_table_blocks = (INODES_COUNT * of_nat INODE_SIZE + of_nat BKFS_BLOCK_SIZE - 1) div of_nat BKFS_BLOCK_SIZE"

definition new_super :: "u64 \<Rightarrow> u32 \<Rightarrow> mkfs_super" where
  "new_super now blocks_count =
     \<lparr>s_magic = BKFS_MAGIC, s_block_size = of_nat BKFS_BLOCK_SIZE, s_blocks_count = blocks_count,
      s_free_blocks_count = blocks_count - inode_table_blocks - 2, s_free_inodes_count = INODES_COUNT - 1,
      s_inodes_count = INODES_COUNT, s_first_data_block = 1, s_first_ino = of_nat BKFS_ROOT_INO,
      s_inode_blocks = inode_table_blocks, s_mtime = now, s_state = 1, s_errors = 0, s_creator_os = 0,
      s_rev_level = 1, s_def_resuid = 0, s_def_resgid = 0\<rparr>"

definition write_superblock :: "pwrite \<Rightarrow> u64 \<Rightarrow> u32 \<Rightarrow> device \<Rightarrow> bool \<times> device" where
  "write_superblock pw now blocks_count d =
     (let (n, d') = pw (super_bytes (new_super now blocks_count)) 0 d in (n = int SUPER_SIZE, d'))"

abbreviation S_IFDIR :: u16 where "S_IFDIR \<equiv> 0x4000"

text \<open>\<open>time(NULL)\<close> is asked three times.\<close>

definition root_inode :: "u64 \<Rightarrow> u64 \<Rightarrow> u64 \<Rightarrow> mkfs_inode" where
  "root_inode t1 t2 t3 =
     \<lparr>d_mode = S_IFDIR OR 0x1ED, d_uid = 0, d_gid = 0, d_size = of_nat BKFS_BLOCK_SIZE, d_atime = ucast t1,
      d_ctime = ucast t2, d_mtime = ucast t3, d_dtime = 0, d_links_count = 2, d_blocks = 1, d_flags = 0,
      d_block = (replicate BKFS_MAX_EXTENTS 0)[0 := 1 + 1], d_generation = 0\<rparr>"

definition write_root_inode :: "pwrite \<Rightarrow> u64 \<Rightarrow> u64 \<Rightarrow> u64 \<Rightarrow> device \<Rightarrow> bool \<times> device" where
  "write_root_inode pw t1 t2 t3 d =
     (let (n, d') = pw (inode_bytes (root_inode t1 t2 t3)) BKFS_BLOCK_SIZE d in (n = int INODE_SIZE, d'))"

text \<open>The two entries are laid into the block field by field; a name starts at offset 8 of its entry.\<close>

definition put_entry :: "nat \<Rightarrow> u32 \<Rightarrow> u16 \<Rightarrow> u16 \<Rightarrow> u8 list \<Rightarrow> u8 list \<Rightarrow> u8 list" where
  "put_entry p ino name_len rec_len name =
     steps [put p (le32 ino), put (p + 6) (le16 name_len), put (p + 4) (le16 rec_len), put (p + 8) (name @ [0])]"

definition root_dir_block :: "u8 list" where
  "root_dir_block = steps
     [put_entry 0 (of_nat BKFS_ROOT_INO) 1 12 [0x2E],
      put_entry 12 (of_nat BKFS_ROOT_INO) 2 (of_nat BKFS_BLOCK_SIZE - 12) [0x2E, 0x2E]]
     (replicate BKFS_BLOCK_SIZE 0)"

definition write_root_dir_block :: "pwrite \<Rightarrow> device \<Rightarrow> bool \<times> device" where
  "write_root_dir_block pw d =
     (let (n, d') = pw root_dir_block (2 * BKFS_BLOCK_SIZE) d in (n = int BKFS_BLOCK_SIZE, d'))"

text \<open>\<open>exit(1)\<close> on the first write that fails, with the device as the writes before left it.\<close>

definition or_exit :: "(device \<Rightarrow> bool \<times> device) \<Rightarrow> (device \<Rightarrow> int \<times> device) \<Rightarrow> device \<Rightarrow> int \<times> device" where
  "or_exit w k d = (let (ok, d') = w d in if ok then k d' else (1, d'))"

definition get_device_size :: "int \<Rightarrow> u64 \<Rightarrow> u64" where
  "get_device_size rc sz = (if rc = -1 then 0 else sz)"

text \<open>
  The parameters: the number of arguments, what \<open>open\<close> and \<open>ioctl\<close> return, the reported size, the
  times and \<open>pwrite\<close>. The result is the exit status and the device.
\<close>

definition mkfs_main :: "nat \<Rightarrow> int \<Rightarrow> int \<Rightarrow> u64 \<Rightarrow> (nat \<Rightarrow> u64) \<Rightarrow> pwrite \<Rightarrow> device \<Rightarrow> int \<times> device" where
  "mkfs_main argc fd rc sz now pw d =
     (if argc \<noteq> 2 then (1, d)
      else if fd < 0 then (1, d)
      else let device_size = get_device_size rc sz
           in if device_size = 0 then (1, d)
              else let blocks_count = (ucast (device_size div of_nat BKFS_BLOCK_SIZE) :: u32)
                   in if blocks_count < 3 then (1, d)
                      else or_exit (write_superblock pw (now 0) blocks_count)
                             (or_exit (write_root_inode pw (now 1) (now 2) (now 3))
                               (or_exit (write_root_dir_block pw) (\<lambda>d. (0, d)))) d)"


section \<open>The image\<close>

lemma length_put [simp]: "p + length bs \<le> length d \<Longrightarrow> length (put p bs d) = length d"
  by (simp add: put_def)

lemma nth_put:
  "p + length bs \<le> length d \<Longrightarrow> i < length d \<Longrightarrow> put p bs d ! i = (if p \<le> i \<and> i < p + length bs then bs ! (i - p) else d ! i)"
  by (auto simp: put_def nth_append min_def)

lemma get_put:
  assumes "p + length bs \<le> length d"
  shows "p \<le> q \<Longrightarrow> q + 4 \<le> p + length bs \<Longrightarrow> get32 (put p bs d) q = get32 bs (q - p)"
    "q + 4 \<le> p \<or> p + length bs \<le> q \<Longrightarrow> q + 4 \<le> length d \<Longrightarrow> get32 (put p bs d) q = get32 d q"
    "q + 2 \<le> p \<or> p + length bs \<le> q \<Longrightarrow> q + 2 \<le> length d \<Longrightarrow> get16 (put p bs d) q = get16 d q"
    "p \<le> q \<Longrightarrow> q + 2 \<le> p + length bs \<Longrightarrow> get16 (put p bs d) q = get16 bs (q - p)"
  using assms by (auto simp: get32_def get16_def nth_put Suc_diff_le)

lemma length_root_dir [simp]: "length root_dir_block = BKFS_BLOCK_SIZE"
  by (simp add: root_dir_block_def put_entry_def del: replicate.simps)

definition image :: "(nat \<Rightarrow> u64) \<Rightarrow> u32 \<Rightarrow> device \<Rightarrow> device" where
  "image now blocks_count d = put (2 * BKFS_BLOCK_SIZE) root_dir_block
     (put BKFS_BLOCK_SIZE (inode_bytes (root_inode (now 1) (now 2) (now 3)))
       (put 0 (super_bytes (new_super (now 0) blocks_count)) d))"

abbreviation blocks_of :: "u64 \<Rightarrow> u32" where
  "blocks_of sz \<equiv> ucast (sz div of_nat BKFS_BLOCK_SIZE)"

lemma three_blocks:
  assumes "3 \<le> blocks_of sz" and "length d = unat sz"
  shows "3 * BKFS_BLOCK_SIZE \<le> length d"
proof -
  have "unat (ucast x :: u32) \<le> unat x" for x :: u64 by (simp add: unsigned_ucast_eq)
  moreover have "3 \<le> unat (blocks_of sz)" using assms(1) by (simp add: word_le_nat_alt)
  ultimately have "3 \<le> unat (sz div of_nat BKFS_BLOCK_SIZE)" using le_trans by blast
  then have "3 \<le> unat sz div 4096" by (simp add: unat_div)
  then show ?thesis using assms(2) by simp
qed

lemma mkfs_main_image:
  assumes "0 \<le> fd" and "rc \<noteq> -1" and "length d = unat sz" and "3 \<le> blocks_of sz" and "writes pw d"
  shows "mkfs_main 2 fd rc sz now pw d = (0, image now (blocks_of sz) d)"
proof -
  have big: "3 * BKFS_BLOCK_SIZE \<le> length d" by (rule three_blocks [OF assms(4,3)])
  have w: "pw bs p d' = (int (length bs), put p bs d')" if "length d' = length d" "p + length bs \<le> length d" for bs p d'
    using assms(5) that by (simp add: writes_def)
  have "sz \<noteq> 0" using big assms(3) by auto
  moreover have "\<not> blocks_of sz < 3" using assms(4) by (simp add: not_less)
  ultimately show ?thesis
    using assms(1,2) big
    by (simp add: mkfs_main_def get_device_size_def Let_def or_exit_def write_superblock_def write_root_inode_def
        write_root_dir_block_def w image_def SUPER_SIZE_def INODE_SIZE_def)
qed

text \<open>What the image holds where the module looks.\<close>

lemma image_super:
  assumes "3 * BKFS_BLOCK_SIZE \<le> length d"
  shows "length (image now bc d) = length d"
    and "q + 4 \<le> SUPER_SIZE \<Longrightarrow> get32 (image now bc d) q = get32 (super_bytes (new_super (now 0) bc)) q"
    and "q + 2 \<le> INODE_SIZE \<Longrightarrow> get16 (image now bc d) (BKFS_BLOCK_SIZE + q) = get16 (inode_bytes (root_inode (now 1) (now 2) (now 3))) q"
    and "BKFS_BLOCK_SIZE + INODE_SIZE \<le> q \<Longrightarrow> q + 2 \<le> 2 * BKFS_BLOCK_SIZE \<Longrightarrow> get16 (image now bc d) q = get16 d q"
  using assms by (simp_all add: image_def get_put SUPER_SIZE_def INODE_SIZE_def)

lemma super_fields:
  "get32 (super_bytes sb) 0 = s_magic sb" "get32 (super_bytes sb) 8 = s_blocks_count sb"
  "get32 (super_bytes sb) 12 = s_free_blocks_count sb" "get32 (super_bytes sb) 16 = s_free_inodes_count sb"
  "get32 (super_bytes sb) 20 = s_inodes_count sb" "get32 (super_bytes sb) 32 = s_inode_blocks sb"
  by (simp_all add: super_bytes_def get_skip)

end
