(* ===== verification/Bkfs_Module.thy ===== *)
theory Bkfs_Module imports Disk_Format begin

text \<open>
  The Linux driver for the disk format, src/fs/bkfs_mod.c: the life of an inode, reading one from the
  disk, mounting, statistics, write-back of the counters and unmounting, against the image the
  formatter writes. What Linux does (the inode cache, \<open>d_make_root\<close>, \<open>mount_bdev\<close>, \<open>kill_block_super\<close>,
  \<open>clear_inode\<close>, the addresses \<open>kzalloc\<close> and \<open>kmem_cache_alloc\<close> return) is a parameter; the buffer cache
  is part of the state as the contents of each block that can be read.
\<close>

section \<open>State\<close>

record sb_info =
  sbi_free_blocks :: u32
  sbi_free_inodes :: u32
  sbi_blocks :: u32
  sbi_inodes :: u32
  sbi_inode_blocks :: u32

record vfs_inode =
  v_mode :: u16
  v_uid :: u16
  v_gid :: u16
  v_size :: u64
  v_atime :: u32
  v_ctime :: u32
  v_mtime :: u32
  v_nlink :: u16
  v_blocks :: u32
  v_ops :: bool
  v_pages :: nat
  v_clear :: bool

record inode_info =
  ii_flags :: u32
  ii_vfs :: vfs_inode

text \<open>
  \<open>v_ops\<close>: the directory operations are installed; \<open>v_pages\<close>: the pages cached for the inode; \<open>v_clear\<close>:
  it has been cleared. \<open>kheap\<close>, \<open>slab\<close>: the live allocations of \<open>kzalloc\<close> and of the inode cache by address.
\<close>

record vfs =
  s_fs_info :: "nat option"
  sb_magic :: u32
  sb_ops :: bool
  s_maxbytes :: u32
  s_root :: "vfs_inode option"
  kheap :: "nat \<Rightarrow> sb_info option"
  slab :: "nat \<Rightarrow> inode_info option"
  cache :: "nat \<Rightarrow> u8 list option"

datatype kfault = DoubleFree | BadPointer | Bug

text \<open>
  Linux: \<open>iget_locked\<close> gives the inode of a number and whether it is new, or nothing when memory is
  short; \<open>d_make_root\<close> gives the root entry or nothing; the place of a \<open>struct inode\<close> after the flags in
  \<open>struct bkfs_inode_info\<close> depends on its alignment.
\<close>

record linux =
  iget_locked :: "u64 \<Rightarrow> (vfs_inode \<times> bool) option"
  d_make_root :: "vfs_inode \<Rightarrow> vfs_inode option"
  vfs_inode_offset :: nat
  truncate_inode_pages_final :: "vfs_inode \<Rightarrow> vfs_inode"
  clear_inode :: "vfs_inode \<Rightarrow> kfault + vfs_inode"

abbreviation EIO :: int where "EIO \<equiv> 5"
abbreviation ENOMEM :: int where "ENOMEM \<equiv> 12"
abbreviation EINVAL :: int where "EINVAL \<equiv> 22"

section \<open>The structures on the disk\<close>

text \<open>
  \<open>struct bkfs_super_block\<close> and \<open>struct bkfs_inode\<close> laid over the bytes of a block, with the offsets of
  the C layout.
\<close>

definition get64 :: "u8 list \<Rightarrow> nat \<Rightarrow> u64" where
  "get64 b p = ucast (get32 b p) OR push_bit 32 (ucast (get32 b (p + 4)))"

record bkfs_super_block =
  ds_magic :: u32
  ds_block_size :: u32
  ds_blocks_count :: u32
  ds_free_blocks_count :: u32
  ds_free_inodes_count :: u32
  ds_inodes_count :: u32
  ds_first_data_block :: u32
  ds_first_ino :: u32
  ds_inode_blocks :: u32
  ds_mtime :: u64
  ds_state :: u32
  ds_errors :: u32
  ds_creator_os :: u32
  ds_rev_level :: u32
  ds_def_resuid :: u16
  ds_def_resgid :: u16
  ds_reserved :: "u32 list"

definition RESERVED_WORDS :: nat where "RESERVED_WORDS = 236"

definition disk_super :: "u8 list \<Rightarrow> bkfs_super_block" where
  "disk_super b = \<lparr>ds_magic = get32 b 0, ds_block_size = get32 b 4, ds_blocks_count = get32 b 8,
     ds_free_blocks_count = get32 b 12, ds_free_inodes_count = get32 b 16, ds_inodes_count = get32 b 20,
     ds_first_data_block = get32 b 24, ds_first_ino = get32 b 28, ds_inode_blocks = get32 b 32,
     ds_mtime = get64 b 40, ds_state = get32 b 48, ds_errors = get32 b 52, ds_creator_os = get32 b 56,
     ds_rev_level = get32 b 60, ds_def_resuid = get16 b 64, ds_def_resgid = get16 b 66,
     ds_reserved = map (\<lambda>i. get32 b (68 + 4 * i)) [0..<RESERVED_WORDS]\<rparr>"

record bkfs_inode =
  di_mode :: u16
  di_uid :: u16
  di_gid :: u16
  di_size :: u32
  di_atime :: u32
  di_ctime :: u32
  di_mtime :: u32
  di_dtime :: u32
  di_links_count :: u16
  di_blocks :: u32
  di_flags :: u32
  di_block :: "u32 list"
  di_generation :: u32
  di_reserved :: u32

definition disk_inode :: "u8 list \<Rightarrow> nat \<Rightarrow> bkfs_inode" where
  "disk_inode b p = \<lparr>di_mode = get16 b p, di_uid = get16 b (p + 2), di_gid = get16 b (p + 4), di_size = get32 b (p + 8),
     di_atime = get32 b (p + 12), di_ctime = get32 b (p + 16), di_mtime = get32 b (p + 20), di_dtime = get32 b (p + 24),
     di_links_count = get16 b (p + 28), di_blocks = get32 b (p + 32), di_flags = get32 b (p + 36),
     di_block = map (\<lambda>i. get32 b (p + 40 + 4 * i)) [0..<BKFS_MAX_EXTENTS], di_generation = get32 b (p + 88),
     di_reserved = get32 b (p + 92)\<rparr>"

lemma disk_super_simps [simp]:
  "ds_magic (disk_super b) = get32 b 0" "ds_blocks_count (disk_super b) = get32 b 8"
  "ds_free_blocks_count (disk_super b) = get32 b 12" "ds_free_inodes_count (disk_super b) = get32 b 16"
  "ds_inodes_count (disk_super b) = get32 b 20" "ds_inode_blocks (disk_super b) = get32 b 32"
  by (simp_all add: disk_super_def)

lemma disk_inode_simps [simp]:
  "di_mode (disk_inode b p) = get16 b p" "di_uid (disk_inode b p) = get16 b (p + 2)" "di_gid (disk_inode b p) = get16 b (p + 4)"
  "di_size (disk_inode b p) = get32 b (p + 8)" "di_atime (disk_inode b p) = get32 b (p + 12)"
  "di_ctime (disk_inode b p) = get32 b (p + 16)" "di_mtime (disk_inode b p) = get32 b (p + 20)"
  "di_links_count (disk_inode b p) = get16 b (p + 28)" "di_blocks (disk_inode b p) = get32 b (p + 32)"
  by (simp_all add: disk_inode_def)

section \<open>The life of an inode\<close>

text \<open>\<open>container_of\<close>, on addresses.\<close>

definition BKFS_I :: "linux \<Rightarrow> nat \<Rightarrow> nat" where
  "BKFS_I l inode = inode - vfs_inode_offset l"

text \<open>\<open>p\<close> is what \<open>kmem_cache_alloc\<close> returns: an address and what the memory there holds.\<close>

definition bkfs_alloc_inode :: "linux \<Rightarrow> (nat \<times> inode_info) option \<Rightarrow> vfs \<Rightarrow> nat option \<times> vfs" where
  "bkfs_alloc_inode l p st =
     (case p of
        None \<Rightarrow> (None, st)
      | Some (bi, raw) \<Rightarrow> (Some (bi + vfs_inode_offset l), st\<lparr>slab := (slab st)(bi \<mapsto> raw)\<rparr>))"

definition bkfs_destroy_inode :: "linux \<Rightarrow> nat \<Rightarrow> vfs \<Rightarrow> kfault + vfs" where
  "bkfs_destroy_inode l inode st =
     (let bi = BKFS_I l inode
      in case slab st bi of
           None \<Rightarrow> Inl DoubleFree
         | Some x \<Rightarrow> Inr (st\<lparr>slab := (slab st)(bi := None)\<rparr>))"

definition bkfs_evict_inode :: "linux \<Rightarrow> nat \<Rightarrow> vfs \<Rightarrow> kfault + vfs" where
  "bkfs_evict_inode l inode st =
     (let bi = BKFS_I l inode
      in case slab st bi of
           None \<Rightarrow> Inl BadPointer
         | Some x \<Rightarrow> (case clear_inode l (truncate_inode_pages_final l (ii_vfs x)) of
             Inl f \<Rightarrow> Inl f
           | Inr i \<Rightarrow> Inr (st\<lparr>slab := (slab st)(bi \<mapsto> x\<lparr>ii_vfs := i\<rparr>)\<rparr>)))"

definition bkfs_write_inode :: "nat \<Rightarrow> vfs \<Rightarrow> int \<times> vfs" where
  "bkfs_write_inode inode st = (0, st)"

section \<open>Inodes\<close>

definition BKFS_INODES_PER_BLOCK :: nat where
  "BKFS_INODES_PER_BLOCK = BKFS_BLOCK_SIZE div INODE_SIZE"

definition is_reg :: "u16 \<Rightarrow> bool" where "is_reg m \<longleftrightarrow> m AND 0xF000 = 0x8000"
definition is_dir :: "u16 \<Rightarrow> bool" where "is_dir m \<longleftrightarrow> m AND 0xF000 = 0x4000"

text \<open>The fields from offset \<open>p\<close> of the block.\<close>

definition fill_inode :: "u8 list \<Rightarrow> nat \<Rightarrow> vfs_inode \<Rightarrow> vfs_inode" where
  "fill_inode b p i =
     (let di = disk_inode b p;
          i1 = i\<lparr>v_mode := di_mode di, v_uid := di_uid di, v_gid := di_gid di, v_size := ucast (di_size di),
                 v_atime := di_atime di, v_ctime := di_ctime di, v_mtime := di_mtime di, v_nlink := di_links_count di,
                 v_blocks := di_blocks di\<rparr>
      in if is_reg (v_mode i1) then i1\<lparr>v_ops := True\<rparr>
         else if is_dir (v_mode i1) then i1\<lparr>v_ops := True, v_size := of_nat BKFS_BLOCK_SIZE\<rparr>
         else i1)"

definition bkfs_iget :: "linux \<Rightarrow> vfs \<Rightarrow> u64 \<Rightarrow> int + vfs_inode" where
  "bkfs_iget l st ino =
     (case iget_locked l ino of
        None \<Rightarrow> Inl (- ENOMEM)
      | Some (i, is_new) \<Rightarrow>
          (if \<not> is_new then Inr i
           else let inode_block = (ucast (1 + ino div of_nat BKFS_INODES_PER_BLOCK) :: u32);
                    inode_offset = (ucast (ino mod of_nat BKFS_INODES_PER_BLOCK) :: u32)
                in case cache st (unat inode_block) of
                     None \<Rightarrow> Inl (- EIO)
                   | Some b \<Rightarrow> Inr (fill_inode b (unat inode_offset * INODE_SIZE) i)))"

section \<open>Mounting and unmounting\<close>

definition kfree :: "nat option \<Rightarrow> vfs \<Rightarrow> kfault + vfs" where
  "kfree p st =
     (case p of
        None \<Rightarrow> Inr st
      | Some a \<Rightarrow> (case kheap st a of
          None \<Rightarrow> Inl DoubleFree
        | Some x \<Rightarrow> Inr (st\<lparr>kheap := (kheap st)(a := None)\<rparr>)))"

definition zero_sb_info :: sb_info where
  "zero_sb_info = \<lparr>sbi_free_blocks = 0, sbi_free_inodes = 0, sbi_blocks = 0, sbi_inodes = 0, sbi_inode_blocks = 0\<rparr>"

text \<open>The labels \<open>out_bh\<close> and \<open>out\<close>.\<close>

definition fill_failed :: "nat \<Rightarrow> int \<Rightarrow> vfs \<Rightarrow> kfault + (int \<times> vfs)" where
  "fill_failed a rc st = (case kfree (Some a) st of Inl f \<Rightarrow> Inl f | Inr st' \<Rightarrow> Inr (rc, st'))"

definition read_super :: "nat \<Rightarrow> u8 list \<Rightarrow> vfs \<Rightarrow> vfs" where
  "read_super a b st = st\<lparr>
     kheap := (kheap st)(a \<mapsto> (let ds = disk_super b in
       \<lparr>sbi_free_blocks = ds_free_blocks_count ds, sbi_free_inodes = ds_free_inodes_count ds,
        sbi_blocks = ds_blocks_count ds, sbi_inodes = ds_inodes_count ds, sbi_inode_blocks = ds_inode_blocks ds\<rparr>)),
     sb_magic := BKFS_MAGIC, sb_ops := True, s_maxbytes := of_nat (BKFS_MAX_EXTENTS * BKFS_BLOCK_SIZE)\<rparr>"

text \<open>\<open>p\<close> is what \<open>kzalloc\<close> returns.\<close>

definition bkfs_fill_super :: "linux \<Rightarrow> nat option \<Rightarrow> vfs \<Rightarrow> kfault + (int \<times> vfs)" where
  "bkfs_fill_super l p st =
     (case p of
        None \<Rightarrow> Inr (- ENOMEM, st)
      | Some a \<Rightarrow>
          (let st1 = st\<lparr>kheap := (kheap st)(a \<mapsto> zero_sb_info), s_fs_info := Some a\<rparr>
           in case cache st1 0 of
                None \<Rightarrow> fill_failed a (- EINVAL) st1
              | Some b \<Rightarrow>
                  (if ds_magic (disk_super b) \<noteq> BKFS_MAGIC then fill_failed a (- EINVAL) st1
                   else let st2 = read_super a b st1
                        in case bkfs_iget l st2 (of_nat BKFS_ROOT_INO) of
                             Inl e \<Rightarrow> fill_failed a e st2
                           | Inr root \<Rightarrow>
                               (let st3 = st2\<lparr>s_root := d_make_root l root\<rparr>
                                in if s_root st3 = None then fill_failed a (- ENOMEM) st3 else Inr (0, st3)))))"

definition bkfs_put_super :: "vfs \<Rightarrow> kfault + vfs" where
  "bkfs_put_super st = kfree (s_fs_info st) (st\<lparr>s_fs_info := None\<rparr>)"

definition bkfs_kill_sb :: "(vfs \<Rightarrow> kfault + vfs) \<Rightarrow> vfs \<Rightarrow> kfault + vfs" where
  "bkfs_kill_sb kill_block_super st =
     (case kill_block_super st of Inl f \<Rightarrow> Inl f | Inr st' \<Rightarrow> kfree (s_fs_info st') st')"

text \<open>
  What Linux documents of \<open>kill_block_super\<close> that matters here: it calls \<open>put_super\<close> if the
  superblock got a root, after dropping it.
\<close>

definition calls_put_super :: "(vfs \<Rightarrow> kfault + vfs) \<Rightarrow> bool" where
  "calls_put_super kill \<longleftrightarrow>
     (\<forall>st. kill st = (case s_root st of None \<Rightarrow> Inr st | Some r \<Rightarrow> bkfs_put_super (st\<lparr>s_root := None\<rparr>)))"

text \<open>\<open>mount_bdev\<close> gets the file system type, of which it uses \<open>kill_sb\<close>, and \<open>bkfs_fill_super\<close>.\<close>

type_synonym mount_bdev =
  "(vfs \<Rightarrow> kfault + vfs) \<Rightarrow> (vfs \<Rightarrow> kfault + (int \<times> vfs)) \<Rightarrow> vfs \<Rightarrow> kfault + ((int + vfs_inode) \<times> vfs)"

definition bkfs_mount :: "mount_bdev \<Rightarrow> (vfs \<Rightarrow> kfault + vfs) \<Rightarrow> linux \<Rightarrow> nat option \<Rightarrow> vfs \<Rightarrow> kfault + ((int + vfs_inode) \<times> vfs)" where
  "bkfs_mount mount_bdev kill_sb l p = mount_bdev kill_sb (bkfs_fill_super l p)"

text \<open>
  What Linux documents of \<open>mount_bdev\<close> that matters here, on a superblock not in use: it fills the
  superblock and returns its root; when that fails it shuts the superblock down through \<open>kill_sb\<close>
  and returns the error.
\<close>

definition fills_or_kills :: "mount_bdev \<Rightarrow> bool" where
  "fills_or_kills mb \<longleftrightarrow> (\<forall>kill fill st. mb kill fill st =
     (case fill st of
        Inl f \<Rightarrow> Inl f
      | Inr (rc, st') \<Rightarrow>
          (if rc = 0 then (case s_root st' of None \<Rightarrow> Inl BadPointer | Some r \<Rightarrow> Inr (Inr r, st'))
           else case kill st' of Inl f \<Rightarrow> Inl f | Inr st'' \<Rightarrow> Inr (Inl rc, st''))))"

section \<open>Statistics and write-back\<close>

definition live_info :: "vfs \<Rightarrow> kfault + sb_info" where
  "live_info st =
     (case s_fs_info st of
        None \<Rightarrow> Inl BadPointer
      | Some a \<Rightarrow> (case kheap st a of None \<Rightarrow> Inl BadPointer | Some x \<Rightarrow> Inr x))"

record kstatfs =
  f_type_of :: u32
  f_bsize :: u32
  f_blocks :: u32
  f_bfree :: u32
  f_bavail :: u32
  f_files :: u32
  f_ffree :: u32
  f_namelen :: u32

definition bkfs_statfs :: "vfs \<Rightarrow> kfault + kstatfs" where
  "bkfs_statfs st =
     (case live_info st of
        Inl f \<Rightarrow> Inl f
      | Inr x \<Rightarrow> Inr \<lparr>f_type_of = BKFS_MAGIC, f_bsize = of_nat BKFS_BLOCK_SIZE, f_blocks = sbi_blocks x,
          f_bfree = sbi_free_blocks x, f_bavail = sbi_free_blocks x, f_files = sbi_inodes x,
          f_ffree = sbi_free_inodes x, f_namelen = 255\<rparr>)"

definition bkfs_sync_fs :: "u64 \<Rightarrow> vfs \<Rightarrow> kfault + (int \<times> vfs)" where
  "bkfs_sync_fs now st =
     (case cache st 0 of
        None \<Rightarrow> Inr (- EIO, st)
      | Some b \<Rightarrow> (case live_info st of
          Inl f \<Rightarrow> Inl f
        | Inr x \<Rightarrow> Inr (0, st\<lparr>cache := (cache st)(0 \<mapsto> steps
            [put 12 (le32 (sbi_free_blocks x)), put 16 (le32 (sbi_free_inodes x)), put 40 (le64 now)] b)\<rparr>)))"

section \<open>The tables handed to Linux\<close>

record super_operations =
  op_alloc_inode :: "(nat \<times> inode_info) option \<Rightarrow> vfs \<Rightarrow> nat option \<times> vfs"
  op_destroy_inode :: "nat \<Rightarrow> vfs \<Rightarrow> kfault + vfs"
  op_write_inode :: "nat \<Rightarrow> vfs \<Rightarrow> int \<times> vfs"
  op_evict_inode :: "nat \<Rightarrow> vfs \<Rightarrow> kfault + vfs"
  op_put_super :: "vfs \<Rightarrow> kfault + vfs"
  op_sync_fs :: "u64 \<Rightarrow> vfs \<Rightarrow> kfault + (int \<times> vfs)"
  op_statfs :: "vfs \<Rightarrow> kfault + kstatfs"

definition bkfs_sops :: "linux \<Rightarrow> super_operations" where
  "bkfs_sops l = \<lparr>op_alloc_inode = bkfs_alloc_inode l, op_destroy_inode = bkfs_destroy_inode l,
     op_write_inode = bkfs_write_inode, op_evict_inode = bkfs_evict_inode l, op_put_super = bkfs_put_super,
     op_sync_fs = bkfs_sync_fs, op_statfs = bkfs_statfs\<rparr>"

record file_system_type =
  fst_name :: string
  fst_mount :: "nat option \<Rightarrow> vfs \<Rightarrow> kfault + ((int + vfs_inode) \<times> vfs)"
  fst_kill_sb :: "vfs \<Rightarrow> kfault + vfs"
  fst_requires_dev :: bool

definition bkfs_fs_type :: "mount_bdev \<Rightarrow> (vfs \<Rightarrow> kfault + vfs) \<Rightarrow> linux \<Rightarrow> file_system_type" where
  "bkfs_fs_type mb kill_block_super l = \<lparr>fst_name = ''bkfs'',
     fst_mount = bkfs_mount mb (bkfs_kill_sb kill_block_super) l,
     fst_kill_sb = bkfs_kill_sb kill_block_super, fst_requires_dev = True\<rparr>"

section \<open>Loading\<close>

text \<open>
  The state of the module: whether its slab cache exists and whether the file system is registered.
\<close>

record module_state =
  inode_cache :: bool
  registered :: bool

definition init_bkfs_fs :: "bool \<Rightarrow> int \<Rightarrow> module_state \<Rightarrow> int \<times> module_state" where
  "init_bkfs_fs created err m =
     (if \<not> created then (- ENOMEM, m\<lparr>inode_cache := False\<rparr>)
      else let m1 = m\<lparr>inode_cache := True\<rparr>
           in if err \<noteq> 0 then (err, m1\<lparr>inode_cache := False\<rparr>) else (0, m1\<lparr>registered := True\<rparr>))"

definition exit_bkfs_fs :: "module_state \<Rightarrow> module_state" where
  "exit_bkfs_fs m = (m\<lparr>registered := False\<rparr>)\<lparr>inode_cache := False\<rparr>"

section \<open>Mount and unmount\<close>

lemma fill_failed_state:
  assumes "kheap st a \<noteq> None"
  shows "fill_failed a rc st = Inr (rc, st\<lparr>kheap := (kheap st)(a := None)\<rparr>)"
  using assms by (auto simp: fill_failed_def kfree_def)

text \<open>
  A mount either succeeds, with the information allocated and a root, or fails with the information
  freed, \<open>s_fs_info\<close> still pointing to it and no root to run \<open>put_super\<close> for.
\<close>

definition mounted :: "nat \<Rightarrow> vfs \<Rightarrow> vfs \<Rightarrow> bool" where
  "mounted a st st' \<longleftrightarrow> s_root st' \<noteq> None \<and> s_fs_info st' = Some a \<and> kheap st' a \<noteq> None \<and> (kheap st')(a := None) = kheap st"

definition dangling :: "nat \<Rightarrow> vfs \<Rightarrow> vfs \<Rightarrow> bool" where
  "dangling a st st' \<longleftrightarrow> s_root st' = None \<and> s_fs_info st' = Some a \<and> kheap st' = kheap st"

lemma fill_super_outcome:
  assumes "kheap st a = None" and "s_root st = None"
  shows "\<exists>rc st'. bkfs_fill_super l (Some a) st = Inr (rc, st') \<and> (if rc = 0 then mounted a st st' else dangling a st st')"
proof -
  let ?st1 = "st\<lparr>kheap := (kheap st)(a \<mapsto> zero_sb_info), s_fs_info := Some a\<rparr>"
  have h: "(kheap st)(a := None) = kheap st" using assms(1) by (auto simp: fun_eq_iff)
  have iget_err: "e \<noteq> 0" if "bkfs_iget l s n = Inl e" for s n e
    using that by (auto simp: bkfs_iget_def Let_def split: option.splits if_splits)
  show ?thesis
  proof (cases "cache st 0")
    case None
    then show ?thesis using h assms(2) by (simp add: bkfs_fill_super_def fill_failed_state dangling_def)
  next
    case (Some b)
    let ?st2 = "read_super a b ?st1"
    have f: "fill_failed a e s = Inr (e, s\<lparr>kheap := (kheap s)(a := None)\<rparr>)" if "kheap s = kheap ?st2" for e s
      using that by (intro fill_failed_state) (simp add: read_super_def)
    have k: "(kheap ?st2)(a := None) = kheap st" "s_root ?st2 = None" "s_fs_info ?st2 = Some a" "kheap ?st2 a \<noteq> None"
      using h assms(2) by (simp_all add: read_super_def)
    show ?thesis
    proof (cases "get32 b 0 = BKFS_MAGIC")
      case False
      then show ?thesis using Some h assms(2) by (simp add: bkfs_fill_super_def fill_failed_state dangling_def)
    next
      case True
      show ?thesis
      proof (cases "bkfs_iget l ?st2 (of_nat BKFS_ROOT_INO)")
        case (Inl e)
        then show ?thesis
          using Some True f [of ?st2 e] k iget_err [OF Inl] by (simp add: bkfs_fill_super_def dangling_def Let_def)
      next
        case (Inr root)
        then show ?thesis
          using Some True f [of "?st2\<lparr>s_root := None\<rparr>" "- ENOMEM"] k
          by (cases "d_make_root l root") (simp_all add: bkfs_fill_super_def dangling_def mounted_def Let_def)
      qed
    qed
  qed
qed

text \<open>Unmounting after a mount: if the mount succeeded, every allocation is returned and none twice;
  if it failed after the first allocation, \<open>bkfs_kill_sb\<close> frees the information a second time.\<close>

theorem failed_mount_frees_twice:
  assumes "calls_put_super kill" and "kheap st a = None" and "s_root st = None"
    and "bkfs_fill_super l (Some a) st = Inr (rc, st')"
  shows "if rc = 0 then \<exists>st''. bkfs_kill_sb kill st' = Inr st'' \<and> kheap st'' = kheap st \<and> s_fs_info st'' = None
    else bkfs_kill_sb kill st' = Inl DoubleFree"
proof (cases "rc = 0")
  case True
  then have m: "mounted a st st'" using fill_super_outcome [OF assms(2,3), of l] assms(4) by auto
  then show ?thesis
    using True assms(1) by (auto simp: mounted_def bkfs_kill_sb_def calls_put_super_def bkfs_put_super_def kfree_def)
next
  case False
  then have "dangling a st st'" using fill_super_outcome [OF assms(2,3), of l] assms(4) by auto
  then show ?thesis
    using False assms(1,2) by (simp add: dangling_def bkfs_kill_sb_def calls_put_super_def kfree_def)
qed

text \<open>A superblock before the mount, and a Linux that follows the documentation.\<close>

definition no_super :: "(nat \<Rightarrow> u8 list option) \<Rightarrow> vfs" where
  "no_super c = \<lparr>s_fs_info = None, sb_magic = 0, sb_ops = False, s_maxbytes = 0, s_root = None,
     kheap = (\<lambda>_. None), slab = (\<lambda>_. None), cache = c\<rparr>"

definition new_inode :: vfs_inode where
  "new_inode = \<lparr>v_mode = 0, v_uid = 0, v_gid = 0, v_size = 0, v_atime = 0, v_ctime = 0, v_mtime = 0, v_nlink = 1,
     v_blocks = 0, v_ops = False, v_pages = 3, v_clear = False\<rparr>"

definition plain_linux :: linux where
  "plain_linux = \<lparr>iget_locked = (\<lambda>_. Some (new_inode, True)), d_make_root = Some, vfs_inode_offset = 8,
     truncate_inode_pages_final = (\<lambda>i. i\<lparr>v_pages := 0\<rparr>),
     clear_inode = (\<lambda>i. if v_pages i = 0 then Inr (i\<lparr>v_clear := True\<rparr>) else Inl Bug)\<rparr>"

definition plain_kill :: "vfs \<Rightarrow> kfault + vfs" where
  "plain_kill st = (case s_root st of None \<Rightarrow> Inr st | Some r \<Rightarrow> bkfs_put_super (st\<lparr>s_root := None\<rparr>))"

theorem failed_mount_frees_twice_witness:
  "\<exists>st'. bkfs_fill_super plain_linux (Some 64) (no_super (\<lambda>_. None)) = Inr (- EINVAL, st') \<and>
    bkfs_kill_sb plain_kill st' = Inl DoubleFree"
proof -
  obtain st' where "bkfs_fill_super plain_linux (Some 64) (no_super (\<lambda>_. None)) = Inr (- EINVAL, st')"
    by (simp add: bkfs_fill_super_def no_super_def fill_failed_def kfree_def)
  then show ?thesis
    using failed_mount_frees_twice [of plain_kill "no_super (\<lambda>_. None)" 64 plain_linux "- EINVAL" st']
    by (simp add: calls_put_super_def plain_kill_def no_super_def)
qed

text \<open>C28: Mounting on a superblock not in use: the call returns the root with the information allocated, or,
  when there was no memory for the information, the error with nothing changed; every other failure
  (an unreadable or foreign device, no inode, no root entry) ends in freeing the information twice
  inside the call itself.\<close>

theorem mount_outcome:
  assumes "fills_or_kills mb" and "calls_put_super kill" and "\<And>a. p = Some a \<Longrightarrow> kheap st a = None"
    and "s_root st = None" and "s_fs_info st = None"
  shows "case p of
      None \<Rightarrow> bkfs_mount mb (bkfs_kill_sb kill) l p st = Inr (Inl (- ENOMEM), st)
    | Some a \<Rightarrow> bkfs_mount mb (bkfs_kill_sb kill) l p st = Inl DoubleFree \<or>
        (\<exists>r st'. bkfs_mount mb (bkfs_kill_sb kill) l p st = Inr (Inr r, st') \<and> mounted a st st' \<and>
           (\<exists>b. cache st 0 = Some b \<and> get32 b 0 = BKFS_MAGIC))"
proof (cases p)
  case None
  then show ?thesis
    using assms(1,2,4,5)
    by (simp add: bkfs_mount_def fills_or_kills_def bkfs_fill_super_def bkfs_kill_sb_def calls_put_super_def kfree_def)
next
  case (Some a)
  obtain rc st' where f: "bkfs_fill_super l (Some a) st = Inr (rc, st')"
    "if rc = 0 then mounted a st st' else dangling a st st'"
    using fill_super_outcome [OF assms(3) [OF Some] assms(4)] by blast
  show ?thesis
  proof (cases "rc = 0")
    case True
    then have "\<exists>b. cache st 0 = Some b \<and> get32 b 0 = BKFS_MAGIC"
      using f(1) by (auto simp: bkfs_fill_super_def fill_failed_def Let_def split: option.splits if_splits sum.splits)
    then show ?thesis
      using True f Some assms(1) by (auto simp: bkfs_mount_def fills_or_kills_def mounted_def)
  next
    case False
    then have "bkfs_kill_sb kill st' = Inl DoubleFree"
      using f(2) assms(2) assms(3) [OF Some] by (simp add: dangling_def bkfs_kill_sb_def calls_put_super_def kfree_def)
    then show ?thesis using False f Some assms(1) by (simp add: bkfs_mount_def fills_or_kills_def)
  qed
qed

definition plain_mount :: mount_bdev where
  "plain_mount kill fill st =
     (case fill st of
        Inl f \<Rightarrow> Inl f
      | Inr (rc, st') \<Rightarrow>
          (if rc = 0 then (case s_root st' of None \<Rightarrow> Inl BadPointer | Some r \<Rightarrow> Inr (Inr r, st'))
           else case kill st' of Inl f \<Rightarrow> Inl f | Inr st'' \<Rightarrow> Inr (Inl rc, st'')))"

theorem mount_outcome_witness:
  "bkfs_mount plain_mount (bkfs_kill_sb plain_kill) plain_linux (Some 64) (no_super (\<lambda>_. None)) = Inl DoubleFree"
  using mount_outcome [of plain_mount plain_kill "Some 64" "no_super (\<lambda>_. None)" plain_linux]
  by (simp add: fills_or_kills_def plain_mount_def calls_put_super_def plain_kill_def no_super_def)

text \<open>C30: An inode lives and dies cleanly: what \<open>bkfs_alloc_inode\<close> hands out, eviction first empties and then
  clears, so the check of \<open>clear_inode\<close> for remaining pages never fires, and \<open>bkfs_destroy_inode\<close>
  returns exactly the object allocated, whatever the layout of the structure; destroying it twice is
  a fault. Writing the inode back in between stores nothing.\<close>

theorem inode_lives_once:
  assumes "\<And>i. v_pages (truncate_inode_pages_final l i) = 0"
    and "\<And>i. clear_inode l i = (if v_pages i = 0 then Inr (i\<lparr>v_clear := True\<rparr>) else Inl Bug)"
    and "slab st bi = None" and "bkfs_alloc_inode l (Some (bi, raw)) st = (Some p, st1)"
  shows "\<exists>st2 st3. bkfs_write_inode p st1 = (0, st1) \<and> bkfs_evict_inode l p st1 = Inr st2 \<and>
    bkfs_destroy_inode l p st2 = Inr st3 \<and> st3 = st \<and> bkfs_destroy_inode l p st3 = Inl DoubleFree \<and>
    (\<exists>x. slab st2 bi = Some x \<and> v_pages (ii_vfs x) = 0 \<and> v_clear (ii_vfs x) \<and> ii_flags x = ii_flags raw)"
proof -
  have p: "p = bi + vfs_inode_offset l" "st1 = st\<lparr>slab := (slab st)(bi \<mapsto> raw)\<rparr>"
    using assms(4) by (simp_all add: bkfs_alloc_inode_def)
  have b: "BKFS_I l p = bi" by (simp add: BKFS_I_def p(1))
  let ?i = "truncate_inode_pages_final l (ii_vfs raw)"
  let ?st2 = "st\<lparr>slab := (slab st)(bi \<mapsto> raw\<lparr>ii_vfs := ?i\<lparr>v_clear := True\<rparr>\<rparr>)\<rparr>"
  have e: "bkfs_evict_inode l p st1 = Inr ?st2"
    using assms(1,2) by (simp add: bkfs_evict_inode_def b p(2))
  have "(slab st)(bi := None) = slab st" using assms(3) by (auto simp: fun_eq_iff)
  then have d: "bkfs_destroy_inode l p ?st2 = Inr st" by (simp add: bkfs_destroy_inode_def b)
  have "bkfs_destroy_inode l p st = Inl DoubleFree" using assms(3) by (simp add: bkfs_destroy_inode_def b)
  then show ?thesis using e d assms(1) by (auto simp: bkfs_write_inode_def)
qed

theorem inode_lives_once_witness:
  "\<exists>st2. bkfs_evict_inode plain_linux 136
      ((no_super (\<lambda>_. None))\<lparr>slab := [128 \<mapsto> \<lparr>ii_flags = 7, ii_vfs = new_inode\<rparr>]\<rparr>) = Inr st2 \<and>
    bkfs_destroy_inode plain_linux 136 st2 = Inr (no_super (\<lambda>_. None))"
  using inode_lives_once [of plain_linux "no_super (\<lambda>_. None)" 128 "\<lparr>ii_flags = 7, ii_vfs = new_inode\<rparr>" 136
      "(no_super (\<lambda>_. None))\<lparr>slab := [128 \<mapsto> \<lparr>ii_flags = 7, ii_vfs = new_inode\<rparr>]\<rparr>"]
  by (auto simp: plain_linux_def no_super_def bkfs_alloc_inode_def)

section \<open>A formatted device\<close>

text \<open>The blocks of a device that is whole and readable.\<close>

definition blocks_on :: "device \<Rightarrow> nat \<Rightarrow> u8 list option" where
  "blocks_on d n = (if (n + 1) * BKFS_BLOCK_SIZE \<le> length d
     then Some (take BKFS_BLOCK_SIZE (drop (n * BKFS_BLOCK_SIZE) d)) else None)"

lemma get_block:
  assumes "(n + 1) * BKFS_BLOCK_SIZE \<le> length d"
  shows "q + 4 \<le> BKFS_BLOCK_SIZE \<Longrightarrow> get32 (take BKFS_BLOCK_SIZE (drop (n * BKFS_BLOCK_SIZE) d)) q = get32 d (n * BKFS_BLOCK_SIZE + q)"
    "q + 2 \<le> BKFS_BLOCK_SIZE \<Longrightarrow> get16 (take BKFS_BLOCK_SIZE (drop (n * BKFS_BLOCK_SIZE) d)) q = get16 d (n * BKFS_BLOCK_SIZE + q)"
  using assms by (simp_all add: get32_def get16_def add.assoc)

lemma inodes_per_block: "BKFS_INODES_PER_BLOCK = 42"
  by (simp add: BKFS_INODES_PER_BLOCK_def INODE_SIZE_def)

text \<open>The driver looks for inode 2 in slot 2 of block 1.\<close>

lemma iget_root:
  assumes "iget_locked l 2 = Some (i, True)" and "cache st 1 = Some b"
  shows "bkfs_iget l st (of_nat BKFS_ROOT_INO) = Inr (fill_inode b (2 * INODE_SIZE) i)"
  using assms by (simp add: bkfs_iget_def inodes_per_block Let_def)

lemma v_mode_fill [simp]: "v_mode (fill_inode b p i) = get16 b p"
  by (simp add: fill_inode_def Let_def)

text \<open>Mounting a formatted device.\<close>

lemma mount_image:
  assumes "3 * BKFS_BLOCK_SIZE \<le> length d" and "cache st = blocks_on (image now bc d)"
    and "iget_locked l 2 = Some (i, True)" and "d_make_root l = Some"
  shows "\<exists>st' r. bkfs_fill_super l (Some a) st = Inr (0, st') \<and> s_root st' = Some r \<and>
    v_mode r = get16 d (BKFS_BLOCK_SIZE + 2 * INODE_SIZE) \<and>
    live_info st' = Inr \<lparr>sbi_free_blocks = bc - inode_table_blocks - 2, sbi_free_inodes = INODES_COUNT - 1,
      sbi_blocks = bc, sbi_inodes = INODES_COUNT, sbi_inode_blocks = inode_table_blocks\<rparr>"
proof -
  let ?m = "image now bc d"
  note I = image_super [OF assms(1), where now = now and bc = bc]
  let ?b = "\<lambda>n. take BKFS_BLOCK_SIZE (drop (n * BKFS_BLOCK_SIZE) ?m)"
  have c: "cache st 0 = Some (?b 0)" "cache st 1 = Some (?b 1)"
    using assms(1,2) I(1) by (simp_all add: blocks_on_def)
  have f: "get32 (?b 0) q = get32 (super_bytes (new_super (now 0) bc)) q" if "q + 4 \<le> SUPER_SIZE" for q
    using get_block(1) [of 0 ?m q] I(1) I(2) [of q] that assms(1) by (simp add: SUPER_SIZE_def)
  have s: "get32 (?b 0) 0 = BKFS_MAGIC" "get32 (?b 0) 8 = bc" "get32 (?b 0) 12 = bc - inode_table_blocks - 2"
    "get32 (?b 0) 16 = INODES_COUNT - 1" "get32 (?b 0) 20 = INODES_COUNT" "get32 (?b 0) 32 = inode_table_blocks"
    using f super_fields [of "new_super (now 0) bc"] by (simp_all add: SUPER_SIZE_def new_super_def)
  have "get16 (?b 1) (2 * INODE_SIZE) = get16 ?m (BKFS_BLOCK_SIZE + 2 * INODE_SIZE)"
    using get_block(2) [of 1 ?m "2 * INODE_SIZE"] I(1) assms(1) by (simp add: INODE_SIZE_def)
  also have "\<dots> = get16 d (BKFS_BLOCK_SIZE + 2 * INODE_SIZE)"
    using I(4) [of "BKFS_BLOCK_SIZE + 2 * INODE_SIZE"] by (simp add: INODE_SIZE_def)
  finally have r: "get16 (?b 1) (2 * INODE_SIZE) = get16 d (BKFS_BLOCK_SIZE + 2 * INODE_SIZE)" .
  let ?st2 = "read_super a (?b 0) (st\<lparr>kheap := (kheap st)(a \<mapsto> zero_sb_info), s_fs_info := Some a\<rparr>)"
  have "bkfs_iget l ?st2 (of_nat BKFS_ROOT_INO) = Inr (fill_inode (?b 1) (2 * INODE_SIZE) i)"
    using c(2) by (intro iget_root [OF assms(3)]) (simp add: read_super_def)
  then have "bkfs_fill_super l (Some a) st = Inr (0, ?st2\<lparr>s_root := Some (fill_inode (?b 1) (2 * INODE_SIZE) i)\<rparr>)"
    using c(1) s(1) assms(4) by (simp add: bkfs_fill_super_def Let_def)
  then show ?thesis using r s by (simp add: live_info_def read_super_def)
qed

text \<open>C31: A formatted device can be mounted, and the driver reads back the counts the formatter stored; but
  on a device of fewer than 26 blocks, which the formatter accepts from 3 blocks on, the free count
  has wrapped below zero and exceeds the number of blocks.\<close>

theorem mkfs_then_mount_counts:
  assumes "0 \<le> fd" and "rc \<noteq> -1" and "length d = unat sz" and "3 \<le> blocks_of sz" and "writes pw d"
    and "mkfs_main 2 fd rc sz now pw d = (e, d')" and "cache st = blocks_on d'"
    and "iget_locked l 2 = Some (i, True)" and "d_make_root l = Some"
  shows "e = 0 \<and> (\<exists>st' x. bkfs_fill_super l (Some a) st = Inr (0, st') \<and> live_info st' = Inr x \<and>
    sbi_blocks x = blocks_of sz \<and> sbi_free_blocks x = blocks_of sz - 26 \<and> sbi_inodes x = 1024 \<and> sbi_free_inodes x = 1023 \<and>
    (blocks_of sz < 26 \<longrightarrow> sbi_blocks x < sbi_free_blocks x))"
proof -
  have m: "e = 0" "d' = image now (blocks_of sz) d"
    using mkfs_main_image [OF assms(1-5), of now] assms(6) by simp_all
  have t24: "inode_table_blocks = 24" by (simp add: inode_table_blocks_def INODES_COUNT_def INODE_SIZE_def)
  have "w < w - 26" if "w < 26" for w :: u32
  proof -
    have "unat w < 26" using that by (simp add: word_less_nat_alt)
    then have "unat (w - 26) = unat w + 2 ^ 32 - 26" by (simp add: unat_sub_if_size word_size)
    then show ?thesis using \<open>unat w < 26\<close> by (simp add: word_less_nat_alt)
  qed
  then show ?thesis
    using mount_image [OF three_blocks [OF assms(4,3)], of st now "blocks_of sz" l i a] m assms(7-9)
    by (auto simp: t24 INODES_COUNT_def)
qed

text \<open>C27: The root directory is lost: the formatter writes the root inode into slot 0 of the inode table and
  the driver reads slot 2, so the mounted root has whatever mode the device held there before.\<close>

theorem mkfs_root_inode_lost:
  assumes "0 \<le> fd" and "rc \<noteq> -1" and "length d = unat sz" and "3 \<le> blocks_of sz" and "writes pw d"
    and "mkfs_main 2 fd rc sz now pw d = (e, d')" and "cache st = blocks_on d'"
    and "iget_locked l 2 = Some (i, True)" and "d_make_root l = Some"
  shows "get16 d' BKFS_BLOCK_SIZE = 0x41ED \<and> (\<exists>st' r. bkfs_fill_super l (Some a) st = Inr (0, st') \<and>
    s_root st' = Some r \<and> v_mode r = get16 d (BKFS_BLOCK_SIZE + 2 * INODE_SIZE))"
proof -
  have m: "d' = image now (blocks_of sz) d"
    using mkfs_main_image [OF assms(1-5), of now] assms(6) by simp
  have "get16 d' BKFS_BLOCK_SIZE = get16 (inode_bytes (root_inode (now 1) (now 2) (now 3))) 0"
    using image_super(3) [OF three_blocks [OF assms(4,3)], where q = 0 and now = now and bc = "blocks_of sz"] m by (simp add: INODE_SIZE_def)
  also have "\<dots> = 0x41ED" by (simp add: inode_bytes_def root_inode_def)
  finally show ?thesis
    using mount_image [OF three_blocks [OF assms(4,3)], of st now "blocks_of sz" l i a] m assms(7-9) by blast
qed

text \<open>A device of three blocks of zeros and a host that writes.\<close>

definition plain_pwrite :: pwrite where
  "plain_pwrite bs p d = (int (length bs), put p bs d)"

theorem mkfs_then_mount_counts_witness:
  "\<exists>d' st' x. mkfs_main 2 3 0 12288 (\<lambda>_. 0) plain_pwrite (replicate 12288 0) = (0, d') \<and>
    bkfs_fill_super plain_linux (Some 64) (no_super (blocks_on d')) = Inr (0, st') \<and> live_info st' = Inr x \<and>
    sbi_blocks x = 3 \<and> sbi_blocks x < sbi_free_blocks x"
proof -
  obtain e d' where m: "mkfs_main 2 3 0 12288 (\<lambda>_. 0) plain_pwrite (replicate 12288 0) = (e, d')"
    by (cases "mkfs_main 2 3 0 12288 (\<lambda>_. 0) plain_pwrite (replicate 12288 0)")
  show ?thesis
    using mkfs_then_mount_counts [of 3 0 "replicate 12288 0" 12288 plain_pwrite "\<lambda>_. 0" e d' "no_super (blocks_on d')" plain_linux new_inode 64] m
    by (auto simp: writes_def plain_pwrite_def no_super_def plain_linux_def simp del: replicate.simps)
qed

theorem mkfs_root_inode_lost_witness:
  "\<exists>d' st' r. mkfs_main 2 3 0 12288 (\<lambda>_. 0) plain_pwrite (replicate 12288 0) = (0, d') \<and>
    bkfs_fill_super plain_linux (Some 64) (no_super (blocks_on d')) = Inr (0, st') \<and> s_root st' = Some r \<and> v_mode r = 0"
proof -
  have w: "writes plain_pwrite (replicate 12288 0)" by (simp add: writes_def plain_pwrite_def)
  obtain d' where m: "mkfs_main 2 3 0 12288 (\<lambda>_. 0) plain_pwrite (replicate 12288 0) = (0, d')"
    using mkfs_main_image [of 3 0 "replicate 12288 0" 12288 plain_pwrite "\<lambda>_. 0"] w by (simp del: replicate.simps)
  have z: "get16 (replicate 12288 0) (BKFS_BLOCK_SIZE + 2 * INODE_SIZE) = 0" by (simp add: get16_def INODE_SIZE_def del: replicate.simps)
  show ?thesis
    using mkfs_root_inode_lost [of 3 0 "replicate 12288 0" 12288 plain_pwrite "\<lambda>_. 0" 0 d' "no_super (blocks_on d')" plain_linux new_inode 64] m w z
    by (auto simp: no_super_def plain_linux_def simp del: replicate.simps)
qed

text \<open>The layouts of the two programs.\<close>

lemma get64_here: "get64 (le64 w @ r) 0 = w"
proof -
  have "get32 (le64 w @ r) 0 = ucast w" by (simp add: le64_def)
  moreover have "get32 (le64 w @ r) 4 = ucast (drop_bit 32 w)" by (simp add: le64_def get_skip)
  moreover have "ucast (ucast w :: u32) OR push_bit 32 (ucast (ucast (drop_bit 32 w) :: u32)) = (w :: u64)"
  proof (rule bit_word_eqI)
    fix n assume "n < LENGTH(64)"
    then show "bit (ucast (ucast w :: u32) OR push_bit 32 (ucast (ucast (drop_bit 32 w) :: u32)) :: u64) n = bit w n"
      by (cases "n < 32") (auto simp: bit_simps)
  qed
  ultimately show ?thesis by (simp add: get64_def)
qed

lemma get64_skip: "length a \<le> p \<Longrightarrow> get64 (a @ b) p = get64 b (p - length a)"
  by (simp add: get64_def get_skip)

lemma get32_array: "i < n \<Longrightarrow> get32 (concat (map (\<lambda>i. le32 (f i)) [0..<n]) @ r) (4 * i) = f i"
proof (induction n arbitrary: r)
  case 0
  then show ?case by simp
next
  case (Suc n)
  have l: "length (concat (map (\<lambda>i. le32 (f i)) [0..<n])) = 4 * n"
    by (simp add: length_concat comp_def sum_list_triv)
  show ?case
  proof (cases "i = n")
    case True
    then show ?thesis using get_skip(1) [of "concat (map (\<lambda>i. le32 (f i)) [0..<n])" "4 * n" "le32 (f n) @ r"] l by simp
  next
    case False
    then show ?thesis using Suc.IH [of "le32 (f n) @ r"] Suc.prems by simp
  qed
qed

lemma get32_zeros: "p + 4 \<le> n \<Longrightarrow> get32 (replicate n 0 @ r) p = 0"
  by (simp add: get32_def nth_append)

text \<open>The words the formatter never assigns are zero, from the initialisation of its structures.\<close>

definition driver_super :: "mkfs_super \<Rightarrow> bkfs_super_block" where
  "driver_super s = \<lparr>ds_magic = s_magic s, ds_block_size = s_block_size s, ds_blocks_count = s_blocks_count s,
     ds_free_blocks_count = s_free_blocks_count s, ds_free_inodes_count = s_free_inodes_count s,
     ds_inodes_count = s_inodes_count s, ds_first_data_block = s_first_data_block s, ds_first_ino = s_first_ino s,
     ds_inode_blocks = s_inode_blocks s, ds_mtime = s_mtime s, ds_state = s_state s, ds_errors = s_errors s,
     ds_creator_os = s_creator_os s, ds_rev_level = s_rev_level s, ds_def_resuid = s_def_resuid s,
     ds_def_resgid = s_def_resgid s, ds_reserved = replicate RESERVED_WORDS 0\<rparr>"

definition driver_inode :: "mkfs_inode \<Rightarrow> bkfs_inode" where
  "driver_inode n = \<lparr>di_mode = d_mode n, di_uid = d_uid n, di_gid = d_gid n, di_size = d_size n, di_atime = d_atime n,
     di_ctime = d_ctime n, di_mtime = d_mtime n, di_dtime = d_dtime n, di_links_count = d_links_count n,
     di_blocks = d_blocks n, di_flags = d_flags n, di_block = d_block n, di_generation = d_generation n,
     di_reserved = 0\<rparr>"

text \<open>C29: The formatter and the driver agree on the layout of the superblock and of an inode: laid over the
  bytes the formatter writes, wherever they stand in a block and whatever follows, the driver's
  structures have the formatter's value in every field; the reserved words, which the formatter does not
  assign, are zero.\<close>

theorem layouts_agree:
  assumes "length (d_block n) = BKFS_MAX_EXTENTS"
  shows "disk_super (super_bytes s @ r) = driver_super s \<and> disk_inode (a @ inode_bytes n @ r) (length a) = driver_inode n"
proof -
  have "get32 (super_bytes s @ r) (68 + 4 * i) = 0" if "i < RESERVED_WORDS" for i
    using get32_zeros [of "4 * i" "4 * 236" "replicate 4 0 @ r"] that
    by (simp add: super_bytes_def get_skip RESERVED_WORDS_def del: replicate.simps)
  then have z: "map (\<lambda>i. get32 (super_bytes s @ r) (68 + 4 * i)) [0..<RESERVED_WORDS] = replicate RESERVED_WORDS 0"
    by (intro nth_equalityI) simp_all
  have s: "disk_super (super_bytes s @ r) = driver_super s"
    unfolding disk_super_def z
    by (simp add: driver_super_def super_bytes_def get_skip get64_skip get64_here del: replicate.simps)
  have l: "length (concat (map (\<lambda>i. le32 (d_block n ! i)) [0..<BKFS_MAX_EXTENTS])) = 4 * BKFS_MAX_EXTENTS"
    by (simp add: length_concat comp_def sum_list_triv)
  have b: "get32 (inode_bytes n @ r) (40 + 4 * i) = d_block n ! i" if "i < BKFS_MAX_EXTENTS" for i
    using get32_array [OF that] by (simp add: inode_bytes_def get_skip del: replicate.simps)
  have bl: "map (\<lambda>i. get32 (inode_bytes n @ r) (40 + 4 * i)) [0..<BKFS_MAX_EXTENTS] = d_block n"
    using b assms by (intro nth_equalityI) simp_all
  have g: "get32 (inode_bytes n @ r) 88 = d_generation n"
    using l by (simp add: inode_bytes_def get_skip del: replicate.simps upt_Suc)
  have "get32 (inode_bytes n @ r) 92 = 0"
    using l get32_zeros [of 0 4 r] by (simp add: inode_bytes_def get_skip del: replicate.simps upt_Suc)
  note g = g this
  have f: "get16 (inode_bytes n @ r) 0 = d_mode n" "get16 (inode_bytes n @ r) 2 = d_uid n" "get16 (inode_bytes n @ r) 4 = d_gid n"
    "get32 (inode_bytes n @ r) 8 = d_size n" "get32 (inode_bytes n @ r) 12 = d_atime n" "get32 (inode_bytes n @ r) 16 = d_ctime n"
    "get32 (inode_bytes n @ r) 20 = d_mtime n" "get32 (inode_bytes n @ r) 24 = d_dtime n"
    "get16 (inode_bytes n @ r) 28 = d_links_count n" "get32 (inode_bytes n @ r) 32 = d_blocks n" "get32 (inode_bytes n @ r) 36 = d_flags n"
    by (simp_all add: inode_bytes_def get_skip del: replicate.simps upt_Suc)
  have "disk_inode (a @ inode_bytes n @ r) (length a) = driver_inode n"
    using f g bl by (simp add: disk_inode_def driver_inode_def get_skip)
  then show ?thesis using s by blast
qed

theorem layouts_agree_witness:
  "disk_inode (replicate 4096 0 @ inode_bytes (root_inode 1 2 3)) 4096 = driver_inode (root_inode 1 2 3)"
  using layouts_agree [of "root_inode 1 2 3" "new_super 0 3" "[]" "replicate 4096 0"]
  by (simp add: root_inode_def del: replicate.simps)

text \<open>Writing the counters back touches only them and the time, so a later mount finds them.\<close>

lemma sync_then_read:
  assumes "cache st 0 = Some b" and "length b = BKFS_BLOCK_SIZE" and "live_info st = Inr x"
  shows "\<exists>st' b'. bkfs_sync_fs now st = Inr (0, st') \<and> cache st' 0 = Some b' \<and> get32 b' 12 = sbi_free_blocks x \<and>
    get32 b' 16 = sbi_free_inodes x \<and> get32 b' 0 = get32 b 0 \<and> get32 b' 8 = get32 b 8"
  using assms get32_here [of "sbi_free_blocks x" "[]"] get32_here [of "sbi_free_inodes x" "[]"]
  by (simp add: bkfs_sync_fs_def get_put)

end
