(* ===== verification/Build_Tool.thy ===== *)
theory Build_Tool imports Prelude begin

text \<open>
  The build program src/tools/make.c: a list of shell commands that stops at the first one that
  fails. \<open>system\<close> belongs to the host: its results are the parameter \<open>sys_rc\<close>, from the number of the
  call and the command. The state is the list of commands run, oldest first.
\<close>

datatype run = Running "string list" | Exited int "string list"

definition run_command :: "(nat \<Rightarrow> string \<Rightarrow> int) \<Rightarrow> string \<Rightarrow> run \<Rightarrow> run" where
  "run_command sys_rc command r =
     (case r of
        Exited n rs \<Rightarrow> r
      | Running rs \<Rightarrow>
          (if sys_rc (length rs) command \<noteq> 0 then Exited 1 (rs @ [command]) else Running (rs @ [command])))"

definition clean_commands :: "string list" where
  "clean_commands =
     [''rm -f mkfs.bkfs'', ''rm -f boot/boot.o'', ''rm -f src/kernel.o'', ''rm -f iso/boot/krn.img'',
      ''rm -f srunix86.iso'']"

definition build_commands :: "string list" where
  "build_commands =
     [''gcc -O2 -o mkfs.bkfs fs/mkfs_bkfs.c'',
      ''nasm -f elf64 boot/boot.asm -o boot/boot.o'',
      ''gcc -m64 -c src/kernel/kernel.c -o src/kernel.o -ffreestanding -nostdlib -O2'',
      ''ld -m elf_x86_64 -T boot/linker.ld -o iso/boot/krn.img boot/boot.o src/kernel.o -nostdlib -static'',
      ''grub-mkrescue -o srunix86.iso iso'']"

text \<open>\<open>argv\<close> includes the name of the program.\<close>

definition make_main :: "(nat \<Rightarrow> string \<Rightarrow> int) \<Rightarrow> string list \<Rightarrow> int \<times> string list" where
  "make_main sys_rc argv =
     (case fold (run_command sys_rc)
         (if length argv = 2 \<and> argv ! 1 = ''clean'' then clean_commands else build_commands) (Running []) of
        Running rs \<Rightarrow> (0, rs)
      | Exited n rs \<Rightarrow> (n, rs))"

lemma exited_stays: "fold (run_command rc) cs (Exited n rs) = Exited n rs"
  by (induction cs) (simp_all add: run_command_def)

text \<open>The commands run are a prefix of the list, and all but the last succeeded.\<close>

lemma run_commands:
  "fold (run_command rc) cs (Running rs) =
    (case List.find (\<lambda>i. rc (length rs + i) (cs ! i) \<noteq> 0) [0..<length cs] of
       None \<Rightarrow> Running (rs @ cs)
     | Some i \<Rightarrow> Exited 1 (rs @ take (Suc i) cs))"
proof (induction cs arbitrary: rs)
  case (Cons c cs)
  have u: "[0..<length (c # cs)] = 0 # map Suc [0..<length cs]" by (simp add: map_Suc_upt upt_conv_Cons del: upt_Suc)
  have m: "List.find (\<lambda>i. rc (length rs + i) ((c # cs) ! i) \<noteq> 0) (map Suc js) =
      map_option Suc (List.find (\<lambda>i. rc (length (rs @ [c]) + i) (cs ! i) \<noteq> 0) js)" for js
    by (induction js) simp_all
  show ?case
  proof (cases "rc (length rs) c = 0")
    case True
    then show ?thesis using Cons.IH [of "rs @ [c]"] unfolding u
      by (simp add: run_command_def m [simplified] split: option.splits)
  next
    case False
    then have "run_command rc c (Running rs) = Exited 1 (rs @ [c])" by (simp add: run_command_def)
    then show ?thesis using False unfolding u by (simp add: exited_stays)
  qed
qed simp

end
