(* ===== verification/Spec2Isabelle.thy ===== *)
theory Spec2Isabelle imports Bkfs_Refine Session String_Props Screen_Props Device_Props Shell_Stays
  Api_Props Font Bkfs_Module Build_Tool begin

text \<open>
  A verification library for srunix86, a small kernel for x86-64: a text console with nine virtual
  terminals, an in-memory file system, a shell, and beside it a formatter and a Linux driver for an
  on-disk format of the same name.

  \<^bold>\<open>Program and model.\<close> The kernel is one translation unit, src/kernel/kernel.c, that includes headers
  with bodies (src/lib/prdio.h, src/lib/prddef.h, src/fs/bkfs.h, src/internet/internet.h, src/bin).
  Its state is their global variables. The model has them as records: \<open>console\<close> (theory Console),
  \<open>bkfs\<close> (Bkfs) and \<open>kernel\<close> (Machine), which holds both, the keyboard, process, history, network, disk
  and mouse globals, and the bytes the devices will still deliver. A function of the program is a
  definition of the same name. One that only computes is a HOL function on C strings; one that can
  go wrong returns \<open>fault + 'a\<close>; one that acts on the kernel is a command: it returns a value and the
  new state, or stops with a reason (a fault, no more input, a halted processor, no more fuel). Memory
  accesses outside an array, signed overflow, reads of unset objects and missing variadic arguments
  are faults, because C gives them no meaning. Machine integers are words of their width. A port read
  takes the next byte of the input, a port write and every read is recorded in a trace.

  \<^bold>\<open>Theories.\<close>
  \<^item> Prelude: words, faults, commands and their sequencing, list lemmas, and the contract \<open>stepping\<close> of
    components that are step relations (interpreted for the file system, the console and the process
    table). Config: the constants of src/lib/pring.h.
  \<^item> CString, String_Props: the string routines of src/lib/prdio.h with closed forms of what they leave
    in memory.
  \<^item> Pool: the interface of a pool of slots with a counter. Bkfs: the tables and operations of
    src/fs/bkfs.h, with the inodes and the blocks as its two providers. Bkfs_Inv, Bkfs_Ops, Bkfs_Dir: the
    invariant \<open>fs_inv\<close> and what each operation does to it and to the contents of every file. Bkfs_Props:
    their properties. Bkfs_Refine: an abstract store of rows and contents, and the simulation. Tables: the
    weaker invariant that also a failed write keeps.
  \<^item> Console, Console_Props, Screen_Props: printing, scrolling, formatted output, saved terminals.
  \<^item> Machine: the kernel state and the operations that also print. Paths, FileCmds, File_Props: \<open>ls\<close>,
    \<open>pwd\<close>, \<open>cd\<close>, \<open>cat\<close>, \<open>touch\<close>, \<open>mkdir\<close>, \<open>rm\<close> and the redirections. ProcNet, InfoCmds, Mouse, Device_Props:
    processes, network, clock, reports, speaker, power, mouse.
  \<^item> Boot, Boot_Props: \<open>kernel_main\<close> up to the first login, and the properties whose witnesses start
    from the booted machine.
  \<^item> Shell: keyboard, terminal switching, login, history, line editor, dispatcher. Approx, Fuel: fuel
    does not change results. Typing: what a user at the keyboard makes of them, key event by key event.
    History: the history as a bounded log, an interface with the shell's table as provider. Commands,
    Command_Props: from the line to the branch of the dispatcher. Shell_Props: the properties of the
    interactive part. Session: a loop over whole lines, which the shell implements, and sessions from
    power-on to the text on the screen. Machine_Inv: the invariant of the whole kernel, with a rule per
    combinator and per command, along every run. Shell_Stays: login, shell and the commands that start
    them never return, by rules of the same form.
  \<^item> Heap, Font: the allocator and the font routines. Api, Api_Props: the table of functions for programs,
    src/lib/srunix86_api.c, over the kernel and the heap, and what a program gets through it. Nothing in
    the program calls these.
  \<^item> Disk_Format: src/fs/mkfs_bkfs.c with the byte layout. Bkfs_Module: src/fs/bkfs_mod.c, with its
    structures laid over the same bytes. Build_Tool: src/tools/make.c. The paths of these three are
    relative to the top of the repository (fs, tools).

  \<^bold>\<open>What is shown.\<close> For the file system, on inodes in use and with arguments that fit their arrays: the
  invariant along all operations but one, the write to a file with contents that runs out of blocks, which
  is shown to break it; read after write, that files do not interfere, when a write succeeds, creation and
  deletion, and that every run in which no write finds the disk full is a run of the abstract store. For the machine: booting never faults and builds one tree;
  the keyboard driver gives back every printable text typed on the US layout, whose scan codes are
  written down apart from the driver's maps; the shell never returns and is a loop over lines; with the
  right login, lines that store a text and show it end with the text in the file system and on the
  screen; the commands do to the file system and the screen what their messages say. For the disk
  format: formatter and driver agree on every field, reserved words included, an inode is allocated and destroyed once. For every run of
  the kernel, however it ends: nothing is written outside the screen, no index leaves the process table or
  the history, the tables of the file system keep their shape so that reading and writing never leave them,
  and the mouse, its test mode and the clock are never started. The theorems also show where the
  code departs from its intent: endless loops of \<open>rm -rf\<close> and \<open>pwd\<close>, overruns of local arrays, keys that
  read outside the key map, history that cannot be recalled, a root directory the driver cannot find, a failed mount that frees memory twice, a sleep that never
  ends.

  \<^bold>\<open>Bounds and fuel.\<close> Two groups of calls are recursive without a bound: \<open>execute_rm\<close> with its loop over
  the children, and the calls of the interactive part, tied by \<open>run\<close>. Both count a fuel down at every
  call. Theory Fuel shows that any larger fuel gives the same outcome, so a theorem with some fuel
  holds with all larger ones; statements that a call returns give enough fuel explicitly (one per
  character typed and a few per loop), and statements that it does not are for all fuel. Waiting loops
  on a port use the length of the remaining input, since each round takes a byte. \<open>pwd\<close> is a partial
  function in the option monad. All other loops are bounded by their counters and modelled in full.

  \<^bold>\<open>Assumptions on the surroundings.\<close> The processor's name registers, the video memory at power-on and
  the device input are parameters. For the formatter and the driver, \<open>pwrite\<close>, \<open>open\<close>, the size request,
  the clock, the inode cache, \<open>d_make_root\<close>, \<open>mount_bdev\<close>, \<open>kill_block_super\<close>, the two functions of the
  eviction and the allocators' answers are parameters; the hypotheses \<open>writes\<close>, \<open>fills_or_kills\<close> and
  \<open>calls_put_super\<close> and those on \<open>truncate_inode_pages_final\<close> and \<open>clear_inode\<close> state what their
  documentation promises. The version string of the table of functions is a parameter, and so is what
  interrupts do to the machine while \<open>api_sleep\<close> waits: the loop is the library's \<open>while_option\<close>, which has no
  value when it does not end. In this kernel interrupts stay off, and that parameter is the identity.

  \<^bold>\<open>Not modelled.\<close> src/lib/prdop.h and src/bin/fetch.h are older copies of functions of kernel.c that
  no file includes. The packet structures of src/lib/prddef.h and the unused structures and prototypes
  of src/lib/prdio.h are declared only. Delay loops are no-ops, no code changes \<open>timer_ticks\<close>, so it
  stays 0, and that \<open>execute_echo\<close> cuts the line in place is not visible afterwards. Messages of the
  formatter and the build program, the boot loader in assembly and the scripts are left out.
\<close>

end
